theory Spec2Isabelle
  imports Main "HOL-Library.Word"
begin

section \<open>Values, errors and expressions\<close>

text \<open>
  The builders of package \<open>dat\<close> pass Go \<open>interface{}\<close> values around. The
  constructors below are the dynamic types the builders inspect: the untyped nil, scalars,
  a non-nil slice, a nil slice, a pointer to an \<open>Expression\<close> (its \<open>Sql\<close> and
  \<open>Args\<close>) and a \<open>map[string]interface{}\<close> (\<open>Eq\<close>), kept as an association
  list in the order in which Go happens to iterate over it.
\<close>

datatype val =
    NilV
  | IntV int
  | BoolV bool
  | StrV string
  | SliceV "val list"
  | NilSliceV
  | ExprV string "val list"
  | MapV "(string \<times> val) list"

text \<open>
  A Go \<open>error\<close> carries its message (\<open>NewError\<close>, \<open>errors.New\<close>); a run-time
  panic (nil dereference, index out of range) is a value of its own.
\<close>

datatype error = Error string | Panic string

definition NewError :: "string \<Rightarrow> error" where
  "NewError msg = Error msg"

text \<open>\<open>Expr(sql, args...)\<close> builds an \<open>Expression\<close>; the builders read its \<open>Sql\<close>
  and \<open>Args\<close> fields.\<close>

record Expression =
  Sql :: string
  Args :: "val list"

definition Expr :: "string \<Rightarrow> val list \<Rightarrow> Expression" where
  "Expr sql a = \<lparr>Sql = sql, Args = a\<rparr>"

text \<open>The result of every \<open>ToSQL\<close>: the error, or the text with its bound arguments.\<close>

type_synonym sqlResult = "error + (string \<times> val list)"

section \<open>Decimal numbers and placeholders\<close>

text \<open>\<open>strconv.FormatInt(n, 10)\<close> and \<open>strconv.Itoa\<close> of the Go library.\<close>

definition digitChar :: "nat \<Rightarrow> char" where
  "digitChar d = ''0123456789'' ! d"

fun itoa :: "nat \<Rightarrow> string" where
  "itoa n = (if n < 10 then [digitChar n] else itoa (n div 10) @ [digitChar (n mod 10)])"

declare itoa.simps [simp del]

definition FormatInt :: "int \<Rightarrow> string" where
  "FormatInt i = (if i < 0 then CHR ''-'' # itoa (nat (- i)) else itoa (nat i))"

definition isDigit :: "char \<Rightarrow> bool" where
  "isDigit c = (c \<in> set ''0123456789'')"

definition digitVal :: "char \<Rightarrow> nat" where
  "digitVal c = of_char c - 48"

definition atoi :: "string \<Rightarrow> nat" where
  "atoi ds = foldl (\<lambda>n c. 10 * n + digitVal c) 0 ds"

text \<open>
  Modelled from the spec: \<open>remapPlaceholders\<close> is not among the sources. Section 4.1:
  it writes the text, rewriting every relative marker \<open>$k\<close> to the absolute
  \<open>$(cursor+k-1)\<close>. A marker is a dollar sign followed by its longest run of digits.
\<close>

function remapPlaceholders :: "string \<Rightarrow> int \<Rightarrow> string" where
  "remapPlaceholders [] start = []"
| "remapPlaceholders (c # cs) start =
     (if c = CHR ''$'' \<and> takeWhile isDigit cs \<noteq> []
      then CHR ''$'' # FormatInt (start + int (atoi (takeWhile isDigit cs)) - 1)
             @ remapPlaceholders (dropWhile isDigit cs) start
      else c # remapPlaceholders cs start)"
  by pat_completeness auto
termination remapPlaceholders
  by (relation "measure (\<lambda>(s, start). length s)")
     (auto simp: less_Suc_eq_le length_dropWhile_le)

text \<open>The numbers of the markers of a text, from left to right.\<close>

function markers :: "string \<Rightarrow> nat list" where
  "markers [] = []"
| "markers (c # cs) =
     (if c = CHR ''$'' \<and> takeWhile isDigit cs \<noteq> []
      then atoi (takeWhile isDigit cs) # markers (dropWhile isDigit cs)
      else markers cs)"
  by pat_completeness auto
termination markers
  by (relation "measure length") (auto simp: less_Suc_eq_le length_dropWhile_le)

text \<open>The state every writer threads: the buffer, the arguments collected so far and
  the placeholder cursor (\<open>placeholderStartPos\<close>, an \<open>int64\<close> that starts at 1).\<close>

type_synonym wstate = "string \<times> val list \<times> int"

text \<open>
  Modelled from the spec: \<open>Expression.WriteRelativeArgs\<close> is not among the sources.
  Section 4.1 (\<open>compile\<close>): the text is written with its markers remapped at the
  cursor, the arguments are appended, and the cursor advances; \<open>InsertBuilder.ToSQL\<close>
  performs the same three steps inline and advances by \<open>len(e.Args)\<close>.
\<close>

definition WriteRelativeArgs :: "Expression \<Rightarrow> wstate \<Rightarrow> wstate" where
  "WriteRelativeArgs e st =
     (case st of (buf, args, pos) \<Rightarrow>
        (buf @ remapPlaceholders (Sql e) pos, args @ Args e, pos + int (length (Args e))))"

fun joinWith :: "string \<Rightarrow> string list \<Rightarrow> string" where
  "joinWith sep [] = []"
| "joinWith sep [x] = x"
| "joinWith sep (x # y # ys) = x @ sep @ joinWith sep (y # ys)"

text \<open>
  Modelled from the spec: \<open>buildPlaceholders\<close> is not among the sources. Section 4.4
  and the insert tests: one parenthesized group of \<open>length\<close> placeholders numbered from
  \<open>start\<close>, separated by commas.
\<close>

definition buildPlaceholders :: "int \<Rightarrow> nat \<Rightarrow> string" where
  "buildPlaceholders start n =
     ''('' @ joinWith '','' (map (\<lambda>i. CHR ''$'' # FormatInt (start + int i)) [0..<n]) @ '')''"

section \<open>What the sources take from outside\<close>

text \<open>
  The identifier quoting and type naming of the \<open>Dialect\<close>, \<open>splitWhere\<close> and the
  size \<open>maxLookup\<close> of the placeholder table are declared outside the sources; the
  builders are verified for every choice of them.
\<close>

record env =
  writeIdentifier :: "string \<Rightarrow> string"
  writeQuotedIdentifier :: "string \<Rightarrow> string"
  dialectWriteIdentifier :: "string \<Rightarrow> string"
  dialectWriteReflectedType :: "string \<Rightarrow> string"
  splitWhere :: "string \<Rightarrow> string \<times> string"
  maxLookup :: int

text \<open>An environment to evaluate examples in: identifiers are written as they are,
  a scope text is never split, the placeholder table has 100 entries.\<close>

definition plainEnv :: env where
  "plainEnv = \<lparr>writeIdentifier = (\<lambda>s. s), writeQuotedIdentifier = (\<lambda>s. s),
     dialectWriteIdentifier = (\<lambda>s. s), dialectWriteReflectedType = (\<lambda>s. s),
     splitWhere = (\<lambda>s. (s, [])), maxLookup = 100\<rparr>"

text \<open>
  Modelled from the spec: the table \<open>equalsPlaceholderTab\<close> is not among the sources.
  Section 4.4: a value is bound as a fresh absolute placeholder; entry \<open>n\<close> of the table
  is the text that the branch beside it writes for \<open>n\<close>.
\<close>

definition equalsPlaceholderTab :: "int \<Rightarrow> string" where
  "equalsPlaceholderTab n = '' = $'' @ FormatInt n"

section \<open>The predicate compiler\<close>

text \<open>Section 3 of the spec: a fragment is a text with relative markers and its
  ordered arguments.\<close>

record Fragment =
  fragText :: string
  fragArgs :: "val list"

text \<open>
  Modelled from the spec: the type \<open>whereFragment\<close>, \<open>newWhereFragment\<close> and the
  three fragment writers are not among the sources. Section 4.2: a registered predicate
  is raw text with its arguments, a prebuilt expression, or a column-to-value map whose
  entries each become a condition of their own; a slice of length 0, a nil slice
  included, becomes the constant \<open>1=0\<close>. (For a nil slice the test
  \<open>TestSelectWhereMapSql\<close> of the sources expects \<open>IS NULL\<close>; the code that decides
  is not among the sources, and the definition follows section 4.2.)
\<close>

type_synonym whereFragment = "Fragment list"

fun whereEntry :: "env \<Rightarrow> string \<times> val \<Rightarrow> Fragment" where
  "whereEntry env (col, NilV) = \<lparr>fragText = writeIdentifier env col @ '' IS NULL'', fragArgs = []\<rparr>"
| "whereEntry env (col, NilSliceV) = \<lparr>fragText = ''1=0'', fragArgs = []\<rparr>"
| "whereEntry env (col, SliceV []) = \<lparr>fragText = ''1=0'', fragArgs = []\<rparr>"
| "whereEntry env (col, SliceV [x]) = \<lparr>fragText = writeIdentifier env col @ '' = $1'', fragArgs = [x]\<rparr>"
| "whereEntry env (col, SliceV (x # y # ys)) =
     \<lparr>fragText = writeIdentifier env col @ '' IN $1'', fragArgs = [SliceV (x # y # ys)]\<rparr>"
| "whereEntry env (col, v) = \<lparr>fragText = writeIdentifier env col @ '' = $1'', fragArgs = [v]\<rparr>"

fun newWhereFragment :: "env \<Rightarrow> val \<Rightarrow> val list \<Rightarrow> error + whereFragment" where
  "newWhereFragment env (StrV s) a = Inr [\<lparr>fragText = s, fragArgs = a\<rparr>]"
| "newWhereFragment env (ExprV s ea) a = Inr [\<lparr>fragText = s, fragArgs = ea\<rparr>]"
| "newWhereFragment env (MapV m) a = Inr (map (whereEntry env) m)"
| "newWhereFragment env v a = Inl (NewError ''Invalid argument passed to Where'')"

text \<open>One condition: its text remapped at the cursor, its arguments appended.\<close>

definition writeFragment :: "string \<Rightarrow> string \<Rightarrow> Fragment \<Rightarrow> wstate \<Rightarrow> wstate" where
  "writeFragment l r f st =
     (case st of (buf, args, pos) \<Rightarrow>
        (buf @ l @ remapPlaceholders (fragText f) pos @ r, args @ fragArgs f,
         pos + int (length (fragArgs f))))"

fun writeFragments :: "string \<Rightarrow> string \<Rightarrow> string \<Rightarrow> Fragment list \<Rightarrow> bool \<Rightarrow> wstate \<Rightarrow> wstate" where
  "writeFragments sep l r [] first st = st"
| "writeFragments sep l r (f # fs) first (buf, args, pos) =
     writeFragments sep l r fs False
       (writeFragment l r f (if first then buf else buf @ sep, args, pos))"

text \<open>Conditions joined by AND, each in parentheses (WHERE, HAVING).\<close>

definition writeAndFragmentsToSQL :: "whereFragment list \<Rightarrow> wstate \<Rightarrow> wstate" where
  "writeAndFragmentsToSQL fs st = writeFragments '' AND '' ''('' '')'' (concat fs) True st"

text \<open>Fragments joined by commas (FROM, ORDER BY).\<close>

definition writeCommaFragmentsToSQL :: "whereFragment list \<Rightarrow> wstate \<Rightarrow> wstate" where
  "writeCommaFragmentsToSQL fs st = writeFragments '', '' [] [] (concat fs) True st"

text \<open>Fragments concatenated (JOIN); the tests compare modulo white space, so
  whether blanks separate them does not show in the sources.\<close>

definition writeConcatFragmentsToSQL :: "whereFragment list \<Rightarrow> wstate \<Rightarrow> wstate" where
  "writeConcatFragmentsToSQL fs st = writeFragments [] [] [] (concat fs) True st"

section \<open>The field mapper\<close>

text \<open>
  Modelled from the spec: \<open>reflectColumns\<close>, \<open>reflectExcludeColumns\<close> and
  \<open>valuesFor\<close> are not among the sources. Section 4.3: a record is the ordered list of
  its tagged fields (column name and value, an outer field already shadowing an embedded
  one); the full list, the full list minus the named columns, and the values for a
  resolved column order, which fail when the record lacks a column.
\<close>

type_synonym record_value = "(string \<times> val) list"

definition reflectColumns :: "record_value \<Rightarrow> string list" where
  "reflectColumns r = map fst r"

definition reflectExcludeColumns :: "record_value \<Rightarrow> string list \<Rightarrow> string list" where
  "reflectExcludeColumns r excluded = filter (\<lambda>c. c \<notin> set excluded) (map fst r)"

fun valuesFor :: "record_value \<Rightarrow> string list \<Rightarrow> error + val list" where
  "valuesFor r [] = Inr []"
| "valuesFor r (c # cs) =
     (case map_of r c of
        None \<Rightarrow> Inl (NewError (''could not map db column '' @ c))
      | Some v \<Rightarrow> (case valuesFor r cs of Inl e \<Rightarrow> Inl e | Inr vs \<Rightarrow> Inr (v # vs)))"

section \<open>InsertBuilder\<close>

record onConflictTargetType =
  column :: string
  constraint :: string
  indexPredicate :: string

record setClause =
  scColumn :: string
  scValue :: val

record onConflictActionType =
  action :: string
  setClauses :: "setClause list"
  actionWhereFragments :: "whereFragment list"

text \<open>The fields \<open>Execer\<close> and \<open>isInterpolated\<close> are read by no function here.\<close>

record InsertBuilder =
  table :: string
  cols :: "string list"
  isBlacklist :: bool
  vals :: "val list list"
  records :: "record_value list"
  onConflictTarget :: onConflictTargetType
  onConflictAction :: onConflictActionType
  returnings :: "string list"
  ierr :: "error option"

definition NewInsertBuilder :: "string \<Rightarrow> InsertBuilder option" where
  "NewInsertBuilder t =
     (if t = [] then None
      else Some \<lparr>table = t, cols = [], isBlacklist = False, vals = [], records = [],
        onConflictTarget = \<lparr>column = [], constraint = [], indexPredicate = []\<rparr>,
        onConflictAction = \<lparr>action = [], setClauses = [], actionWhereFragments = []\<rparr>,
        returnings = [], ierr = None\<rparr>)"

definition InsertBuilder_Whitelist :: "InsertBuilder \<Rightarrow> string list \<Rightarrow> InsertBuilder" where
  "InsertBuilder_Whitelist b columns = b\<lparr>cols := columns\<rparr>"

definition InsertBuilder_Columns :: "InsertBuilder \<Rightarrow> string list \<Rightarrow> InsertBuilder" where
  "InsertBuilder_Columns b columns = InsertBuilder_Whitelist b columns"

definition InsertBuilder_Blacklist :: "InsertBuilder \<Rightarrow> string list \<Rightarrow> InsertBuilder" where
  "InsertBuilder_Blacklist b columns = b\<lparr>isBlacklist := True, cols := columns\<rparr>"

definition InsertBuilder_Values :: "InsertBuilder \<Rightarrow> val list \<Rightarrow> InsertBuilder" where
  "InsertBuilder_Values b vs = b\<lparr>vals := vals b @ [vs]\<rparr>"

definition InsertBuilder_Record :: "InsertBuilder \<Rightarrow> record_value \<Rightarrow> InsertBuilder" where
  "InsertBuilder_Record b r = b\<lparr>records := records b @ [r]\<rparr>"

text \<open>The receiver may be nil; the builder's own target never is.\<close>

definition hasOneConflictTarget :: "onConflictTargetType option \<Rightarrow> bool" where
  "hasOneConflictTarget t =
     (case t of
        None \<Rightarrow> False
      | Some t \<Rightarrow>
          (let hasColumn = (length (column t) \<noteq> 0);
               hasConstraint = (length (constraint t) \<noteq> 0)
           in (hasColumn \<and> \<not> hasConstraint) \<or> (\<not> hasColumn \<and> hasConstraint)))"

definition updateAction :: string where
  "updateAction = ''UPDATE''"

definition excludedColumn :: string where
  "excludedColumn = ''EXCLUDED''"

definition InsertBuilder_OnConflictColumn :: "InsertBuilder \<Rightarrow> string \<Rightarrow> InsertBuilder" where
  "InsertBuilder_OnConflictColumn b c = b\<lparr>onConflictTarget := (onConflictTarget b)\<lparr>column := c\<rparr>\<rparr>"

definition InsertBuilder_OnConflictConstraint :: "InsertBuilder \<Rightarrow> string \<Rightarrow> InsertBuilder" where
  "InsertBuilder_OnConflictConstraint b c = b\<lparr>onConflictTarget := (onConflictTarget b)\<lparr>constraint := c\<rparr>\<rparr>"

definition InsertBuilder_OnConflictWhere :: "InsertBuilder \<Rightarrow> string \<Rightarrow> string \<Rightarrow> InsertBuilder" where
  "InsertBuilder_OnConflictWhere b c p =
     b\<lparr>onConflictTarget := (onConflictTarget b)\<lparr>column := c, indexPredicate := p\<rparr>\<rparr>"

definition InsertBuilder_Set :: "InsertBuilder \<Rightarrow> string \<Rightarrow> val \<Rightarrow> InsertBuilder" where
  "InsertBuilder_Set b c v =
     (if \<not> hasOneConflictTarget (Some (onConflictTarget b))
      then (if ierr b = None
            then b\<lparr>ierr := Some (NewError ''A conflict_target must be provided for ON CONFLICT DO UPDATE'')\<rparr>
            else b)
      else b\<lparr>onConflictAction := (onConflictAction b)
               \<lparr>action := updateAction,
                setClauses := setClauses (onConflictAction b) @ [\<lparr>scColumn = c, scValue = v\<rparr>]\<rparr>\<rparr>)"

text \<open>\<open>SetMap\<close> ranges over the map in the order Go picks.\<close>

fun InsertBuilder_SetMap :: "InsertBuilder \<Rightarrow> (string \<times> val) list \<Rightarrow> InsertBuilder" where
  "InsertBuilder_SetMap b [] = b"
| "InsertBuilder_SetMap b ((c, v) # clauses) = InsertBuilder_SetMap (InsertBuilder_Set b c v) clauses"

definition InsertBuilder_Where :: "env \<Rightarrow> InsertBuilder \<Rightarrow> val \<Rightarrow> val list \<Rightarrow> InsertBuilder" where
  "InsertBuilder_Where env b whereSQLOrMap a =
     (if action (onConflictAction b) \<noteq> updateAction
      then (if ierr b = None
            then b\<lparr>ierr := Some (NewError ''conflict_action must be equal to UPDATE'')\<rparr>
            else b)
      else (case newWhereFragment env whereSQLOrMap a of
              Inl e \<Rightarrow> b\<lparr>ierr := Some e\<rparr>
            | Inr fragment \<Rightarrow>
                b\<lparr>onConflictAction := (onConflictAction b)
                    \<lparr>actionWhereFragments :=
                       actionWhereFragments (onConflictAction b) @ [fragment]\<rparr>\<rparr>))"

definition InsertBuilder_Returning :: "InsertBuilder \<Rightarrow> string list \<Rightarrow> InsertBuilder" where
  "InsertBuilder_Returning b columns = b\<lparr>returnings := columns\<rparr>"

definition InsertBuilder_Pair :: "InsertBuilder \<Rightarrow> string \<Rightarrow> val \<Rightarrow> InsertBuilder" where
  "InsertBuilder_Pair b c v =
     (let b1 = b\<lparr>cols := cols b @ [c]\<rparr>;
          lenVals = length (vals b1)
      in if lenVals = 0 then b1\<lparr>vals := [[v]]\<rparr>
         else if lenVals = 1 then b1\<lparr>vals := (vals b1)[0 := vals b1 ! 0 @ [v]]\<rparr>
         else b1\<lparr>ierr := Some (Error ''pair only allows you to specify 1 record to insert'')\<rparr>)"

text \<open>The literal rows: one group of placeholders per row, the row's values appended.
  \<open>first\<close> says that the row's index is 0.\<close>

fun writeVals :: "val list list \<Rightarrow> bool \<Rightarrow> wstate \<Rightarrow> wstate" where
  "writeVals [] first st = st"
| "writeVals (row # rows) first (sql, args, start) =
     writeVals rows False
       ((if first then sql else sql @ '','') @ buildPlaceholders start (length row),
        args @ row, start + int (length row))"

text \<open>The records: \<open>comma\<close> says that the index is positive or that literal rows
  came before.\<close>

fun writeRecords :: "string list \<Rightarrow> record_value list \<Rightarrow> bool \<Rightarrow> wstate \<Rightarrow> error + wstate" where
  "writeRecords cs [] comma st = Inr st"
| "writeRecords cs (r # rs) comma (sql, args, start) =
     (case valuesFor r cs of
        Inl e \<Rightarrow> Inl e
      | Inr vs \<Rightarrow>
          writeRecords cs rs True
            ((if comma then sql @ '','' else sql) @ buildPlaceholders start (length vs),
             args @ vs, start + int (length vs)))"

text \<open>The value of one \<open>Set\<close> pair, after its column has been written.\<close>

definition bindValue :: "env \<Rightarrow> val \<Rightarrow> wstate \<Rightarrow> wstate" where
  "bindValue env v st =
     (case st of (sql, args, pos) \<Rightarrow>
        (sql @ (if pos < maxLookup env then equalsPlaceholderTab pos
                else '' = $'' @ FormatInt pos),
         args @ [v], pos + 1))"

fun writeSetValue :: "env \<Rightarrow> string \<Rightarrow> val \<Rightarrow> wstate \<Rightarrow> wstate" where
  "writeSetValue env c (ExprV esql eargs) (sql, args, pos) =
     (sql @ '' = '' @ remapPlaceholders esql pos, args @ eargs, pos + int (length eargs))"
| "writeSetValue env c (StrV s) (sql, args, pos) =
     (if s = excludedColumn @ ''.'' @ c then (sql @ '' = '' @ s, args, pos)
      else bindValue env (StrV s) (sql, args, pos))"
| "writeSetValue env c v st = bindValue env v st"

fun writeSetClauses :: "env \<Rightarrow> setClause list \<Rightarrow> bool \<Rightarrow> wstate \<Rightarrow> wstate" where
  "writeSetClauses env [] first st = st"
| "writeSetClauses env (c # cs) first (sql, args, pos) =
     writeSetClauses env cs False
       (writeSetValue env (scColumn c) (scValue c)
          ((if first then sql else sql @ '', '') @ writeIdentifier env (scColumn c), args, pos))"

definition writeConflictTarget :: "onConflictTargetType \<Rightarrow> string" where
  "writeConflictTarget t =
     (if length (column t) > 0
      then ''('' @ column t @ '')''
           @ (if length (indexPredicate t) > 0 then '' WHERE '' @ indexPredicate t else [])
      else if length (constraint t) > 0 then ''ON CONSTRAINT '' @ constraint t
      else [])"

definition writeConflictAction :: "env \<Rightarrow> onConflictActionType \<Rightarrow> wstate \<Rightarrow> wstate" where
  "writeConflictAction env a st =
     (case st of (sql, args, start) \<Rightarrow>
        if action a \<noteq> updateAction then (sql @ '' DO NOTHING'', args, start)
        else (case writeSetClauses env (setClauses a) True (sql @ '' DO UPDATE SET '', args, start) of
                (sql1, args1, pos1) \<Rightarrow>
                  if length (actionWhereFragments a) > 0
                  then writeAndFragmentsToSQL (actionWhereFragments a) (sql1 @ '' WHERE '', args1, pos1)
                  else (sql1, args1, pos1)))"

definition writeOnConflict :: "env \<Rightarrow> InsertBuilder \<Rightarrow> wstate \<Rightarrow> wstate" where
  "writeOnConflict env b st =
     (case st of (sql, args, start) \<Rightarrow>
        if hasOneConflictTarget (Some (onConflictTarget b))
        then writeConflictAction env (onConflictAction b)
               (sql @ '' ON CONFLICT '' @ writeConflictTarget (onConflictTarget b), args, start)
        else (sql, args, start))"

definition writeReturning :: "env \<Rightarrow> string list \<Rightarrow> string" where
  "writeReturning env rs =
     (if rs = [] then [] else '' RETURNING '' @ joinWith '','' (map (writeIdentifier env) rs))"

text \<open>The columns of the statement: the blacklist and \<open>*\<close> resolve against the first
  record; \<open>cols[0]\<close> of an empty list is an index out of range.\<close>

definition resolveColumns :: "InsertBuilder \<Rightarrow> error + string list" where
  "resolveColumns b =
     (let lenRecords = length (records b);
          cols1 = (if lenRecords > 0 \<and> isBlacklist b
                   then reflectExcludeColumns (hd (records b)) (cols b) else cols b)
      in if lenRecords > 0 \<and> cols1 = [] then Inl (Panic ''index out of range'')
         else if lenRecords > 0 \<and> hd cols1 = ''*'' then Inr (reflectColumns (hd (records b)))
         else Inr cols1)"

definition InsertBuilder_ToSQL :: "env \<Rightarrow> InsertBuilder \<Rightarrow> sqlResult" where
  "InsertBuilder_ToSQL env b =
     (case ierr b of
        Some e \<Rightarrow> Inl e
      | None \<Rightarrow>
          if length (table b) = 0 then Inl (NewError ''no table specified'')
          else if length (cols b) = 0 then Inl (NewError ''no columns specified'')
          else if length (vals b) = 0 \<and> length (records b) = 0
          then Inl (NewError ''no values or records specified'')
          else if length (records b) = 0 \<and> hd (cols b) = ''*''
          then Inl (NewError (CHR 0x22 # ''*'' @ CHR 0x22 # '' can only be used in conjunction with Record''))
          else if length (records b) = 0 \<and> isBlacklist b
          then Inl (NewError ''Blacklist can only be used in conjunction with Record'')
          else (case resolveColumns b of
                  Inl e \<Rightarrow> Inl e
                | Inr cs \<Rightarrow>
                    (case writeRecords cs (records b) (length (vals b) > 0)
                            (writeVals (vals b) True
                               (''INSERT INTO '' @ table b @ '' (''
                                  @ joinWith '','' (map (writeIdentifier env) cs) @ '') VALUES '',
                                [], 1)) of
                       Inl e \<Rightarrow> Inl e
                     | Inr st \<Rightarrow>
                         (case writeOnConflict env b st of
                            (sql, args, pos) \<Rightarrow>
                              Inr (sql @ writeReturning env (returnings b), args)))))"

text \<open>
  A client drives a builder by a sequence of chaining calls; each call returns the
  receiver, so a chain is the calls applied from left to right.
\<close>

datatype insertCall =
    CallColumns "string list"
  | CallBlacklist "string list"
  | CallWhitelist "string list"
  | CallValues "val list"
  | CallRecord record_value
  | CallOnConflictColumn string
  | CallOnConflictConstraint string
  | CallOnConflictWhere string string
  | CallSet string val
  | CallSetMap "(string \<times> val) list"
  | CallWhere val "val list"
  | CallReturning "string list"
  | CallPair string val

fun applyInsertCall :: "env \<Rightarrow> InsertBuilder \<Rightarrow> insertCall \<Rightarrow> InsertBuilder" where
  "applyInsertCall env b (CallColumns cs) = InsertBuilder_Columns b cs"
| "applyInsertCall env b (CallBlacklist cs) = InsertBuilder_Blacklist b cs"
| "applyInsertCall env b (CallWhitelist cs) = InsertBuilder_Whitelist b cs"
| "applyInsertCall env b (CallValues vs) = InsertBuilder_Values b vs"
| "applyInsertCall env b (CallRecord r) = InsertBuilder_Record b r"
| "applyInsertCall env b (CallOnConflictColumn c) = InsertBuilder_OnConflictColumn b c"
| "applyInsertCall env b (CallOnConflictConstraint c) = InsertBuilder_OnConflictConstraint b c"
| "applyInsertCall env b (CallOnConflictWhere c p) = InsertBuilder_OnConflictWhere b c p"
| "applyInsertCall env b (CallSet c v) = InsertBuilder_Set b c v"
| "applyInsertCall env b (CallSetMap m) = InsertBuilder_SetMap b m"
| "applyInsertCall env b (CallWhere w a) = InsertBuilder_Where env b w a"
| "applyInsertCall env b (CallReturning cs) = InsertBuilder_Returning b cs"
| "applyInsertCall env b (CallPair c v) = InsertBuilder_Pair b c v"

definition insertChain :: "env \<Rightarrow> InsertBuilder \<Rightarrow> insertCall list \<Rightarrow> InsertBuilder" where
  "insertChain env b calls = foldl (applyInsertCall env) b calls"

fun isSetCall :: "insertCall \<Rightarrow> bool" where
  "isSetCall (CallSet c v) = True"
| "isSetCall (CallSetMap m) = True"
| "isSetCall call = False"

text \<open>The builder with no conflict target and no RETURNING columns: what it renders is
  the statement up to the end of its VALUES rows.\<close>

definition withoutConflict :: "InsertBuilder \<Rightarrow> InsertBuilder" where
  "withoutConflict b =
     b\<lparr>onConflictTarget := (onConflictTarget b)\<lparr>column := [], constraint := []\<rparr>,
       returnings := []\<rparr>"

text \<open>The first insert test with a conflict column, as a chain of calls.\<close>

definition exampleInsert :: InsertBuilder where
  "exampleInsert = insertChain plainEnv (the (NewInsertBuilder ''a''))
     [CallColumns [''b'', ''c''], CallValues [IntV 1, IntV 2], CallOnConflictColumn ''b'']"

section \<open>SelectBuilder\<close>

text \<open>
  A scope answers \<open>ToSQL(table)\<close> with a text and its arguments. \<open>limitCount\<close> and
  \<open>offsetCount\<close> are \<open>uint64\<close>. The fields \<open>Execer\<close> and \<open>isInterpolated\<close> are
  read by no function here.
\<close>

record SelectBuilder =
  isDistinct :: bool
  distinctColumns :: "string list"
  columns :: "string list"
  fors :: "string list"
  tableFragments :: "whereFragment list"
  joinFragments :: "whereFragment list"
  whereFragments :: "whereFragment list"
  groupBys :: "string list"
  havingFragments :: "whereFragment list"
  orderBys :: "whereFragment list"
  limitCount :: "64 word"
  limitValid :: bool
  offsetCount :: "64 word"
  offsetValid :: bool
  scope :: "(string \<Rightarrow> string \<times> val list) option"
  serr :: "error option"

definition emptySelectBuilder :: SelectBuilder where
  "emptySelectBuilder =
     \<lparr>isDistinct = False, distinctColumns = [], columns = [], fors = [], tableFragments = [],
      joinFragments = [], whereFragments = [], groupBys = [], havingFragments = [],
      orderBys = [], limitCount = 0, limitValid = False, offsetCount = 0, offsetValid = False,
      scope = None, serr = None\<rparr>"

text \<open>\<open>Columns\<close> returns nil when it records its error: the result is the receiver after
  the call and the pointer returned, \<open>None\<close> for nil.\<close>

definition SelectBuilder_Columns :: "SelectBuilder \<Rightarrow> string list \<Rightarrow> SelectBuilder \<times> SelectBuilder option" where
  "SelectBuilder_Columns b cs =
     (if length cs = 0 \<or> hd cs = []
      then (b\<lparr>serr := Some (Error ''Select requires 1 or more columns'')\<rparr>, None)
      else (b\<lparr>columns := columns b @ cs\<rparr>, Some (b\<lparr>columns := columns b @ cs\<rparr>)))"

definition NewSelectBuilder :: "string list \<Rightarrow> SelectBuilder" where
  "NewSelectBuilder cs = fst (SelectBuilder_Columns emptySelectBuilder cs)"

definition SelectBuilder_Distinct :: "SelectBuilder \<Rightarrow> SelectBuilder" where
  "SelectBuilder_Distinct b = b\<lparr>isDistinct := True\<rparr>"

definition SelectBuilder_DistinctOn :: "SelectBuilder \<Rightarrow> string list \<Rightarrow> SelectBuilder" where
  "SelectBuilder_DistinctOn b cs = b\<lparr>isDistinct := True, distinctColumns := cs\<rparr>"

definition SelectBuilder_From :: "env \<Rightarrow> SelectBuilder \<Rightarrow> string \<Rightarrow> val list \<Rightarrow> SelectBuilder" where
  "SelectBuilder_From env b fromStr a =
     (case newWhereFragment env (StrV fromStr) a of
        Inl e \<Rightarrow> b\<lparr>serr := Some e\<rparr>
      | Inr fragment \<Rightarrow> b\<lparr>tableFragments := tableFragments b @ [fragment]\<rparr>)"

definition implJoin :: "env \<Rightarrow> SelectBuilder \<Rightarrow> string \<Rightarrow> val list \<Rightarrow> SelectBuilder" where
  "implJoin env b joinStr a =
     (case newWhereFragment env (StrV joinStr) a of
        Inl e \<Rightarrow> b\<lparr>serr := Some e\<rparr>
      | Inr fragment \<Rightarrow> b\<lparr>joinFragments := joinFragments b @ [fragment]\<rparr>)"

definition SelectBuilder_Join :: "env \<Rightarrow> SelectBuilder \<Rightarrow> string \<Rightarrow> val list \<Rightarrow> SelectBuilder" where
  "SelectBuilder_Join env b joinStr a = implJoin env b (''INNER JOIN '' @ joinStr) a"

definition SelectBuilder_LeftJoin :: "env \<Rightarrow> SelectBuilder \<Rightarrow> string \<Rightarrow> val list \<Rightarrow> SelectBuilder" where
  "SelectBuilder_LeftJoin env b joinStr a = implJoin env b (''LEFT JOIN '' @ joinStr) a"

definition SelectBuilder_RightJoin :: "env \<Rightarrow> SelectBuilder \<Rightarrow> string \<Rightarrow> val list \<Rightarrow> SelectBuilder" where
  "SelectBuilder_RightJoin env b joinStr a = implJoin env b (''RIGHT JOIN '' @ joinStr) a"

definition SelectBuilder_FullOuterJoin :: "env \<Rightarrow> SelectBuilder \<Rightarrow> string \<Rightarrow> val list \<Rightarrow> SelectBuilder" where
  "SelectBuilder_FullOuterJoin env b joinStr a = implJoin env b (''FULL OUTER JOIN '' @ joinStr) a"

definition SelectBuilder_For :: "SelectBuilder \<Rightarrow> string list \<Rightarrow> SelectBuilder" where
  "SelectBuilder_For b options = b\<lparr>fors := options\<rparr>"

text \<open>\<open>ScopeMap\<close> stores \<open>mapScope.mergeClone(m)\<close>; the type \<open>MapScope\<close> is declared
  outside the sources, so the merged scope is the argument here.\<close>

definition SelectBuilder_ScopeMap :: "SelectBuilder \<Rightarrow> (string \<Rightarrow> string \<times> val list) \<Rightarrow> SelectBuilder" where
  "SelectBuilder_ScopeMap b merged = b\<lparr>scope := Some merged\<rparr>"

definition SelectBuilder_Scope :: "SelectBuilder \<Rightarrow> string \<Rightarrow> val list \<Rightarrow> SelectBuilder" where
  "SelectBuilder_Scope b sql a = b\<lparr>scope := Some (\<lambda>table. (sql, a))\<rparr>"

definition SelectBuilder_Where :: "env \<Rightarrow> SelectBuilder \<Rightarrow> val \<Rightarrow> val list \<Rightarrow> SelectBuilder" where
  "SelectBuilder_Where env b whereSQLOrMap a =
     (case newWhereFragment env whereSQLOrMap a of
        Inl e \<Rightarrow> b\<lparr>serr := Some e\<rparr>
      | Inr fragment \<Rightarrow> b\<lparr>whereFragments := whereFragments b @ [fragment]\<rparr>)"

definition SelectBuilder_GroupBy :: "SelectBuilder \<Rightarrow> string \<Rightarrow> SelectBuilder" where
  "SelectBuilder_GroupBy b g = b\<lparr>groupBys := groupBys b @ [g]\<rparr>"

definition SelectBuilder_Having :: "env \<Rightarrow> SelectBuilder \<Rightarrow> val \<Rightarrow> val list \<Rightarrow> SelectBuilder" where
  "SelectBuilder_Having env b whereSQLOrMap a =
     (case newWhereFragment env whereSQLOrMap a of
        Inl e \<Rightarrow> b\<lparr>serr := Some e\<rparr>
      | Inr fragment \<Rightarrow> b\<lparr>havingFragments := havingFragments b @ [fragment]\<rparr>)"

definition SelectBuilder_OrderBy :: "env \<Rightarrow> SelectBuilder \<Rightarrow> val \<Rightarrow> val list \<Rightarrow> SelectBuilder" where
  "SelectBuilder_OrderBy env b whereSQLOrMap a =
     (case newWhereFragment env whereSQLOrMap a of
        Inl e \<Rightarrow> b\<lparr>serr := Some e\<rparr>
      | Inr fragment \<Rightarrow> b\<lparr>orderBys := orderBys b @ [fragment]\<rparr>)"

definition SelectBuilder_Limit :: "SelectBuilder \<Rightarrow> 64 word \<Rightarrow> SelectBuilder" where
  "SelectBuilder_Limit b n = b\<lparr>limitCount := n, limitValid := True\<rparr>"

definition SelectBuilder_Offset :: "SelectBuilder \<Rightarrow> 64 word \<Rightarrow> SelectBuilder" where
  "SelectBuilder_Offset b n = b\<lparr>offsetCount := n, offsetValid := True\<rparr>"

definition SelectBuilder_Paginate :: "SelectBuilder \<Rightarrow> 64 word \<Rightarrow> 64 word \<Rightarrow> SelectBuilder" where
  "SelectBuilder_Paginate b page perPage =
     SelectBuilder_Offset (SelectBuilder_Limit b perPage) ((page - 1) * perPage)"

definition writeString :: "string \<Rightarrow> wstate \<Rightarrow> wstate" where
  "writeString s st = (case st of (buf, args, pos) \<Rightarrow> (buf @ s, args, pos))"

text \<open>\<open>writeUint64\<close> writes the decimal digits of the number.\<close>

definition writeUint64 :: "64 word \<Rightarrow> string" where
  "writeUint64 n = itoa (unat n)"

text \<open>After \<open>SELECT\<close>: the DISTINCT part and the projected columns.\<close>

definition writeDistinctColumns :: "SelectBuilder \<Rightarrow> string" where
  "writeDistinctColumns b =
     (if isDistinct b
      then (if length (distinctColumns b) = 0 then ''DISTINCT ''
            else ''DISTINCT ON ('' @ joinWith '', '' (distinctColumns b) @ '') '')
      else [])
     @ joinWith '', '' (columns b)"

text \<open>The FROM clause is composed in a buffer of its own, which the scope reads;
  \<open>SelectDocBuilder.ToSQL\<close> writes a space between the tables and the joins.\<close>

definition writeFromClause :: "bool \<Rightarrow> SelectBuilder \<Rightarrow> wstate \<Rightarrow> string \<times> wstate" where
  "writeFromClause space b st =
     (case st of (buf, args, pos) \<Rightarrow>
        if length (tableFragments b) > 0
        then (case writeCommaFragmentsToSQL (tableFragments b) ([], args, pos) of
                (fromBuf, args1, pos1) \<Rightarrow>
                  (case writeConcatFragmentsToSQL (joinFragments b)
                          (if space then fromBuf @ '' '' else fromBuf, args1, pos1) of
                     (from, args2, pos2) \<Rightarrow> (from, (buf @ '' FROM '' @ from, args2, pos2))))
        else ([], (buf, args, pos)))"

text \<open>The scope: its text up to WHERE is written, the rest becomes one more WHERE
  fragment.\<close>

definition writeScope :: "env \<Rightarrow> SelectBuilder \<Rightarrow> string \<Rightarrow> wstate \<Rightarrow> error + wstate \<times> whereFragment list" where
  "writeScope env b from st =
     (case scope b of
        None \<Rightarrow> Inr (st, whereFragments b)
      | Some sc \<Rightarrow>
          (case sc from of
             (sql, args2) \<Rightarrow>
               (case splitWhere env sql of
                  (sql1, wh) \<Rightarrow>
                    if wh \<noteq> []
                    then (case newWhereFragment env (StrV wh) args2 of
                            Inl e \<Rightarrow> Inl e
                          | Inr fragment \<Rightarrow>
                              Inr (writeString sql1 st, whereFragments b @ [fragment]))
                    else Inr (writeString sql1 st, whereFragments b))))"

definition writeWhere :: "whereFragment list \<Rightarrow> wstate \<Rightarrow> wstate" where
  "writeWhere fs st =
     (if length fs > 0 then writeAndFragmentsToSQL fs (writeString '' WHERE '' st) else st)"

definition writeGroupBy :: "SelectBuilder \<Rightarrow> wstate \<Rightarrow> wstate" where
  "writeGroupBy b st =
     (if length (groupBys b) > 0
      then writeString ('' GROUP BY '' @ joinWith '', '' (groupBys b)) st else st)"

definition writeHaving :: "SelectBuilder \<Rightarrow> wstate \<Rightarrow> wstate" where
  "writeHaving b st =
     (if length (havingFragments b) > 0
      then writeAndFragmentsToSQL (havingFragments b) (writeString '' HAVING '' st) else st)"

definition writeOrderBy :: "SelectBuilder \<Rightarrow> wstate \<Rightarrow> wstate" where
  "writeOrderBy b st =
     (if length (orderBys b) > 0
      then writeCommaFragmentsToSQL (orderBys b) (writeString '' ORDER BY '' st) else st)"

definition writeLimitOffsetFor :: "SelectBuilder \<Rightarrow> wstate \<Rightarrow> wstate" where
  "writeLimitOffsetFor b st =
     writeString
       ((if limitValid b then '' LIMIT '' @ writeUint64 (limitCount b) else [])
        @ (if offsetValid b then '' OFFSET '' @ writeUint64 (offsetCount b) else [])
        @ (if length (fors b) > 0 then '' FOR'' @ concat (map (\<lambda>s. '' '' @ s) (fors b)) else []))
       st"

definition SelectBuilder_ToSQL :: "env \<Rightarrow> SelectBuilder \<Rightarrow> sqlResult" where
  "SelectBuilder_ToSQL env b =
     (case serr b of
        Some e \<Rightarrow> Inl e
      | None \<Rightarrow>
          if length (columns b) = 0 then Inl (NewError ''no columns specified'')
          else if length (tableFragments b) = 0 \<and> length (joinFragments b) > 0
          then Inl (NewError ''joins may only be attached if a from target is specified'')
          else (case writeFromClause False b (''SELECT '' @ writeDistinctColumns b, [], 1) of
                  (from, st1) \<Rightarrow>
                    (case writeScope env b from st1 of
                       Inl e \<Rightarrow> Inl e
                     | Inr (st2, fs) \<Rightarrow>
                         (case writeLimitOffsetFor b
                                 (writeOrderBy b (writeHaving b (writeGroupBy b
                                    (writeWhere fs st2)))) of
                            (buf, args, pos) \<Rightarrow> Inr (buf, args)))))"

section \<open>SelectDocBuilder\<close>

record subInfo =
  subExpr :: Expression
  subAlias :: string

text \<open>
  The builder embeds a \<open>SelectBuilder\<close> and has an \<open>err\<close> field of its own beside the
  embedded one. A slot of a sub-query list that \<open>Whitelist\<close> has set to nil is
  \<open>None\<close>; nothing stores a nil in \<open>subQueriesWith\<close>.
\<close>

record SelectDocBuilder =
  selectBuilder :: SelectBuilder
  subQueriesWith :: "subInfo list"
  subQueriesMany :: "subInfo option list"
  subQueriesOne :: "subInfo option list"
  subQueriesVector :: "subInfo option list"
  subQueriesScalar :: "subInfo option list"
  innerSQL :: "Expression option"
  unions :: "subInfo option list"
  isParent :: bool
  derr :: "error option"

definition NewSelectDocBuilder :: "string list \<Rightarrow> SelectDocBuilder" where
  "NewSelectDocBuilder cs =
     \<lparr>selectBuilder = NewSelectBuilder cs, subQueriesWith = [], subQueriesMany = [],
      subQueriesOne = [], subQueriesVector = [], subQueriesScalar = [], innerSQL = None,
      unions = [], isParent = True, derr = None\<rparr>"

definition InnerSQL :: "SelectDocBuilder \<Rightarrow> string \<Rightarrow> val list \<Rightarrow> SelectDocBuilder" where
  "InnerSQL b sql a = b\<lparr>innerSQL := Some (Expr sql a)\<rparr>"

text \<open>The sub-queries of the JSON document, each skipped when its slot is nil.\<close>

fun writeWith :: "subInfo list \<Rightarrow> bool \<Rightarrow> wstate \<Rightarrow> wstate" where
  "writeWith [] first st = st"
| "writeWith (sub # subs) first st =
     writeWith subs False
       (writeString '') ''
          (WriteRelativeArgs (subExpr sub)
             (writeString ((if first then ''WITH '' else '', '') @ subAlias sub @ '' AS ('') st)))"

definition writeSub :: "string \<Rightarrow> string \<Rightarrow> string \<Rightarrow> string \<Rightarrow> subInfo \<Rightarrow> wstate \<Rightarrow> wstate" where
  "writeSub pre mid post quoted sub st =
     writeString (post @ quoted)
       (writeString ('') AS dat__'' @ subAlias sub)
          (WriteRelativeArgs (subExpr sub)
             (writeString (pre @ subAlias sub @ mid) st)))"

fun writeMany :: "env \<Rightarrow> subInfo option list \<Rightarrow> wstate \<Rightarrow> wstate" where
  "writeMany env [] st = st"
| "writeMany env (None # subs) st = writeMany env subs st"
| "writeMany env (Some sub # subs) st =
     writeMany env subs
       (writeSub '', (SELECT array_agg(dat__'' ''.*) FROM ('' '') AS ''
          (writeQuotedIdentifier env (subAlias sub)) sub st)"

fun writeVector :: "env \<Rightarrow> subInfo option list \<Rightarrow> wstate \<Rightarrow> wstate" where
  "writeVector env [] st = st"
| "writeVector env (None # subs) st = writeVector env subs st"
| "writeVector env (Some sub # subs) st =
     writeVector env subs
       (writeSub '', (SELECT array_agg(dat__'' ''.dat__scalar) FROM ('' ''(dat__scalar)) AS ''
          (dialectWriteIdentifier env (subAlias sub)) sub st)"

fun writeOne :: "env \<Rightarrow> subInfo option list \<Rightarrow> wstate \<Rightarrow> wstate" where
  "writeOne env [] st = st"
| "writeOne env (None # subs) st = writeOne env subs st"
| "writeOne env (Some sub # subs) st =
     writeOne env subs
       (writeSub '', (SELECT row_to_json(dat__'' ''.*) FROM ('' '') AS ''
          (writeQuotedIdentifier env (subAlias sub)) sub st)"

fun writeScalar :: "env \<Rightarrow> subInfo option list \<Rightarrow> wstate \<Rightarrow> wstate" where
  "writeScalar env [] st = st"
| "writeScalar env (None # subs) st = writeScalar env subs st"
| "writeScalar env (Some sub # subs) st =
     writeScalar env subs
       (writeSub '', (SELECT dat__'' ''.dat__scalar FROM ('' ''(dat__scalar) limit 1) AS ''
          (writeQuotedIdentifier env (subAlias sub)) sub st)"

fun writeUnions :: "subInfo option list \<Rightarrow> wstate \<Rightarrow> wstate" where
  "writeUnions [] st = st"
| "writeUnions (None # subs) st = writeUnions subs st"
| "writeUnions (Some sub # subs) st =
     writeUnions subs
       (writeString '' ''
          (WriteRelativeArgs (subExpr sub)
             (writeString ('' UNION '' @ subAlias sub @ '' '') st)))"

text \<open>What follows the sub-queries when no inner SQL is set.\<close>

definition writeDocBody :: "env \<Rightarrow> SelectDocBuilder \<Rightarrow> wstate \<Rightarrow> error + wstate" where
  "writeDocBody env b st =
     (case writeFromClause True (selectBuilder b) st of
        (from, st1) \<Rightarrow>
          (case writeScope env (selectBuilder b) from st1 of
             Inl e \<Rightarrow> Inl e
           | Inr (st2, fs) \<Rightarrow>
               Inr (writeLimitOffsetFor (selectBuilder b)
                      (writeOrderBy (selectBuilder b)
                         (writeHaving (selectBuilder b)
                            (writeGroupBy (selectBuilder b)
                               (writeUnions (unions b) (writeWhere fs st2))))))))"

text \<open>The projected columns and the sub-queries of the document.\<close>

definition writeDocSubs :: "env \<Rightarrow> SelectDocBuilder \<Rightarrow> wstate \<Rightarrow> wstate" where
  "writeDocSubs env b st =
     writeScalar env (subQueriesScalar b)
       (writeOne env (subQueriesOne b)
          (writeVector env (subQueriesVector b)
             (writeMany env (subQueriesMany b)
                (writeString (writeDistinctColumns (selectBuilder b)) st))))"

text \<open>The statement up to the end of the scalar sub-queries: the WITH list, the
  opening of the statement, wrapped for a parent, and the columns and sub-queries.\<close>

definition writeDocHead :: "env \<Rightarrow> SelectDocBuilder \<Rightarrow> wstate" where
  "writeDocHead env b =
     writeDocSubs env b
       (writeString
          (if isParent b then ''SELECT row_to_json(dat__item.*) FROM ( SELECT ''
           else ''SELECT '')
          (writeWith (subQueriesWith b) True ([], [], 1)))"

definition SelectDocBuilder_ToSQL :: "env \<Rightarrow> SelectDocBuilder \<Rightarrow> sqlResult" where
  "SelectDocBuilder_ToSQL env b =
     (case derr b of
        Some e \<Rightarrow> Inl e
      | None \<Rightarrow>
          if length (columns (selectBuilder b)) + length (subQueriesMany b)
               + length (subQueriesOne b) + length (subQueriesScalar b)
               + length (subQueriesVector b) = 0
          then Inl (NewError ''no columns specified'')
          else if length (tableFragments (selectBuilder b)) = 0
                  \<and> length (joinFragments (selectBuilder b)) > 0
          then Inl (NewError ''joins may only be attached if a from target is specified'')
          else (case (case innerSQL b of
                        Some e \<Rightarrow> Inr (WriteRelativeArgs e (writeDocHead env b))
                      | None \<Rightarrow> writeDocBody env b (writeDocHead env b)) of
                  Inl e \<Rightarrow> Inl e
                | Inr (buf, args, pos) \<Rightarrow>
                    Inr (if isParent b then buf @ '') as dat__item'' else buf, args)))"


subsection \<open>Embedding sub-queries\<close>

text \<open>
  A slice handed to \<open>With\<close>: its element type, one pointer level removed, is a struct or
  not. A struct type is its fields in order (the \<open>db\<close> tag, whether the field is itself a
  struct, its type); an element is a nil pointer or the values of the fields in order.
  The types are named as the dialect's \<open>WriteReflectedType\<close> receives them.
\<close>

record structField =
  fieldTag :: string
  fieldIsStruct :: bool
  fieldType :: string

datatype sliceArg =
    ScalarSlice string "val list"
  | StructSlice "structField list" "val list option list"

text \<open>
  The dynamic type of a \<open>sqlOrBuilder\<close> argument. The type \<open>JSQLBuilder\<close> is declared
  outside the sources: such an argument is what its \<open>ToSQL\<close> returns once \<open>isParent\<close> is
  cleared. Any other \<open>Builder\<close> is what its \<open>ToSQL\<close> returns.
\<close>

datatype subArg =
    ArgString string
  | ArgDocBuilder SelectDocBuilder
  | ArgJSQLBuilder sqlResult
  | ArgBuilder sqlResult
  | ArgSlice sliceArg
  | ArgNil
  | ArgOther

fun unnestElems :: "nat \<Rightarrow> val list option list \<Rightarrow> bool \<Rightarrow> wstate \<Rightarrow> wstate" where
  "unnestElems i [] first st = st"
| "unnestElems i (None # es) first (buf, args, pos) =
     unnestElems i es False ((if first then buf else buf @ '','') @ ''NULL'', args, pos)"
| "unnestElems i (Some vs # es) first (buf, args, pos) =
     unnestElems i es False
       ((if first then buf else buf @ '','') @ ''$'' @ FormatInt pos, args @ [vs ! i], pos + 1)"

fun unnestFields :: "env \<Rightarrow> structField list \<Rightarrow> nat \<Rightarrow> nat \<Rightarrow> val list option list \<Rightarrow> wstate \<Rightarrow> error + wstate" where
  "unnestFields env [] i writtenArrays es st = Inr st"
| "unnestFields env (f # fs) i writtenArrays es st =
     (if fieldTag f \<noteq> []
      then (if fieldIsStruct f
            then Inl (NewError ''Temporary tables cannot be built from nested structs'')
            else unnestFields env fs (i + 1) (writtenArrays + 1) es
                   (writeString ('']::'' @ dialectWriteReflectedType env (fieldType f) @ '') AS ''
                                 @ writeQuotedIdentifier env (fieldTag f))
                      (unnestElems i es True
                         (writeString ((if writtenArrays \<noteq> 0 then '','' else [])
                                       @ '' UNNEST(ARRAY['') st))))
      else unnestFields env fs (i + 1) writtenArrays es st)"

fun arrayToTable :: "env \<Rightarrow> subArg \<Rightarrow> error + string \<times> val list" where
  "arrayToTable env (ArgSlice (ScalarSlice ty es)) =
     Inr (''SELECT UNNEST(ARRAY[''
            @ joinWith '','' (map (\<lambda>i. ''$'' @ FormatInt (1 + int i)) [0..<length es])
            @ '']::'' @ dialectWriteReflectedType env ty @ '') AS data '', es)"
| "arrayToTable env (ArgSlice (StructSlice fs es)) =
     (case unnestFields env fs 0 0 es (''SELECT '', [], 1) of
        Inl e \<Rightarrow> Inl e
      | Inr (buf, args, pos) \<Rightarrow> Inr (buf, args))"
| "arrayToTable env contents = Inl (NewError ''arrayToTable can only take slices'')"

text \<open>
  \<open>storeExpr\<close> appends to the list it is given a pointer to; \<open>wrap\<close> is how the list
  holds a sub-query. It returns the error, the list and the argument after the call: a
  \<open>SelectDocBuilder\<close> argument has had its \<open>isParent\<close> cleared, whatever its \<open>ToSQL\<close>
  returned then. An argument that is the receiver itself is not covered.
\<close>

fun storeExpr :: "env \<Rightarrow> (subInfo \<Rightarrow> 'a) \<Rightarrow> 'a list \<Rightarrow> string \<Rightarrow> string \<Rightarrow> subArg \<Rightarrow> val list
    \<Rightarrow> error option \<times> 'a list \<times> subArg" where
  "storeExpr env wrap dest name col (ArgJSQLBuilder r) a =
     (case r of
        Inl e \<Rightarrow> (Some e, dest, ArgJSQLBuilder r)
      | Inr (sql, args) \<Rightarrow>
          (None, dest @ [wrap \<lparr>subExpr = Expr sql args, subAlias = col\<rparr>], ArgJSQLBuilder r))"
| "storeExpr env wrap dest name col (ArgDocBuilder t) a =
     (case SelectDocBuilder_ToSQL env (t\<lparr>isParent := False\<rparr>) of
        Inl e \<Rightarrow> (Some e, dest, ArgDocBuilder (t\<lparr>isParent := False\<rparr>))
      | Inr (sql, args) \<Rightarrow>
          (None, dest @ [wrap \<lparr>subExpr = Expr sql args, subAlias = col\<rparr>],
           ArgDocBuilder (t\<lparr>isParent := False\<rparr>)))"
| "storeExpr env wrap dest name col (ArgBuilder r) a =
     (case r of
        Inl e \<Rightarrow> (Some e, dest, ArgBuilder r)
      | Inr (sql, args) \<Rightarrow>
          (None, dest @ [wrap \<lparr>subExpr = Expr sql args, subAlias = col\<rparr>], ArgBuilder r))"
| "storeExpr env wrap dest name col (ArgString t) a =
     (None, dest @ [wrap \<lparr>subExpr = Expr t a, subAlias = col\<rparr>], ArgString t)"
| "storeExpr env wrap dest name col arg a =
     (Some (NewError (name @ '': sqlOrbuilder accepts only {string, Builder, *SelectDocBuilder} type'')),
      dest, arg)"

text \<open>\<open>With\<close> asks for the kind of the argument's type first, which panics for nil.\<close>

definition SelectDocBuilder_With :: "env \<Rightarrow> SelectDocBuilder \<Rightarrow> string \<Rightarrow> subArg \<Rightarrow> val list
    \<Rightarrow> error + SelectDocBuilder \<times> subArg" where
  "SelectDocBuilder_With env b col arg a =
     (case arg of
        ArgNil \<Rightarrow> Inl (Panic ''nil pointer dereference'')
      | ArgSlice sl \<Rightarrow>
          (case arrayToTable env arg of
             Inl e \<Rightarrow> Inr (b\<lparr>derr := Some e\<rparr>, arg)
           | Inr (sql, args) \<Rightarrow>
               (case storeExpr env (\<lambda>x. x) (subQueriesWith b) ''SelectDocBuilder.With'' col
                       (ArgString sql) args of
                  (e, dest, arg') \<Rightarrow> Inr (b\<lparr>subQueriesWith := dest, derr := e\<rparr>, arg)))
      | _ \<Rightarrow>
          if derr b = None
          then (case storeExpr env (\<lambda>x. x) (subQueriesWith b) ''SelectDocBuilder.With'' col arg a of
                  (e, dest, arg') \<Rightarrow> Inr (b\<lparr>subQueriesWith := dest, derr := e\<rparr>, arg'))
          else Inr (b, arg))"

definition SelectDocBuilder_Many :: "env \<Rightarrow> SelectDocBuilder \<Rightarrow> string \<Rightarrow> subArg \<Rightarrow> val list
    \<Rightarrow> SelectDocBuilder \<times> subArg" where
  "SelectDocBuilder_Many env b col arg a =
     (case storeExpr env Some (subQueriesMany b) ''SelectDocBuilder.Many'' col arg a of
        (e, dest, arg') \<Rightarrow> (b\<lparr>subQueriesMany := dest, derr := e\<rparr>, arg'))"

definition SelectDocBuilder_Vector :: "env \<Rightarrow> SelectDocBuilder \<Rightarrow> string \<Rightarrow> subArg \<Rightarrow> val list
    \<Rightarrow> SelectDocBuilder \<times> subArg" where
  "SelectDocBuilder_Vector env b col arg a =
     (case storeExpr env Some (subQueriesVector b) ''SelectDocBuilder.Vector'' col arg a of
        (e, dest, arg') \<Rightarrow> (b\<lparr>subQueriesVector := dest, derr := e\<rparr>, arg'))"

definition SelectDocBuilder_One :: "env \<Rightarrow> SelectDocBuilder \<Rightarrow> string \<Rightarrow> subArg \<Rightarrow> val list
    \<Rightarrow> SelectDocBuilder \<times> subArg" where
  "SelectDocBuilder_One env b col arg a =
     (case storeExpr env Some (subQueriesOne b) ''SelectDocBuilder.One'' col arg a of
        (e, dest, arg') \<Rightarrow> (b\<lparr>subQueriesOne := dest, derr := e\<rparr>, arg'))"

definition SelectDocBuilder_Scalar :: "env \<Rightarrow> SelectDocBuilder \<Rightarrow> string \<Rightarrow> subArg \<Rightarrow> val list
    \<Rightarrow> SelectDocBuilder \<times> subArg" where
  "SelectDocBuilder_Scalar env b col arg a =
     (case storeExpr env Some (subQueriesScalar b) ''SelectDocBuilder.Scalar'' col arg a of
        (e, dest, arg') \<Rightarrow> (b\<lparr>subQueriesScalar := dest, derr := e\<rparr>, arg'))"



subsection \<open>Whitelist\<close>

text \<open>The allow-list is split into prefixes and whole words; \<open>None\<close> when the literal
  \<open>*\<close> is met, which makes the call return at once.\<close>

fun splitColumns :: "string list \<Rightarrow> string list \<Rightarrow> string list \<Rightarrow> (string list \<times> string list) option" where
  "splitColumns [] matchColumns eqColumns = Some (matchColumns, eqColumns)"
| "splitColumns (c # cs) matchColumns eqColumns =
     (if length c = 0 then splitColumns cs matchColumns eqColumns
      else if c = ''*'' then None
      else if last c = CHR ''*'' then splitColumns cs (matchColumns @ [butlast c]) eqColumns
      else splitColumns cs matchColumns (eqColumns @ [c]))"

text \<open>One slot of \<open>argList\<close>. The alias of a slot that is already nil is read as soon as
  there is a column to compare it with: a nil dereference.\<close>

fun pruneSlot :: "string list \<Rightarrow> string list \<Rightarrow> subInfo option \<Rightarrow> error + subInfo option" where
  "pruneSlot matchColumns eqColumns None =
     (if matchColumns = [] \<and> eqColumns = [] then Inr None
      else Inl (Panic ''nil pointer dereference''))"
| "pruneSlot matchColumns eqColumns (Some sub) =
     Inr (if list_ex (\<lambda>c. length c \<le> length (subAlias sub) \<and> take (length c) (subAlias sub) = c)
               matchColumns
             \<or> list_ex (\<lambda>c. subAlias sub = c) eqColumns
          then Some sub else None)"

fun pruneSlots :: "string list \<Rightarrow> string list \<Rightarrow> subInfo option list \<Rightarrow> error + subInfo option list" where
  "pruneSlots matchColumns eqColumns [] = Inr []"
| "pruneSlots matchColumns eqColumns (s # slots) =
     (case pruneSlot matchColumns eqColumns s of
        Inl e \<Rightarrow> Inl e
      | Inr s' \<Rightarrow>
          (case pruneSlots matchColumns eqColumns slots of
             Inl e \<Rightarrow> Inl e
           | Inr slots' \<Rightarrow> Inr (s' # slots')))"

definition SelectDocBuilder_Whitelist :: "SelectDocBuilder \<Rightarrow> string list \<Rightarrow> error + SelectDocBuilder" where
  "SelectDocBuilder_Whitelist b cs =
     (if length cs = 0 then Inr b
      else (case splitColumns cs [] [] of
              None \<Rightarrow> Inr b
            | Some (matchColumns, eqColumns) \<Rightarrow>
                (case pruneSlots matchColumns eqColumns (subQueriesMany b) of
                   Inl e \<Rightarrow> Inl e
                 | Inr many \<Rightarrow>
                     (case pruneSlots matchColumns eqColumns (subQueriesOne b) of
                        Inl e \<Rightarrow> Inl e
                      | Inr one \<Rightarrow>
                          (case pruneSlots matchColumns eqColumns (subQueriesVector b) of
                             Inl e \<Rightarrow> Inl e
                           | Inr vector \<Rightarrow>
                               (case pruneSlots matchColumns eqColumns (subQueriesScalar b) of
                                  Inl e \<Rightarrow> Inl e
                                | Inr scalar \<Rightarrow>
                                    Inr (b\<lparr>subQueriesMany := many, subQueriesOne := one,
                                           subQueriesVector := vector,
                                           subQueriesScalar := scalar\<rparr>)))))))"

subsection \<open>The calls inherited from SelectBuilder\<close>

text \<open>Each forwards to the embedded builder, drops what that returns and returns the
  receiver.\<close>

definition SelectDocBuilder_Columns :: "SelectDocBuilder \<Rightarrow> string list \<Rightarrow> SelectDocBuilder" where
  "SelectDocBuilder_Columns b cs =
     b\<lparr>selectBuilder := fst (SelectBuilder_Columns (selectBuilder b) cs)\<rparr>"

definition SelectDocBuilder_Distinct :: "SelectDocBuilder \<Rightarrow> SelectDocBuilder" where
  "SelectDocBuilder_Distinct b = b\<lparr>selectBuilder := SelectBuilder_Distinct (selectBuilder b)\<rparr>"

definition SelectDocBuilder_DistinctOn :: "SelectDocBuilder \<Rightarrow> string list \<Rightarrow> SelectDocBuilder" where
  "SelectDocBuilder_DistinctOn b cs =
     b\<lparr>selectBuilder := SelectBuilder_DistinctOn (selectBuilder b) cs\<rparr>"

definition SelectDocBuilder_From :: "env \<Rightarrow> SelectDocBuilder \<Rightarrow> string \<Rightarrow> val list \<Rightarrow> SelectDocBuilder" where
  "SelectDocBuilder_From env b fromStr a =
     b\<lparr>selectBuilder := SelectBuilder_From env (selectBuilder b) fromStr a\<rparr>"

definition SelectDocBuilder_Join :: "env \<Rightarrow> SelectDocBuilder \<Rightarrow> string \<Rightarrow> val list \<Rightarrow> SelectDocBuilder" where
  "SelectDocBuilder_Join env b joinStr a =
     b\<lparr>selectBuilder := SelectBuilder_Join env (selectBuilder b) joinStr a\<rparr>"

definition SelectDocBuilder_LeftJoin :: "env \<Rightarrow> SelectDocBuilder \<Rightarrow> string \<Rightarrow> val list \<Rightarrow> SelectDocBuilder" where
  "SelectDocBuilder_LeftJoin env b joinStr a =
     b\<lparr>selectBuilder := SelectBuilder_LeftJoin env (selectBuilder b) joinStr a\<rparr>"

definition SelectDocBuilder_RightJoin :: "env \<Rightarrow> SelectDocBuilder \<Rightarrow> string \<Rightarrow> val list \<Rightarrow> SelectDocBuilder" where
  "SelectDocBuilder_RightJoin env b joinStr a =
     b\<lparr>selectBuilder := SelectBuilder_RightJoin env (selectBuilder b) joinStr a\<rparr>"

definition SelectDocBuilder_FullOuterJoin :: "env \<Rightarrow> SelectDocBuilder \<Rightarrow> string \<Rightarrow> val list \<Rightarrow> SelectDocBuilder" where
  "SelectDocBuilder_FullOuterJoin env b joinStr a =
     b\<lparr>selectBuilder := SelectBuilder_FullOuterJoin env (selectBuilder b) joinStr a\<rparr>"

definition SelectDocBuilder_For :: "SelectDocBuilder \<Rightarrow> string list \<Rightarrow> SelectDocBuilder" where
  "SelectDocBuilder_For b options = b\<lparr>selectBuilder := SelectBuilder_For (selectBuilder b) options\<rparr>"

definition SelectDocBuilder_ScopeMap :: "SelectDocBuilder \<Rightarrow> (string \<Rightarrow> string \<times> val list) \<Rightarrow> SelectDocBuilder" where
  "SelectDocBuilder_ScopeMap b merged =
     b\<lparr>selectBuilder := SelectBuilder_ScopeMap (selectBuilder b) merged\<rparr>"

definition SelectDocBuilder_Scope :: "SelectDocBuilder \<Rightarrow> string \<Rightarrow> val list \<Rightarrow> SelectDocBuilder" where
  "SelectDocBuilder_Scope b sql a =
     b\<lparr>selectBuilder := SelectBuilder_Scope (selectBuilder b) sql a\<rparr>"

definition SelectDocBuilder_Where :: "env \<Rightarrow> SelectDocBuilder \<Rightarrow> val \<Rightarrow> val list \<Rightarrow> SelectDocBuilder" where
  "SelectDocBuilder_Where env b whereSQLOrMap a =
     b\<lparr>selectBuilder := SelectBuilder_Where env (selectBuilder b) whereSQLOrMap a\<rparr>"

definition SelectDocBuilder_GroupBy :: "SelectDocBuilder \<Rightarrow> string \<Rightarrow> SelectDocBuilder" where
  "SelectDocBuilder_GroupBy b g = b\<lparr>selectBuilder := SelectBuilder_GroupBy (selectBuilder b) g\<rparr>"

definition SelectDocBuilder_Having :: "env \<Rightarrow> SelectDocBuilder \<Rightarrow> val \<Rightarrow> val list \<Rightarrow> SelectDocBuilder" where
  "SelectDocBuilder_Having env b whereSQLOrMap a =
     b\<lparr>selectBuilder := SelectBuilder_Having env (selectBuilder b) whereSQLOrMap a\<rparr>"

definition SelectDocBuilder_OrderBy :: "env \<Rightarrow> SelectDocBuilder \<Rightarrow> val \<Rightarrow> val list \<Rightarrow> SelectDocBuilder" where
  "SelectDocBuilder_OrderBy env b whereSQLOrMap a =
     b\<lparr>selectBuilder := SelectBuilder_OrderBy env (selectBuilder b) whereSQLOrMap a\<rparr>"

definition SelectDocBuilder_Limit :: "SelectDocBuilder \<Rightarrow> 64 word \<Rightarrow> SelectDocBuilder" where
  "SelectDocBuilder_Limit b n = b\<lparr>selectBuilder := SelectBuilder_Limit (selectBuilder b) n\<rparr>"

definition SelectDocBuilder_Offset :: "SelectDocBuilder \<Rightarrow> 64 word \<Rightarrow> SelectDocBuilder" where
  "SelectDocBuilder_Offset b n = b\<lparr>selectBuilder := SelectBuilder_Offset (selectBuilder b) n\<rparr>"

definition SelectDocBuilder_Paginate :: "SelectDocBuilder \<Rightarrow> 64 word \<Rightarrow> 64 word \<Rightarrow> SelectDocBuilder" where
  "SelectDocBuilder_Paginate b page perPage =
     b\<lparr>selectBuilder := SelectBuilder_Paginate (selectBuilder b) page perPage\<rparr>"

section \<open>Notions and examples for the properties\<close>

text \<open>A writer appends: what it adds to the buffer and to the arguments depends on the
  cursor alone, and the cursor advances by the number of arguments added.\<close>

definition appends :: "(wstate \<Rightarrow> wstate) \<Rightarrow> bool" where
  "appends w = (\<forall>pos. \<exists>t a. \<forall>buf args.
      w (buf, args, pos) = (buf @ t, args @ a, pos + int (length a)))"



text \<open>A document of one sub-query binding and no projected column.\<close>

definition exampleBindingsOnly :: SelectDocBuilder where
  "exampleBindingsOnly =
     fst (SelectDocBuilder_Many plainEnv (NewSelectDocBuilder []) ''x'' (ArgString ''SELECT 1'') [])"

text \<open>The allow-list in the words of the claim: an alias is allowed when it equals a
  non-empty entry, or starts with what precedes the final \<open>*\<close> of an entry.\<close>

definition whitelisted :: "string list \<Rightarrow> string \<Rightarrow> bool" where
  "whitelisted cs a =
     (\<exists>c\<in>set cs. c \<noteq> [] \<and> (a = c \<or> (last c = CHR ''*'' \<and> take (length (butlast c)) a = butlast c)))"

text \<open>A slot after the pass: kept when its alias is allowed, nil otherwise.\<close>

definition pruneBy :: "string list \<Rightarrow> subInfo option \<Rightarrow> subInfo option" where
  "pruneBy cs slot =
     (case slot of
        None \<Rightarrow> None
      | Some sub \<Rightarrow> if whitelisted cs (subAlias sub) then Some sub else None)"

text \<open>A builder with one MANY binding whose alias is empty.\<close>

definition exampleEmptyAlias :: SelectDocBuilder where
  "exampleEmptyAlias =
     fst (SelectDocBuilder_Many plainEnv (NewSelectDocBuilder [''a'']) [] (ArgString ''SELECT 1'') [])"

text \<open>The builder of the test \<open>TestSelectDocWhitelist\<close>, before its \<open>Whitelist\<close> call.\<close>

definition exampleWhitelist :: SelectDocBuilder where
  "exampleWhitelist =
     SelectDocBuilder_From plainEnv
       (fst (SelectDocBuilder_Scalar plainEnv
          (fst (SelectDocBuilder_One plainEnv
             (fst (SelectDocBuilder_Vector plainEnv
                (fst (SelectDocBuilder_Many plainEnv
                   (fst (SelectDocBuilder_Many plainEnv (NewSelectDocBuilder [''b'', ''c''])
                      ''f'' (ArgString ''SELECT g, h FROM f WHERE id= $1'') [IntV 4]))
                   ''x'' (ArgString ''SELECT id, y, z FROM x'') []))
                ''y'' (ArgString ''SELECT id FROM x'') []))
             ''foo'' (ArgString ''SELECT id FROM x'') []))
          ''z'' (ArgString ''SELECT id FROM x'') []))
       ''a'' []"

text \<open>The insert of the test \<open>TestInsertOnConflictSetMultipleMixed\<close>, with an expression
  as a third pair.\<close>

definition exampleUpsert :: InsertBuilder where
  "exampleUpsert = insertChain plainEnv (the (NewInsertBuilder ''a''))
     [CallColumns [''b'', ''c''], CallValues [IntV 1, IntV 2], CallOnConflictColumn ''b'',
      CallSet ''b'' (StrV ''EXCLUDED.b''), CallSet ''c'' (IntV 50),
      CallSet ''d'' (ExprV ''greatest($1, $2)'' [IntV 7, IntV 8])]"

text \<open>The groups of placeholders of rows of the given widths, numbered from \<open>start\<close>: one
  parenthesized group per row, separated by commas.\<close>

fun valuesText :: "bool \<Rightarrow> int \<Rightarrow> nat list \<Rightarrow> string" where
  "valuesText first start [] = []"
| "valuesText first start (w # ws) =
     (if first then [] else '','') @ buildPlaceholders start w @ valuesText False (start + int w) ws"

text \<open>The values of a record for the resolved columns.\<close>

definition recordValues :: "string list \<Rightarrow> record_value \<Rightarrow> val list" where
  "recordValues cs r = map (\<lambda>c. the (map_of r c)) cs"

text \<open>An insert of two literal rows and one record.\<close>

definition exampleRows :: InsertBuilder where
  "exampleRows = insertChain plainEnv (the (NewInsertBuilder ''a''))
     [CallColumns [''b'', ''c''], CallValues [IntV 1, IntV 2], CallValues [IntV 3, IntV 4],
      CallRecord [(''c'', IntV 6), (''b'', IntV 5)]]"

text \<open>The insert of the test \<open>TestInsertOnConflictSet\<close>: one literal row of width 2 and
  a \<open>Set\<close> pair that binds a value.\<close>

definition exampleRowAndSet :: InsertBuilder where
  "exampleRowAndSet = insertChain plainEnv (the (NewInsertBuilder ''a''))
     [CallColumns [''b'', ''c''], CallValues [IntV 1, IntV 2], CallOnConflictColumn ''b'',
      CallSet ''b'' (IntV 50)]"

text \<open>The calls of a chain that assign the builder's error without looking at it:
  \<open>Pair\<close>, and \<open>Where\<close> with a predicate that does not compile.\<close>

fun assignsError :: "env \<Rightarrow> insertCall \<Rightarrow> bool" where
  "assignsError env (CallPair c v) = True"
| "assignsError env (CallWhere w a) = isl (newWhereFragment env w a)"
| "assignsError env c = False"

text \<open>An insert of two literal rows whose \<open>Set\<close> has no conflict target.\<close>

definition exampleFailed :: InsertBuilder where
  "exampleFailed = insertChain plainEnv (the (NewInsertBuilder ''a''))
     [CallColumns [''b''], CallValues [IntV 1], CallValues [IntV 2], CallSet ''b'' (IntV 50)]"




section \<open>ToSQL on a builder in memory\<close>

text \<open>
  No \<open>ToSQL\<close> assigns a field of its receiver, and \<open>InsertBuilder.ToSQL\<close> writes to its
  local variables only. \<open>SelectBuilder.ToSQL\<close> and \<open>SelectDocBuilder.ToSQL\<close> copy the
  header of \<open>whereFragments\<close> and append the fragment of the scope to the copy, which may
  write to the array that the builder's own header points to. For them the memory is
  explicit: a slice is a window on an array, the address of the array and a length, its
  capacity being the number of cells of the array; the heap holds the arrays of where
  fragments by address, and the first address not in use.
\<close>

record slice =
  arr :: nat
  len :: nat

record heap =
  arrays :: "nat \<Rightarrow> whereFragment list"
  fresh :: nat

definition sliceElems :: "heap \<Rightarrow> slice \<Rightarrow> whereFragment list" where
  "sliceElems h s = take (len s) (arrays h (arr s))"

text \<open>
  \<open>append(s, x)\<close>: with spare capacity the cell behind the length is written in place and
  a longer window on the same array is returned; without, the elements and \<open>x\<close> go to a
  new array. (The new array of Go has further cells, which nothing reads here.)
\<close>

definition goAppend :: "heap \<Rightarrow> slice \<Rightarrow> whereFragment \<Rightarrow> heap \<times> slice" where
  "goAppend h s x =
     (if len s < length (arrays h (arr s))
      then (h\<lparr>arrays := (arrays h)(arr s := (arrays h (arr s))[len s := x])\<rparr>,
            s\<lparr>len := len s + 1\<rparr>)
      else (h\<lparr>arrays := (arrays h)(fresh h := take (len s) (arrays h (arr s)) @ [x]),
              fresh := fresh h + 1\<rparr>,
            \<lparr>arr = fresh h, len = len s + 1\<rparr>))"

text \<open>
  A builder in memory is its struct and the header of its \<open>whereFragments\<close>. The memory
  is well formed when the header lies within an array in use and its elements are the
  \<open>whereFragments\<close> of the struct.
\<close>

definition wfMem :: "heap \<Rightarrow> whereFragment list \<Rightarrow> slice \<Rightarrow> bool" where
  "wfMem h fs s = (len s \<le> length (arrays h (arr s)) \<and> arr s < fresh h \<and> sliceElems h s = fs)"

text \<open>The scope in \<open>ToSQL\<close>, on the heap: the where fragments are read through the copy
  of the header, before and after the \<open>append\<close>.\<close>

definition scopeRun :: "env \<Rightarrow> heap \<Rightarrow> SelectBuilder \<Rightarrow> slice \<Rightarrow> string \<Rightarrow> wstate
    \<Rightarrow> error + heap \<times> wstate \<times> whereFragment list" where
  "scopeRun env h b s from st =
     (case scope b of
        None \<Rightarrow> Inr (h, st, sliceElems h s)
      | Some sc \<Rightarrow>
          (case sc from of
             (sql, args2) \<Rightarrow>
               (case splitWhere env sql of
                  (sql1, wh) \<Rightarrow>
                    if wh \<noteq> []
                    then (case newWhereFragment env (StrV wh) args2 of
                            Inl e \<Rightarrow> Inl e
                          | Inr fragment \<Rightarrow>
                              (case goAppend h s fragment of
                                 (h', s') \<Rightarrow> Inr (h', writeString sql1 st, sliceElems h' s')))
                    else Inr (h, writeString sql1 st, sliceElems h s))))"

text \<open>\<open>SelectBuilder.ToSQL\<close> and \<open>SelectDocBuilder.ToSQL\<close> on the heap: what they return
  and the heap they leave.\<close>

definition SelectBuilder_ToSQL_run :: "env \<Rightarrow> heap \<Rightarrow> SelectBuilder \<times> slice \<Rightarrow> sqlResult \<times> heap" where
  "SelectBuilder_ToSQL_run env h m =
     (case m of (b, s) \<Rightarrow>
        (case serr b of
           Some e \<Rightarrow> (Inl e, h)
         | None \<Rightarrow>
             if length (columns b) = 0 then (Inl (NewError ''no columns specified''), h)
             else if length (tableFragments b) = 0 \<and> length (joinFragments b) > 0
             then (Inl (NewError ''joins may only be attached if a from target is specified''), h)
             else (case writeFromClause False b (''SELECT '' @ writeDistinctColumns b, [], 1) of
                     (from, st1) \<Rightarrow>
                       (case scopeRun env h b s from st1 of
                          Inl e \<Rightarrow> (Inl e, h)
                        | Inr (h', st2, fs) \<Rightarrow>
                            (case writeLimitOffsetFor b
                                    (writeOrderBy b (writeHaving b (writeGroupBy b
                                       (writeWhere fs st2)))) of
                               (buf, args, pos) \<Rightarrow> (Inr (buf, args), h'))))))"

definition SelectDocBuilder_ToSQL_run :: "env \<Rightarrow> heap \<Rightarrow> SelectDocBuilder \<times> slice \<Rightarrow> sqlResult \<times> heap" where
  "SelectDocBuilder_ToSQL_run env h m =
     (case m of (b, s) \<Rightarrow>
        (case derr b of
           Some e \<Rightarrow> (Inl e, h)
         | None \<Rightarrow>
             if length (columns (selectBuilder b)) + length (subQueriesMany b)
                  + length (subQueriesOne b) + length (subQueriesScalar b)
                  + length (subQueriesVector b) = 0
             then (Inl (NewError ''no columns specified''), h)
             else if length (tableFragments (selectBuilder b)) = 0
                     \<and> length (joinFragments (selectBuilder b)) > 0
             then (Inl (NewError ''joins may only be attached if a from target is specified''), h)
             else (case innerSQL b of
                     Some e \<Rightarrow>
                       (case WriteRelativeArgs e (writeDocHead env b) of
                          (buf, args, pos) \<Rightarrow>
                            (Inr (if isParent b then buf @ '') as dat__item'' else buf, args), h))
                   | None \<Rightarrow>
                       (case writeFromClause True (selectBuilder b) (writeDocHead env b) of
                          (from, st1) \<Rightarrow>
                            (case scopeRun env h (selectBuilder b) s from st1 of
                               Inl e \<Rightarrow> (Inl e, h)
                             | Inr (h', st2, fs) \<Rightarrow>
                                 (case writeLimitOffsetFor (selectBuilder b)
                                         (writeOrderBy (selectBuilder b)
                                            (writeHaving (selectBuilder b)
                                               (writeGroupBy (selectBuilder b)
                                                  (writeUnions (unions b) (writeWhere fs st2))))) of
                                    (buf, args, pos) \<Rightarrow>
                                      (Inr (if isParent b then buf @ '') as dat__item'' else buf, args),
                                       h')))))))"

text \<open>An environment in which the text of a scope is all condition, and a select with a
  condition and a scope.\<close>

definition scopeEnv :: env where
  "scopeEnv = plainEnv\<lparr>splitWhere := (\<lambda>s. ([], s))\<rparr>"

definition exampleScoped :: SelectBuilder where
  "exampleScoped =
     SelectBuilder_Scope
       (SelectBuilder_Where scopeEnv
          (SelectBuilder_From scopeEnv (NewSelectBuilder [''a'']) ''t'' [])
          (StrV ''x = $1'') [IntV 1])
       ''y = $1'' [IntV 2]"

text \<open>A heap with one array of two cells, the second spare, and the header of the one
  condition of the example.\<close>

definition exampleHeap :: heap where
  "exampleHeap =
     \<lparr>arrays = (\<lambda>a. [])(0 := [[\<lparr>fragText = ''x = $1'', fragArgs = [IntV 1]\<rparr>],
                               [\<lparr>fragText = ''stale'', fragArgs = []\<rparr>]]),
      fresh = 1\<rparr>"

definition exampleSlice :: slice where
  "exampleSlice = \<lparr>arr = 0, len = 1\<rparr>"

section \<open>Properties of the writers\<close>

lemma withoutConflict_fields [simp]:
  "ierr (withoutConflict b) = ierr b" "table (withoutConflict b) = table b"
  "cols (withoutConflict b) = cols b" "vals (withoutConflict b) = vals b"
  "records (withoutConflict b) = records b" "isBlacklist (withoutConflict b) = isBlacklist b"
  "returnings (withoutConflict b) = []"
  by (simp_all add: withoutConflict_def)

lemma resolveColumns_withoutConflict [simp]: "resolveColumns (withoutConflict b) = resolveColumns b"
  by (simp add: resolveColumns_def Let_def)

lemma writeOnConflict_withoutConflict [simp]: "writeOnConflict env (withoutConflict b) st = st"
  by (cases st) (simp add: writeOnConflict_def withoutConflict_def hasOneConflictTarget_def)

lemma writeReturning_Nil [simp]: "writeReturning env [] = []"
  by (simp add: writeReturning_def)

lemma InsertBuilder_ToSQL_Inr:
  assumes "InsertBuilder_ToSQL env b = Inr (sql, args)"
  shows "\<exists>cs st. ierr b = None \<and> resolveColumns b = Inr cs \<and>
    writeRecords cs (records b) (length (vals b) > 0)
       (writeVals (vals b) True
          (''INSERT INTO '' @ table b @ '' ('' @ joinWith '','' (map (writeIdentifier env) cs) @ '') VALUES '', [], 1)) = Inr st \<and>
    sql = fst (writeOnConflict env b st) @ writeReturning env (returnings b) \<and>
    args = fst (snd (writeOnConflict env b st)) \<and>
    InsertBuilder_ToSQL env (withoutConflict b) = Inr (fst st, fst (snd st))"
  using assms
  unfolding InsertBuilder_ToSQL_def
  by (auto split: option.splits if_splits sum.splits prod.splits)

text \<open>Writers only append: what they add depends on the cursor alone.\<close>

lemma writeFragment_frame:
  "writeFragment l r f (buf, args, pos) =
     (buf @ l @ remapPlaceholders (fragText f) pos @ r, args @ fragArgs f, pos + int (length (fragArgs f)))"
  by (simp add: writeFragment_def)

lemma writeFragments_frame:
  "\<exists>t. writeFragments sep l r fs first (buf, args, pos) =
     (buf @ t, args @ concat (map fragArgs fs), pos + int (length (concat (map fragArgs fs))))"
proof (induction fs arbitrary: first buf args pos)
  case Nil
  then show ?case by simp
next
  case (Cons f fs)
  obtain t where t: "writeFragments sep l r fs False
       ((if first then buf else buf @ sep) @ l @ remapPlaceholders (fragText f) pos @ r, args @ fragArgs f, pos + int (length (fragArgs f)))
     = (((if first then buf else buf @ sep) @ l @ remapPlaceholders (fragText f) pos @ r) @ t, (args @ fragArgs f) @ concat (map fragArgs fs),
         (pos + int (length (fragArgs f))) + int (length (concat (map fragArgs fs))))"
    using Cons.IH by blast
  show ?case using t
    by (intro exI [of _ "(if first then [] else sep) @ l @ remapPlaceholders (fragText f) pos @ r @ t"])
       (auto simp: writeFragment_frame split: if_splits)
qed

lemma writeAndFragmentsToSQL_frame:
  "\<exists>t. writeAndFragmentsToSQL fs (buf, args, pos) =
     (buf @ t, args @ concat (map fragArgs (concat fs)), pos + int (length (concat (map fragArgs (concat fs)))))"
  unfolding writeAndFragmentsToSQL_def by (rule writeFragments_frame)

lemma bindValue_frame:
  "bindValue env v (sql, args, pos) = (sql @ '' = $'' @ FormatInt pos, args @ [v], pos + 1)"
  by (simp add: bindValue_def equalsPlaceholderTab_def)

lemma writeSetValue_frame:
  "\<exists>t a. writeSetValue env c v (sql, args, pos) = (sql @ t, args @ a, pos + int (length a))"
proof (cases v)
  case (StrV s)
  show ?thesis
  proof (cases "s = excludedColumn @ ''.'' @ c")
    case True
    then show ?thesis using StrV
      by (intro exI [of _ "'' = '' @ s"] exI [of _ "[]"]) simp
  next
    case False
    then show ?thesis using StrV
      by (intro exI [of _ "'' = $'' @ FormatInt pos"] exI [of _ "[v]"]) (simp add: bindValue_frame)
  qed
next
  case (ExprV esql eargs)
  then show ?thesis
    by (intro exI [of _ "'' = '' @ remapPlaceholders esql pos"] exI [of _ eargs]) simp
qed (auto simp: bindValue_frame intro!: exI [of _ "'' = $'' @ FormatInt pos"] exI [of _ "[v]"])

lemma writeSetClauses_frame:
  "\<exists>t a. writeSetClauses env cs first (sql, args, pos) = (sql @ t, args @ a, pos + int (length a))"
proof (induction cs arbitrary: first sql args pos)
  case Nil
  show ?case by (intro exI [of _ "[]"]) simp
next
  case (Cons c cs)
  let ?sql1 = "(if first then sql else sql @ '', '') @ writeIdentifier env (scColumn c)"
  obtain t1 a1 where 1: "writeSetValue env (scColumn c) (scValue c) (?sql1, args, pos) = (?sql1 @ t1, args @ a1, pos + int (length a1))"
    using writeSetValue_frame by blast
  obtain t2 a2 where 2: "writeSetClauses env cs False (?sql1 @ t1, args @ a1, pos + int (length a1))
      = ((?sql1 @ t1) @ t2, (args @ a1) @ a2, (pos + int (length a1)) + int (length a2))"
    using Cons.IH by blast
  show ?case using 1 2
    by (intro exI [of _ "(if first then [] else '', '') @ writeIdentifier env (scColumn c) @ t1 @ t2"] exI [of _ "a1 @ a2"])
       (auto split: if_splits)
qed

lemma writeConflictAction_frame:
  "\<exists>t a. writeConflictAction env act (sql, args, pos) = (sql @ t, args @ a, pos + int (length a))
     \<and> (action act \<noteq> updateAction \<longrightarrow> t = '' DO NOTHING'' \<and> a = [])"
proof (cases "action act \<noteq> updateAction")
  case True
  then show ?thesis
    by (intro exI [of _ "'' DO NOTHING''"] exI [of _ "[]"]) (simp add: writeConflictAction_def)
next
  case False
  obtain t1 a1 where 1: "writeSetClauses env (setClauses act) True (sql @ '' DO UPDATE SET '', args, pos)
       = ((sql @ '' DO UPDATE SET '') @ t1, args @ a1, pos + int (length a1))"
    using writeSetClauses_frame by blast
  show ?thesis
  proof (cases "length (actionWhereFragments act) > 0")
    case True
    obtain t2 where 2: "writeAndFragmentsToSQL (actionWhereFragments act) (((sql @ '' DO UPDATE SET '') @ t1) @ '' WHERE '', args @ a1, pos + int (length a1))
      = ((((sql @ '' DO UPDATE SET '') @ t1) @ '' WHERE '') @ t2, (args @ a1) @ concat (map fragArgs (concat (actionWhereFragments act))),
          (pos + int (length a1)) + int (length (concat (map fragArgs (concat (actionWhereFragments act))))))"
      using writeAndFragmentsToSQL_frame by blast
    show ?thesis using False True 1 2
      by (intro exI [of _ "'' DO UPDATE SET '' @ t1 @ '' WHERE '' @ t2"] exI [of _ "a1 @ concat (map fragArgs (concat (actionWhereFragments act)))"])
         (simp add: writeConflictAction_def)
  next
    case F2: False
    show ?thesis using False F2 1
      by (intro exI [of _ "'' DO UPDATE SET '' @ t1"] exI [of _ "a1"])
         (simp add: writeConflictAction_def)
  qed
qed

section \<open>InsertBuilder: the ON CONFLICT clause\<close>

lemma action_applyInsertCall:
  "\<not> isSetCall c \<Longrightarrow> action (onConflictAction b) \<noteq> updateAction \<Longrightarrow>
     action (onConflictAction (applyInsertCall env b c)) \<noteq> updateAction"
  by (cases c)
     (auto simp: InsertBuilder_Columns_def InsertBuilder_Whitelist_def InsertBuilder_Blacklist_def
        InsertBuilder_Values_def InsertBuilder_Record_def InsertBuilder_OnConflictColumn_def
        InsertBuilder_OnConflictConstraint_def InsertBuilder_OnConflictWhere_def
        InsertBuilder_Where_def InsertBuilder_Returning_def InsertBuilder_Pair_def Let_def
        split: sum.splits if_splits)

lemma action_insertChain:
  "\<forall>c\<in>set calls. \<not> isSetCall c \<Longrightarrow> action (onConflictAction b) \<noteq> updateAction \<Longrightarrow>
     action (onConflictAction (insertChain env b calls)) \<noteq> updateAction"
  unfolding insertChain_def
  by (induction calls arbitrary: b) (auto simp: action_applyInsertCall)

lemma action_NewInsertBuilder:
  "NewInsertBuilder t = Some b \<Longrightarrow> action (onConflictAction b) \<noteq> updateAction"
  by (auto simp: NewInsertBuilder_def updateAction_def split: if_splits)

text \<open>
  Claim C6. When \<open>InsertBuilder.ToSQL\<close> succeeds, the statement is the text of the
  same builder without conflict target and RETURNING columns, followed by an ON CONFLICT
  clause exactly when one and only one of the target's column and constraint is set, and
  by the RETURNING columns. The target of the clause is \<open>(column)\<close>, followed by
  \<open>WHERE indexPredicate\<close> when that is set, or \<open>ON CONSTRAINT name\<close>; unless the
  action is UPDATE the clause ends with \<open>DO NOTHING\<close> and binds no argument. A chain
  of calls on a new builder that contains no \<open>Set\<close> and no \<open>SetMap\<close> leaves the action
  other than UPDATE.
\<close>

theorem on_conflict_clause:
  assumes "InsertBuilder_ToSQL env b = Inr (sql, args)"
  shows "(\<exists>head args0 act args1.
           InsertBuilder_ToSQL env (withoutConflict b) = Inr (head, args0) \<and>
           (if (column (onConflictTarget b) = []) \<noteq> (constraint (onConflictTarget b) = [])
            then sql = head @ '' ON CONFLICT ''
                   @ (if column (onConflictTarget b) \<noteq> []
                      then ''('' @ column (onConflictTarget b) @ '')''
                           @ (if indexPredicate (onConflictTarget b) \<noteq> []
                              then '' WHERE '' @ indexPredicate (onConflictTarget b) else [])
                      else ''ON CONSTRAINT '' @ constraint (onConflictTarget b))
                   @ act @ writeReturning env (returnings b)
                 \<and> args = args0 @ args1
                 \<and> (action (onConflictAction b) \<noteq> updateAction \<longrightarrow>
                      act = '' DO NOTHING'' \<and> args1 = [])
            else sql = head @ writeReturning env (returnings b) \<and> args = args0))
         \<and> (\<forall>t b0 calls. NewInsertBuilder t = Some b0 \<and> (\<forall>c\<in>set calls. \<not> isSetCall c) \<longrightarrow>
               action (onConflictAction (insertChain env b0 calls)) \<noteq> updateAction)"
proof (intro conjI allI impI)
  obtain cs st where "resolveColumns b = Inr cs" and st: "sql = fst (writeOnConflict env b st) @ writeReturning env (returnings b)"
      "args = fst (snd (writeOnConflict env b st))"
      "InsertBuilder_ToSQL env (withoutConflict b) = Inr (fst st, fst (snd st))"
    using InsertBuilder_ToSQL_Inr [OF assms] by blast
  obtain head args0 pos where [simp]: "st = (head, args0, pos)" by (cases st)
  let ?t = "onConflictTarget b"
  let ?tt = "''('' @ column (onConflictTarget b) @ '')''"
  obtain act args1 where act:
    "writeConflictAction env (onConflictAction b)
        (head @ '' ON CONFLICT '' @ writeConflictTarget ?t, args0, pos)
      = ((head @ '' ON CONFLICT '' @ writeConflictTarget ?t) @ act, args0 @ args1, pos + int (length args1))"
    "action (onConflictAction b) \<noteq> updateAction \<longrightarrow> act = '' DO NOTHING'' \<and> args1 = []"
    using writeConflictAction_frame by blast
  show "\<exists>head args0 act args1.
           InsertBuilder_ToSQL env (withoutConflict b) = Inr (head, args0) \<and>
           (if (column (onConflictTarget b) = []) \<noteq> (constraint (onConflictTarget b) = [])
            then sql = head @ '' ON CONFLICT ''
                   @ (if column (onConflictTarget b) \<noteq> []
                      then ''('' @ column (onConflictTarget b) @ '')''
                           @ (if indexPredicate (onConflictTarget b) \<noteq> []
                              then '' WHERE '' @ indexPredicate (onConflictTarget b) else [])
                      else ''ON CONSTRAINT '' @ constraint (onConflictTarget b))
                   @ act @ writeReturning env (returnings b)
                 \<and> args = args0 @ args1
                 \<and> (action (onConflictAction b) \<noteq> updateAction \<longrightarrow>
                      act = '' DO NOTHING'' \<and> args1 = [])
            else sql = head @ writeReturning env (returnings b) \<and> args = args0)"
    using st act
    by (intro exI [of _ head] exI [of _ args0] exI [of _ act] exI [of _ args1])
       (auto simp: writeOnConflict_def hasOneConflictTarget_def writeConflictTarget_def)
next
  fix t b0 calls
  assume "NewInsertBuilder t = Some b0 \<and> (\<forall>c\<in>set calls. \<not> isSetCall c)"
  then show "action (onConflictAction (insertChain env b0 calls)) \<noteq> updateAction"
    using action_insertChain action_NewInsertBuilder by blast
qed

lemma exampleInsert_ToSQL:
  "InsertBuilder_ToSQL plainEnv exampleInsert =
     Inr (''INSERT INTO a (b,c) VALUES ($1,$2) ON CONFLICT (b) DO NOTHING'', [IntV 1, IntV 2])"
  by code_simp

lemma exampleInsert_fields:
  "onConflictTarget exampleInsert = \<lparr>column = ''b'', constraint = [], indexPredicate = []\<rparr>"
  "returnings exampleInsert = []"
  "action (onConflictAction exampleInsert) = []"
  by (simp_all add: exampleInsert_def insertChain_def NewInsertBuilder_def
        InsertBuilder_Columns_def InsertBuilder_Whitelist_def InsertBuilder_Values_def
        InsertBuilder_OnConflictColumn_def)

theorem on_conflict_clause_witness:
  "InsertBuilder_ToSQL plainEnv exampleInsert =
     Inr (''INSERT INTO a (b,c) VALUES ($1,$2) ON CONFLICT (b) DO NOTHING'', [IntV 1, IntV 2])
   \<and> (\<exists>head args0.
         InsertBuilder_ToSQL plainEnv (withoutConflict exampleInsert) = Inr (head, args0) \<and>
         ''INSERT INTO a (b,c) VALUES ($1,$2) ON CONFLICT (b) DO NOTHING''
            = head @ '' ON CONFLICT '' @ ''(b)'' @ '' DO NOTHING'' \<and>
         [IntV 1, IntV 2] = args0)
   \<and> action (onConflictAction exampleInsert) \<noteq> updateAction"
proof -
  note th = on_conflict_clause [OF exampleInsert_ToSQL]
  from th obtain head args0 act args1 where
    h: "InsertBuilder_ToSQL plainEnv (withoutConflict exampleInsert) = Inr (head, args0)"
       "''INSERT INTO a (b,c) VALUES ($1,$2) ON CONFLICT (b) DO NOTHING'' = head @ '' ON CONFLICT '' @ ''(b)'' @ act"
       "[IntV 1, IntV 2] = args0 @ args1" "act = '' DO NOTHING''" "args1 = []"
    by (auto simp: exampleInsert_fields updateAction_def writeReturning_def)
  have "NewInsertBuilder ''a'' = Some (the (NewInsertBuilder ''a''))"
    by (simp add: NewInsertBuilder_def)
  with th have "action (onConflictAction exampleInsert) \<noteq> updateAction"
    unfolding exampleInsert_def
    by (elim conjE allE [of _ "''a''"] allE [of _ "the (NewInsertBuilder ''a'')"] 
          allE [of _ "[CallColumns [''b'', ''c''], CallValues [IntV 1, IntV 2], CallOnConflictColumn ''b'']"]) simp
  with h exampleInsert_ToSQL show ?thesis by auto
qed

section \<open>Writers only append\<close>

lemma appendsI:
  assumes "\<And>pos buf args. w (buf, args, pos) = (buf @ t pos, args @ a pos, pos + int (length (a pos)))"
  shows "appends w"
  unfolding appends_def
proof
  fix pos
  show "\<exists>t a. \<forall>buf args. w (buf, args, pos) = (buf @ t, args @ a, pos + int (length a))"
    by (intro exI [of _ "t pos"] exI [of _ "a pos"]) (simp add: assms)
qed

lemma appendsD:
  "appends w \<Longrightarrow> \<exists>t a. \<forall>buf args. w (buf, args, pos) = (buf @ t, args @ a, pos + int (length a))"
  unfolding appends_def by blast

lemma appends_id: "appends id"
  by (rule appendsI [where t = "\<lambda>_. []" and a = "\<lambda>_. []"]) simp

lemma appends_o:
  assumes g: "appends g" and f: "appends f"
  shows "appends (g \<circ> f)"
  unfolding appends_def
proof
  fix pos
  obtain t1 a1 where 1: "\<And>buf args. f (buf, args, pos) = (buf @ t1, args @ a1, pos + int (length a1))"
    using appendsD [OF f, of pos] by blast
  obtain t2 a2 where 2: "\<And>buf args. g (buf, args, pos + int (length a1)) = (buf @ t2, args @ a2, pos + int (length a1) + int (length a2))"
    using appendsD [OF g, of "pos + int (length a1)"] by blast
  show "\<exists>t a. \<forall>buf args. (g \<circ> f) (buf, args, pos) = (buf @ t, args @ a, pos + int (length a))"
    by (intro exI [of _ "t1 @ t2"] exI [of _ "a1 @ a2"]) (simp add: 1 2)
qed

lemma appends_writeString: "appends (writeString s)"
  by (rule appendsI [where t = "\<lambda>_. s" and a = "\<lambda>_. []"]) (simp add: writeString_def)

lemma appends_WriteRelativeArgs: "appends (WriteRelativeArgs e)"
  by (rule appendsI [where t = "\<lambda>pos. remapPlaceholders (Sql e) pos" and a = "\<lambda>_. Args e"])
     (simp add: WriteRelativeArgs_def)

lemma appends_writeFragment: "appends (writeFragment l r f)"
  by (rule appendsI [where t = "\<lambda>pos. l @ remapPlaceholders (fragText f) pos @ r" and a = "\<lambda>_. fragArgs f"])
     (simp add: writeFragment_def)

lemma writeFragments_Cons:
  "writeFragments sep l r (f # fs) first =
     writeFragments sep l r fs False \<circ> writeFragment l r f \<circ> writeString (if first then [] else sep)"
  by (rule ext) (auto simp: writeString_def)

lemma appends_writeFragments: "appends (writeFragments sep l r fs first)"
proof (induction fs arbitrary: first)
  case Nil
  have "writeFragments sep l r [] first = id" by (rule ext) simp
  then show ?case by (simp only: appends_id)
next
  case (Cons f fs)
  show ?case
    unfolding writeFragments_Cons
    by (rule appends_o [OF appends_o [OF Cons.IH appends_writeFragment] appends_writeString])
qed

lemma appends_writeAndFragmentsToSQL: "appends (writeAndFragmentsToSQL fs)"
proof -
  have "writeAndFragmentsToSQL fs = writeFragments '' AND '' ''('' '')'' (concat fs) True"
    by (rule ext) (simp add: writeAndFragmentsToSQL_def)
  then show ?thesis by (simp only: appends_writeFragments)
qed

lemma appends_writeCommaFragmentsToSQL: "appends (writeCommaFragmentsToSQL fs)"
proof -
  have "writeCommaFragmentsToSQL fs = writeFragments '', '' [] [] (concat fs) True"
    by (rule ext) (simp add: writeCommaFragmentsToSQL_def)
  then show ?thesis by (simp only: appends_writeFragments)
qed

lemma appends_writeConcatFragmentsToSQL: "appends (writeConcatFragmentsToSQL fs)"
proof -
  have "writeConcatFragmentsToSQL fs = writeFragments [] [] [] (concat fs) True"
    by (rule ext) (simp add: writeConcatFragmentsToSQL_def)
  then show ?thesis by (simp only: appends_writeFragments)
qed

lemma appends_writeWhere: "appends (writeWhere fs)"
proof (cases "length fs > 0")
  case True
  then have "writeWhere fs = writeAndFragmentsToSQL fs \<circ> writeString '' WHERE ''"
    by (intro ext) (simp add: writeWhere_def)
  then show ?thesis
    by (simp only: appends_o [OF appends_writeAndFragmentsToSQL appends_writeString])
next
  case False
  then have "writeWhere fs = id" by (intro ext) (simp add: writeWhere_def)
  then show ?thesis by (simp only: appends_id)
qed

lemma appends_writeGroupBy: "appends (writeGroupBy b)"
proof (cases "length (groupBys b) > 0")
  case True
  then have "writeGroupBy b = writeString ('' GROUP BY '' @ joinWith '', '' (groupBys b))"
    by (intro ext) (simp add: writeGroupBy_def)
  then show ?thesis by (simp only: appends_writeString)
next
  case False
  then have "writeGroupBy b = id" by (intro ext) (simp add: writeGroupBy_def)
  then show ?thesis by (simp only: appends_id)
qed

lemma appends_writeHaving: "appends (writeHaving b)"
proof (cases "length (havingFragments b) > 0")
  case True
  then have "writeHaving b = writeAndFragmentsToSQL (havingFragments b) \<circ> writeString '' HAVING ''"
    by (intro ext) (simp add: writeHaving_def)
  then show ?thesis
    by (simp only: appends_o [OF appends_writeAndFragmentsToSQL appends_writeString])
next
  case False
  then have "writeHaving b = id" by (intro ext) (simp add: writeHaving_def)
  then show ?thesis by (simp only: appends_id)
qed

lemma appends_writeOrderBy: "appends (writeOrderBy b)"
proof (cases "length (orderBys b) > 0")
  case True
  then have "writeOrderBy b = writeCommaFragmentsToSQL (orderBys b) \<circ> writeString '' ORDER BY ''"
    by (intro ext) (simp add: writeOrderBy_def)
  then show ?thesis
    by (simp only: appends_o [OF appends_writeCommaFragmentsToSQL appends_writeString])
next
  case False
  then have "writeOrderBy b = id" by (intro ext) (simp add: writeOrderBy_def)
  then show ?thesis by (simp only: appends_id)
qed

lemma appends_writeLimitOffsetFor: "appends (writeLimitOffsetFor b)"
proof -
  have "writeLimitOffsetFor b = writeString
       ((if limitValid b then '' LIMIT '' @ writeUint64 (limitCount b) else [])
        @ (if offsetValid b then '' OFFSET '' @ writeUint64 (offsetCount b) else [])
        @ (if length (fors b) > 0 then '' FOR'' @ concat (map (\<lambda>s. '' '' @ s) (fors b)) else []))"
    by (intro ext) (simp only: writeLimitOffsetFor_def)
  then show ?thesis by (simp only: appends_writeString)
qed

















lemma writeUnions_None: "writeUnions (None # subs) = writeUnions subs"
  by (rule ext) simp

lemma writeUnions_Some:
  "writeUnions (Some sub # subs) =
     writeUnions subs \<circ> writeString '' '' \<circ> WriteRelativeArgs (subExpr sub)
       \<circ> writeString ('' UNION '' @ subAlias sub @ '' '')"
  by (rule ext) simp

lemma appends_writeUnions: "appends (writeUnions subs)"
proof (induction subs)
  case Nil
  have "writeUnions [] = id" by (rule ext) simp
  then show ?case by (simp only: appends_id)
next
  case (Cons s subs)
  show ?case
  proof (cases s)
    case None
    then show ?thesis using Cons.IH by (simp only: writeUnions_None)
  next
    case (Some sub)
    show ?thesis
      unfolding Some writeUnions_Some
      by (intro appends_o Cons.IH appends_writeString appends_WriteRelativeArgs)
  qed
qed



lemma writeFromClause_frame:
  "\<exists>from t a. \<forall>buf args. writeFromClause space b (buf, args, pos)
       = (from, (buf @ t, args @ a, pos + int (length a)))"
proof (cases "length (tableFragments b) > 0")
  case False
  then show ?thesis
    by (intro exI [of _ "[]"]) (simp add: writeFromClause_def)
next
  case True
  obtain t1 a1 where 1: "\<And>buf args. writeCommaFragmentsToSQL (tableFragments b) (buf, args, pos)
      = (buf @ t1, args @ a1, pos + int (length a1))"
    using appendsD [OF appends_writeCommaFragmentsToSQL, of _ pos] by blast
  obtain t2 a2 where 2: "\<And>buf args. writeConcatFragmentsToSQL (joinFragments b) (buf, args, pos + int (length a1))
      = (buf @ t2, args @ a2, pos + int (length a1) + int (length a2))"
    using appendsD [OF appends_writeConcatFragmentsToSQL, of _ "pos + int (length a1)"] by blast
  show ?thesis using True
    by (intro exI [of _ "(if space then t1 @ '' '' else t1) @ t2"]
          exI [of _ "'' FROM '' @ (if space then t1 @ '' '' else t1) @ t2"] exI [of _ "a1 @ a2"])
       (simp add: writeFromClause_def 1 2)
qed

lemma writeScope_total:
  "\<exists>t fs. \<forall>buf args pos. writeScope env b from (buf, args, pos) = Inr ((buf @ t, args, pos), fs)"
proof (cases "scope b")
  case None
  then have "\<forall>buf args pos. writeScope env b from (buf, args, pos) = Inr ((buf @ [], args, pos), whereFragments b)"
    by (simp add: writeScope_def)
  then show ?thesis by blast
next
  case (Some sc)
  obtain sql args2 where sc: "sc from = (sql, args2)" by (cases "sc from")
  obtain sql1 wh where sp: "splitWhere env sql = (sql1, wh)" by (cases "splitWhere env sql")
  have "\<forall>buf args pos. writeScope env b from (buf, args, pos)
      = Inr ((buf @ sql1, args, pos),
             if wh \<noteq> [] then whereFragments b @ [[\<lparr>fragText = wh, fragArgs = args2\<rparr>]]
             else whereFragments b)"
    by (simp add: writeScope_def Some sc sp writeString_def)
  then show ?thesis by blast
qed

lemma writeDocBody_frame:
  "\<exists>t a. \<forall>buf args. writeDocBody env b (buf, args, pos) = Inr (buf @ t, args @ a, pos + int (length a))"
proof -
  obtain frm t1 a1 where 1: "\<And>buf args. writeFromClause True (selectBuilder b) (buf, args, pos)
       = (frm, (buf @ t1, args @ a1, pos + int (length a1)))"
    using writeFromClause_frame [of True "selectBuilder b" pos] by blast
  obtain t2 fs where 2: "\<And>buf args pos. writeScope env (selectBuilder b) frm (buf, args, pos)
       = Inr ((buf @ t2, args, pos), fs)"
    using writeScope_total [of env "selectBuilder b" frm] by blast
  let ?tail = "writeLimitOffsetFor (selectBuilder b) \<circ> writeOrderBy (selectBuilder b)
      \<circ> writeHaving (selectBuilder b) \<circ> writeGroupBy (selectBuilder b)
      \<circ> writeUnions (unions b) \<circ> writeWhere fs"
  have "appends ?tail"
    by (intro appends_o appends_writeLimitOffsetFor appends_writeOrderBy appends_writeHaving
          appends_writeGroupBy appends_writeUnions appends_writeWhere)
  then obtain t3 a3 where 3: "\<And>buf args. ?tail (buf, args, pos + int (length a1))
       = (buf @ t3, args @ a3, pos + int (length a1) + int (length a3))"
    using appendsD [of ?tail "pos + int (length a1)"] by blast
  have "\<forall>buf args. writeDocBody env b (buf, args, pos)
      = Inr (buf @ (t1 @ t2 @ t3), args @ (a1 @ a3), pos + int (length (a1 @ a3)))"
    using 3 by (simp add: writeDocBody_def 1 2)
  then show ?thesis by blast
qed

lemma isParent_irrelevant [simp]:
  "writeDocSubs env (b\<lparr>isParent := p\<rparr>) = writeDocSubs env b"
  "writeDocBody env (b\<lparr>isParent := p\<rparr>) = writeDocBody env b"
  by (rule ext, simp add: writeDocSubs_def writeDocBody_def split: prod.splits sum.splits)+


section \<open>SelectDocBuilder: where a sub-query is embedded\<close>








section \<open>SelectDocBuilder: the JSON wrapper\<close>













section \<open>SelectDocBuilder: validation\<close>

lemma SelectDocBuilder_ToSQL_valid:
  assumes "derr b = None"
    and "\<not> (columns (selectBuilder b) = [] \<and> subQueriesMany b = [] \<and> subQueriesOne b = []
            \<and> subQueriesVector b = [] \<and> subQueriesScalar b = [])"
    and "\<not> (tableFragments (selectBuilder b) = [] \<and> joinFragments (selectBuilder b) \<noteq> [])"
  shows "\<exists>sql args. SelectDocBuilder_ToSQL env b = Inr (sql, args)"
proof -
  obtain buf args pos where w: "writeDocHead env b = (buf, args, pos)"
    by (cases "writeDocHead env b")
  show ?thesis
  proof (cases "innerSQL b")
    case None
    obtain t2 a2 where "writeDocBody env b (buf, args, pos) = Inr (buf @ t2, args @ a2, pos + int (length a2))"
      using writeDocBody_frame [of env b pos] by blast
    with assms None w show ?thesis
      by (auto simp: SelectDocBuilder_ToSQL_def)
  next
    case (Some ex)
    with assms w show ?thesis
      by (auto simp: SelectDocBuilder_ToSQL_def split: prod.splits)
  qed
qed

text \<open>
  Claim C10. For a document builder with no recorded error, \<open>ToSQL\<close> returns the error
  \<open>no columns specified\<close> if and only if the projected columns and the MANY, ONE, VECTOR
  and SCALAR lists are all empty; a document of sub-query bindings only, with no
  projected column, renders (unless joins are attached without a FROM target), whereas
  \<open>SelectBuilder.ToSQL\<close> returns an error whenever its column list is empty.
\<close>

theorem doc_no_columns_error:
  assumes "derr b = None"
  shows "(SelectDocBuilder_ToSQL env b = Inl (NewError ''no columns specified'')
          \<longleftrightarrow> columns (selectBuilder b) = [] \<and> subQueriesMany b = [] \<and> subQueriesOne b = []
               \<and> subQueriesVector b = [] \<and> subQueriesScalar b = [])
       \<and> (columns (selectBuilder b) = []
            \<and> \<not> (subQueriesMany b = [] \<and> subQueriesOne b = [] \<and> subQueriesVector b = []
                   \<and> subQueriesScalar b = [])
            \<and> \<not> (tableFragments (selectBuilder b) = [] \<and> joinFragments (selectBuilder b) \<noteq> [])
           \<longrightarrow> (\<exists>sql args. SelectDocBuilder_ToSQL env b = Inr (sql, args)))
       \<and> (columns s = [] \<longrightarrow> (\<exists>e. SelectBuilder_ToSQL env s = Inl e))"
proof (intro conjI impI)
  let ?empty = "columns (selectBuilder b) = [] \<and> subQueriesMany b = [] \<and> subQueriesOne b = []
               \<and> subQueriesVector b = [] \<and> subQueriesScalar b = []"
  show "SelectDocBuilder_ToSQL env b = Inl (NewError ''no columns specified'') \<longleftrightarrow> ?empty"
  proof
    assume ?empty
    with assms show "SelectDocBuilder_ToSQL env b = Inl (NewError ''no columns specified'')"
      by (simp add: SelectDocBuilder_ToSQL_def)
  next
    assume e: "SelectDocBuilder_ToSQL env b = Inl (NewError ''no columns specified'')"
    show ?empty
    proof (rule ccontr)
      assume ne: "\<not> ?empty"
      show False
      proof (cases "tableFragments (selectBuilder b) = [] \<and> joinFragments (selectBuilder b) \<noteq> []")
        case True
        with assms ne have "SelectDocBuilder_ToSQL env b
            = Inl (NewError ''joins may only be attached if a from target is specified'')"
          by (auto simp: SelectDocBuilder_ToSQL_def)
        with e show False by (simp add: NewError_def)
      next
        case False
        from SelectDocBuilder_ToSQL_valid [OF assms ne False, of env] e show False by auto
      qed
    qed
  qed
next
  assume "columns (selectBuilder b) = []
            \<and> \<not> (subQueriesMany b = [] \<and> subQueriesOne b = [] \<and> subQueriesVector b = []
                   \<and> subQueriesScalar b = [])
            \<and> \<not> (tableFragments (selectBuilder b) = [] \<and> joinFragments (selectBuilder b) \<noteq> [])"
  then show "\<exists>sql args. SelectDocBuilder_ToSQL env b = Inr (sql, args)"
    using SelectDocBuilder_ToSQL_valid [OF assms, of env] by blast
next
  assume "columns s = []"
  then show "\<exists>e. SelectBuilder_ToSQL env s = Inl e"
    by (simp add: SelectBuilder_ToSQL_def split: option.splits)
qed

theorem doc_no_columns_error_witness:
  "derr exampleBindingsOnly = None
   \<and> columns (selectBuilder exampleBindingsOnly) = []
   \<and> SelectDocBuilder_ToSQL plainEnv exampleBindingsOnly \<noteq> Inl (NewError ''no columns specified'')
   \<and> (\<exists>sql args. SelectDocBuilder_ToSQL plainEnv exampleBindingsOnly = Inr (sql, args))
   \<and> (\<exists>e. SelectBuilder_ToSQL plainEnv (selectBuilder exampleBindingsOnly) = Inl e)"
proof -
  have f: "derr exampleBindingsOnly = None" "columns (selectBuilder exampleBindingsOnly) = []"
    "subQueriesMany exampleBindingsOnly \<noteq> []"
    "tableFragments (selectBuilder exampleBindingsOnly) = []"
    "joinFragments (selectBuilder exampleBindingsOnly) = []"
    by (simp_all add: exampleBindingsOnly_def SelectDocBuilder_Many_def NewSelectDocBuilder_def
          NewSelectBuilder_def SelectBuilder_Columns_def emptySelectBuilder_def)
  from doc_no_columns_error [OF f(1), of plainEnv "selectBuilder exampleBindingsOnly"] f
  show ?thesis by simp
qed

section \<open>SelectDocBuilder: Whitelist\<close>

lemma splitColumns_None: "splitColumns cs m e = None \<longleftrightarrow> ''*'' \<in> set cs"
  by (induction cs arbitrary: m e) auto

lemma splitColumns_Some:
  "splitColumns cs m e = Some (m', e') \<Longrightarrow>
     m' = m @ map butlast (filter (\<lambda>c. c \<noteq> [] \<and> last c = CHR ''*'') cs)
     \<and> e' = e @ filter (\<lambda>c. c \<noteq> [] \<and> last c \<noteq> CHR ''*'') cs"
proof (induction cs arbitrary: m e)
  case Nil
  then show ?case by simp
next
  case (Cons c cs)
  show ?case
  proof (cases "c = []")
    case True
    with Cons show ?thesis by simp
  next
    case False
    with Cons.prems have ne: "c \<noteq> ''*''" by (auto split: if_splits)
    show ?thesis
    proof (cases "last c = CHR ''*''")
      case True
      with Cons.prems False ne have "splitColumns cs (m @ [butlast c]) e = Some (m', e')" by simp
      from Cons.IH [OF this] True False show ?thesis by simp
    next
      case F: False
      with Cons.prems False ne have "splitColumns cs m (e @ [c]) = Some (m', e')" by simp
      from Cons.IH [OF this] F False show ?thesis by simp
    qed
  qed
qed

lemma take_eq_self_length: "take (length c) a = c \<Longrightarrow> length c \<le> length a"
proof -
  assume "take (length c) a = c"
  then have "length (take (length c) a) = length c" by simp
  then show ?thesis by simp
qed

lemma keep_iff_whitelisted:
  assumes "splitColumns cs [] [] = Some (m, e)"
  shows "(list_ex (\<lambda>c. length c \<le> length a \<and> take (length c) a = c) m \<or> list_ex (\<lambda>c. a = c) e)
         \<longleftrightarrow> whitelisted cs a"
proof -
  have m: "m = map butlast (filter (\<lambda>c. c \<noteq> [] \<and> last c = CHR ''*'') cs)"
    and e: "e = filter (\<lambda>c. c \<noteq> [] \<and> last c \<noteq> CHR ''*'') cs"
    using splitColumns_Some [OF assms] by simp_all
  show ?thesis
  proof
    assume "list_ex (\<lambda>c. length c \<le> length a \<and> take (length c) a = c) m \<or> list_ex (\<lambda>c. a = c) e"
    then show "whitelisted cs a"
      unfolding m e whitelisted_def list_ex_iff by auto
  next
    assume "whitelisted cs a"
    then obtain c where c: "c \<in> set cs" "c \<noteq> []"
        "a = c \<or> (last c = CHR ''*'' \<and> take (length (butlast c)) a = butlast c)"
      unfolding whitelisted_def by blast
    show "list_ex (\<lambda>c. length c \<le> length a \<and> take (length c) a = c) m \<or> list_ex (\<lambda>c. a = c) e"
    proof (cases "last c = CHR ''*''")
      case False
      with c have "a = c" "c \<in> set e" unfolding e by auto
      then show ?thesis unfolding list_ex_iff by blast
    next
      case True
      with c have in_m: "butlast c \<in> set m" unfolding m by auto
      have "take (length (butlast c)) a = butlast c"
      proof (cases "a = c")
        case True
        then show ?thesis by (simp add: butlast_conv_take)
      next
        case False
        with c show ?thesis by blast
      qed
      with in_m show ?thesis
        unfolding list_ex_iff using take_eq_self_length by blast
    qed
  qed
qed

lemma pruneSlots_unpruned:
  assumes "splitColumns cs [] [] = Some (m, e)" and "None \<notin> set slots"
  shows "pruneSlots m e slots = Inr (map (pruneBy cs) slots)"
  using assms(2)
proof (induction slots)
  case Nil
  show ?case by simp
next
  case (Cons s slots)
  then obtain sub where s: "s = Some sub" by (cases s) auto
  from Cons have "pruneSlots m e slots = Inr (map (pruneBy cs) slots)" by simp
  then show ?case
    using keep_iff_whitelisted [OF assms(1), of "subAlias sub"]
    by (simp add: s pruneBy_def)
qed

lemma writeMany_skips: "writeMany env slots st = writeMany env (filter (\<lambda>s. s \<noteq> None) slots) st"
proof (induction slots arbitrary: st)
  case Nil
  show ?case by simp
next
  case (Cons s slots)
  then show ?case by (cases s) simp_all
qed

lemma writeOne_skips: "writeOne env slots st = writeOne env (filter (\<lambda>s. s \<noteq> None) slots) st"
proof (induction slots arbitrary: st)
  case Nil
  show ?case by simp
next
  case (Cons s slots)
  then show ?case by (cases s) simp_all
qed

lemma writeVector_skips: "writeVector env slots st = writeVector env (filter (\<lambda>s. s \<noteq> None) slots) st"
proof (induction slots arbitrary: st)
  case Nil
  show ?case by simp
next
  case (Cons s slots)
  then show ?case by (cases s) simp_all
qed

lemma writeScalar_skips: "writeScalar env slots st = writeScalar env (filter (\<lambda>s. s \<noteq> None) slots) st"
proof (induction slots arbitrary: st)
  case Nil
  show ?case by simp
next
  case (Cons s slots)
  then show ?case by (cases s) simp_all
qed

lemma filter_pruneBy:
  "None \<notin> set slots \<Longrightarrow>
     filter (\<lambda>s. s \<noteq> None) (map (pruneBy cs) slots)
       = filter (\<lambda>s. whitelisted cs (subAlias (the s))) slots"
  by (induction slots) (auto simp: pruneBy_def split: option.splits)

lemma Whitelist_noop:
  "cs = [] \<or> ''*'' \<in> set cs \<Longrightarrow> SelectDocBuilder_Whitelist b cs = Inr b"
  using splitColumns_None [of cs "[]" "[]"]
  by (auto simp: SelectDocBuilder_Whitelist_def split: option.splits)

lemma Whitelist_with_unions:
  "SelectDocBuilder_Whitelist b cs = Inr b' \<Longrightarrow>
     subQueriesWith b' = subQueriesWith b \<and> unions b' = unions b \<and> selectBuilder b' = selectBuilder b"
  by (auto simp: SelectDocBuilder_Whitelist_def split: option.splits if_splits sum.splits prod.splits)

text \<open>
  Claim C5, as the code has it. On a builder none of whose MANY, ONE, VECTOR and SCALAR
  slots has been pruned yet, \<open>Whitelist\<close> with a non-empty list that does not contain the
  literal \<open>*\<close> keeps every binding whose alias equals a non-empty entry or starts with what
  precedes the final \<open>*\<close> of an entry, and sets every other slot to nil; a nil slot is
  skipped when the sub-queries are rendered. On every builder a call with an empty list
  or with the literal \<open>*\<close> among its entries returns the builder as it is, and a call
  that returns leaves the WITH and UNION lists as they are.
\<close>

theorem whitelist_prunes:
  assumes "None \<notin> set (subQueriesMany b @ subQueriesOne b @ subQueriesVector b @ subQueriesScalar b)"
  shows "SelectDocBuilder_Whitelist b cs =
           Inr (if cs = [] \<or> ''*'' \<in> set cs then b
                else b\<lparr>subQueriesMany := map (pruneBy cs) (subQueriesMany b),
                       subQueriesOne := map (pruneBy cs) (subQueriesOne b),
                       subQueriesVector := map (pruneBy cs) (subQueriesVector b),
                       subQueriesScalar := map (pruneBy cs) (subQueriesScalar b)\<rparr>)
         \<and> writeMany env (map (pruneBy cs) (subQueriesMany b)) st
             = writeMany env (filter (\<lambda>s. whitelisted cs (subAlias (the s))) (subQueriesMany b)) st
         \<and> writeOne env (map (pruneBy cs) (subQueriesOne b)) st
             = writeOne env (filter (\<lambda>s. whitelisted cs (subAlias (the s))) (subQueriesOne b)) st
         \<and> writeVector env (map (pruneBy cs) (subQueriesVector b)) st
             = writeVector env (filter (\<lambda>s. whitelisted cs (subAlias (the s))) (subQueriesVector b)) st
         \<and> writeScalar env (map (pruneBy cs) (subQueriesScalar b)) st
             = writeScalar env (filter (\<lambda>s. whitelisted cs (subAlias (the s))) (subQueriesScalar b)) st
         \<and> (cs = [] \<or> ''*'' \<in> set cs \<longrightarrow> SelectDocBuilder_Whitelist b2 cs = Inr b2)
         \<and> (\<forall>b'. SelectDocBuilder_Whitelist b2 cs = Inr b' \<longrightarrow>
               subQueriesWith b' = subQueriesWith b2 \<and> unions b' = unions b2)"
proof (intro conjI impI allI)
  show "SelectDocBuilder_Whitelist b cs =
           Inr (if cs = [] \<or> ''*'' \<in> set cs then b
                else b\<lparr>subQueriesMany := map (pruneBy cs) (subQueriesMany b),
                       subQueriesOne := map (pruneBy cs) (subQueriesOne b),
                       subQueriesVector := map (pruneBy cs) (subQueriesVector b),
                       subQueriesScalar := map (pruneBy cs) (subQueriesScalar b)\<rparr>)"
  proof (cases "cs = [] \<or> ''*'' \<in> set cs")
    case True
    then show ?thesis using Whitelist_noop [of cs b] by simp
  next
    case False
    then obtain m e where me: "splitColumns cs [] [] = Some (m, e)"
      using splitColumns_None [of cs "[]" "[]"] by (cases "splitColumns cs [] []") auto
    from assms have "None \<notin> set (subQueriesMany b)" "None \<notin> set (subQueriesOne b)"
      "None \<notin> set (subQueriesVector b)" "None \<notin> set (subQueriesScalar b)" by auto
    then have "pruneSlots m e (subQueriesMany b) = Inr (map (pruneBy cs) (subQueriesMany b))"
      "pruneSlots m e (subQueriesOne b) = Inr (map (pruneBy cs) (subQueriesOne b))"
      "pruneSlots m e (subQueriesVector b) = Inr (map (pruneBy cs) (subQueriesVector b))"
      "pruneSlots m e (subQueriesScalar b) = Inr (map (pruneBy cs) (subQueriesScalar b))"
      using pruneSlots_unpruned [OF me] by blast+
    with False me show ?thesis by (simp add: SelectDocBuilder_Whitelist_def)
  qed
next
  from assms have n: "None \<notin> set (subQueriesMany b)" "None \<notin> set (subQueriesOne b)"
      "None \<notin> set (subQueriesVector b)" "None \<notin> set (subQueriesScalar b)" by auto
  show "writeMany env (map (pruneBy cs) (subQueriesMany b)) st
             = writeMany env (filter (\<lambda>s. whitelisted cs (subAlias (the s))) (subQueriesMany b)) st"
    using writeMany_skips [of env "map (pruneBy cs) (subQueriesMany b)" st] filter_pruneBy [OF n(1), of cs]
    by simp
  show "writeOne env (map (pruneBy cs) (subQueriesOne b)) st
             = writeOne env (filter (\<lambda>s. whitelisted cs (subAlias (the s))) (subQueriesOne b)) st"
    using writeOne_skips [of env "map (pruneBy cs) (subQueriesOne b)" st] filter_pruneBy [OF n(2), of cs]
    by simp
  show "writeVector env (map (pruneBy cs) (subQueriesVector b)) st
             = writeVector env (filter (\<lambda>s. whitelisted cs (subAlias (the s))) (subQueriesVector b)) st"
    using writeVector_skips [of env "map (pruneBy cs) (subQueriesVector b)" st] filter_pruneBy [OF n(3), of cs]
    by simp
  show "writeScalar env (map (pruneBy cs) (subQueriesScalar b)) st
             = writeScalar env (filter (\<lambda>s. whitelisted cs (subAlias (the s))) (subQueriesScalar b)) st"
    using writeScalar_skips [of env "map (pruneBy cs) (subQueriesScalar b)" st] filter_pruneBy [OF n(4), of cs]
    by simp
next
  assume "cs = [] \<or> ''*'' \<in> set cs"
  then show "SelectDocBuilder_Whitelist b2 cs = Inr b2" by (rule Whitelist_noop)
next
  fix b'
  assume "SelectDocBuilder_Whitelist b2 cs = Inr b'"
  then show "subQueriesWith b' = subQueriesWith b2" "unions b' = unions b2"
    using Whitelist_with_unions by blast+
qed

lemma exampleWhitelist_slots:
  "subQueriesMany exampleWhitelist =
     [Some \<lparr>subExpr = Expr ''SELECT g, h FROM f WHERE id= $1'' [IntV 4], subAlias = ''f''\<rparr>,
      Some \<lparr>subExpr = Expr ''SELECT id, y, z FROM x'' [], subAlias = ''x''\<rparr>]"
  "subQueriesOne exampleWhitelist = [Some \<lparr>subExpr = Expr ''SELECT id FROM x'' [], subAlias = ''foo''\<rparr>]"
  "subQueriesVector exampleWhitelist = [Some \<lparr>subExpr = Expr ''SELECT id FROM x'' [], subAlias = ''y''\<rparr>]"
  "subQueriesScalar exampleWhitelist = [Some \<lparr>subExpr = Expr ''SELECT id FROM x'' [], subAlias = ''z''\<rparr>]"
  by (simp_all add: exampleWhitelist_def SelectDocBuilder_From_def SelectDocBuilder_Many_def
        SelectDocBuilder_One_def SelectDocBuilder_Vector_def SelectDocBuilder_Scalar_def
        NewSelectDocBuilder_def)

theorem whitelist_prunes_witness:
  "None \<notin> set (subQueriesMany exampleWhitelist @ subQueriesOne exampleWhitelist
                @ subQueriesVector exampleWhitelist @ subQueriesScalar exampleWhitelist)
   \<and> SelectDocBuilder_Whitelist exampleWhitelist [''f*'', ''x''] =
       Inr (exampleWhitelist
             \<lparr>subQueriesMany := subQueriesMany exampleWhitelist,
              subQueriesOne := subQueriesOne exampleWhitelist,
              subQueriesVector := [None], subQueriesScalar := [None]\<rparr>)
   \<and> SelectDocBuilder_Whitelist exampleWhitelist [''f'', ''*''] = Inr exampleWhitelist"
proof -
  have n: "None \<notin> set (subQueriesMany exampleWhitelist @ subQueriesOne exampleWhitelist
                @ subQueriesVector exampleWhitelist @ subQueriesScalar exampleWhitelist)"
    by (simp add: exampleWhitelist_slots)
  have "SelectDocBuilder_Whitelist exampleWhitelist [''f*'', ''x''] =
       Inr (exampleWhitelist
             \<lparr>subQueriesMany := subQueriesMany exampleWhitelist,
              subQueriesOne := subQueriesOne exampleWhitelist,
              subQueriesVector := [None], subQueriesScalar := [None]\<rparr>)"
    using whitelist_prunes [OF n, of "[''f*'', ''x'']"]
    by (simp add: exampleWhitelist_slots pruneBy_def whitelisted_def)
  moreover have "SelectDocBuilder_Whitelist exampleWhitelist [''f'', ''*''] = Inr exampleWhitelist"
    using whitelist_prunes [OF n, of "[''f'', ''*'']"] by simp
  ultimately show ?thesis using n by blast
qed

text \<open>
  The claim as stated fails for an empty entry: \<open>Whitelist\<close> skips it, so a binding whose
  alias is empty, an exact match of the entry, is pruned.
\<close>

theorem whitelist_empty_entry_counterexample:
  "subQueriesMany exampleEmptyAlias = [Some \<lparr>subExpr = Expr ''SELECT 1'' [], subAlias = []\<rparr>]
   \<and> SelectDocBuilder_Whitelist exampleEmptyAlias [[]]
       = Inr (exampleEmptyAlias\<lparr>subQueriesMany := [None]\<rparr>)"
  by (simp add: exampleEmptyAlias_def SelectDocBuilder_Whitelist_def SelectDocBuilder_Many_def
        NewSelectDocBuilder_def)

text \<open>
  A second call meets the slots the first one has pruned and reads the alias of a nil
  slot: the test's builder, whitelisted once, panics when it is whitelisted again.
\<close>

lemma whitelist_twice_panics:
  "SelectDocBuilder_Whitelist
     (exampleWhitelist\<lparr>subQueriesMany := subQueriesMany exampleWhitelist,
        subQueriesOne := subQueriesOne exampleWhitelist,
        subQueriesVector := [None], subQueriesScalar := [None]\<rparr>) [''f*'', ''x'']
     = Inl (Panic ''nil pointer dereference'')"
  by (simp add: SelectDocBuilder_Whitelist_def exampleWhitelist_slots)

section \<open>Decimal numbers and the remapping of markers\<close>

lemma digit_cases: "d < 10 \<Longrightarrow> d \<in> {0, 1, 2, 3, 4, 5, 6, 7, 8, (9::nat)}"
  by auto

lemma digitChar_isDigit: "d < 10 \<Longrightarrow> isDigit (digitChar d)"
  using digit_cases [of d] by (auto simp: isDigit_def digitChar_def)

lemma digitVal_digitChar: "d < 10 \<Longrightarrow> digitVal (digitChar d) = d"
  using digit_cases [of d] by (auto simp: digitVal_def digitChar_def)

lemma itoa_nonempty: "itoa n \<noteq> []"
  by (subst itoa.simps) simp

lemma itoa_digits: "c \<in> set (itoa n) \<Longrightarrow> isDigit c"
proof (induction n arbitrary: c rule: itoa.induct)
  case (1 n)
  show ?case
  proof (cases "n < 10")
    case True
    with "1.prems" show ?thesis
      by (subst (asm) itoa.simps) (simp add: digitChar_isDigit)
  next
    case False
    with "1.prems" have "c \<in> set (itoa (n div 10)) \<or> c = digitChar (n mod 10)"
      by (subst (asm) itoa.simps) auto
    with False "1.IH" show ?thesis
      by (auto simp: digitChar_isDigit)
  qed
qed

lemma atoi_snoc: "atoi (ds @ [c]) = 10 * atoi ds + digitVal c"
  by (simp add: atoi_def)

lemma atoi_itoa: "atoi (itoa n) = n"
proof (induction n rule: itoa.induct)
  case (1 n)
  show ?case
  proof (cases "n < 10")
    case True
    then show ?thesis
      by (subst itoa.simps) (simp add: atoi_def digitVal_digitChar)
  next
    case False
    then have "atoi (itoa n) = 10 * atoi (itoa (n div 10)) + digitVal (digitChar (n mod 10))"
      by (subst itoa.simps) (simp add: atoi_snoc)
    with False "1.IH" show ?thesis
      by (simp add: digitVal_digitChar)
  qed
qed

lemma takeWhile_itoa:
  "r = [] \<or> \<not> isDigit (hd r) \<Longrightarrow> takeWhile isDigit (itoa n @ r) = itoa n"
  by (cases r) (auto simp: takeWhile_append itoa_digits)

lemma dropWhile_itoa:
  "r = [] \<or> \<not> isDigit (hd r) \<Longrightarrow> dropWhile isDigit (itoa n @ r) = r"
  by (cases r) (auto simp: dropWhile_append itoa_digits)

lemma FormatInt_nonneg: "0 \<le> i \<Longrightarrow> FormatInt i = itoa (nat i)"
  by (simp add: FormatInt_def)

text \<open>The remapped text starts with the character the text starts with.\<close>

lemma remapPlaceholders_Nil_iff [simp]: "remapPlaceholders s pos = [] \<longleftrightarrow> s = []"
  by (cases s) simp_all





lemma starts_nondigit_takeWhile: "cs = [] \<or> \<not> isDigit (hd cs) \<Longrightarrow> takeWhile isDigit cs = []"
  by (cases cs) auto


text \<open>A text without markers is written as it is.\<close>

lemma remapPlaceholders_no_markers: "markers s = [] \<Longrightarrow> remapPlaceholders s pos = s"
  by (induction s pos rule: remapPlaceholders.induct) (auto split: if_splits)

lemma takeWhile_append_nondigit:
  "t = [] \<or> \<not> P (hd t) \<Longrightarrow> takeWhile P (cs @ t) = takeWhile P cs"
  by (induction cs) (auto intro: starts_nondigit_takeWhile simp: takeWhile_eq_Nil_iff)

lemma dropWhile_append_nondigit:
  "t = [] \<or> \<not> P (hd t) \<Longrightarrow> dropWhile P (cs @ t) = dropWhile P cs @ t"
proof (induction cs)
  case Nil
  then show ?case by (cases t) auto
next
  case (Cons c cs)
  then show ?case by simp
qed

text \<open>Remapping splits at a place where no digit follows.\<close>

lemma remapPlaceholders_append:
  "t = [] \<or> \<not> isDigit (hd t) \<Longrightarrow>
     remapPlaceholders (s @ t) pos = remapPlaceholders s pos @ remapPlaceholders t pos"
proof (induction s pos rule: remapPlaceholders.induct)
  case (1 start)
  show ?case by simp
next
  case (2 c cs start)
  have tw: "takeWhile isDigit (cs @ t) = takeWhile isDigit cs"
    using "2.prems" by (rule takeWhile_append_nondigit)
  have dw: "dropWhile isDigit (cs @ t) = dropWhile isDigit cs @ t"
    using "2.prems" by (rule dropWhile_append_nondigit)
  show ?case
  proof (cases "c = CHR ''$'' \<and> takeWhile isDigit cs \<noteq> []")
    case True
    with "2.IH"(1) "2.prems" tw dw show ?thesis by simp
  next
    case False
    with "2.IH"(2) "2.prems" tw show ?thesis by auto
  qed
qed

lemma remap_one_marker: "remapPlaceholders ''$1'' pos = ''$'' @ FormatInt pos"
  by (simp add: isDigit_def atoi_def digitVal_def)

section \<open>The predicate compiler: slices in a map\<close>

lemma writeFragments_append:
  "writeFragments sep l r (xs @ ys) first st =
     writeFragments sep l r ys (first \<and> xs = []) (writeFragments sep l r xs first st)"
proof (induction xs arbitrary: first st)
  case Nil
  show ?case by simp
next
  case (Cons x xs)
  obtain buf args pos where st: "st = (buf, args, pos)" by (cases st)
  show ?case by (simp add: st Cons.IH)
qed

lemma remap_ident_suffix:
  "remapPlaceholders (ident @ '' IN $1'') pos = remapPlaceholders ident pos @ '' IN $'' @ FormatInt pos"
  "remapPlaceholders (ident @ '' = $1'') pos = remapPlaceholders ident pos @ '' = $'' @ FormatInt pos"
  "remapPlaceholders (ident @ '' IS NULL'') pos = remapPlaceholders ident pos @ '' IS NULL''"
  by (simp_all add: remapPlaceholders_append isDigit_def atoi_def digitVal_def)

text \<open>
  Claim C4, for the predicate compiler of section 4.2. \<open>Where\<close> with a map registers
  one condition per entry, after the conditions registered before. Written between the
  parentheses of an AND-joined clause at cursor \<open>n\<close>, whatever was written before: a
  slice of two or more elements gives \<open>col IN $n\<close> and binds the slice as one argument;
  a slice of one element gives \<open>col = $n\<close> and binds the element; a slice of no
  element, nil or not, gives \<open>1=0\<close>, binds nothing and leaves the cursor, wherever it
  stands among the other conditions. The column is written by the dialect and passes
  through the remapping, which leaves it as it is when it holds no marker.
\<close>

theorem where_map_slice:
  "newWhereFragment env (MapV m) a = Inr (map (whereEntry env) m)
   \<and> SelectBuilder_Where env b (MapV m) a
       = b\<lparr>whereFragments := whereFragments b @ [map (whereEntry env) m]\<rparr>
   \<and> writeFragment ''('' '')'' (whereEntry env (col, SliceV (x # y # ys))) (buf, args, pos)
       = (buf @ ''('' @ remapPlaceholders (writeIdentifier env col) pos @ '' IN $'' @ FormatInt pos @ '')'',
          args @ [SliceV (x # y # ys)], pos + 1)
   \<and> writeFragment ''('' '')'' (whereEntry env (col, SliceV [x])) (buf, args, pos)
       = (buf @ ''('' @ remapPlaceholders (writeIdentifier env col) pos @ '' = $'' @ FormatInt pos @ '')'',
          args @ [x], pos + 1)
   \<and> writeFragment ''('' '')'' (whereEntry env (col, SliceV [])) (buf, args, pos)
       = (buf @ ''(1=0)'', args, pos)
   \<and> writeFragment ''('' '')'' (whereEntry env (col, NilSliceV)) (buf, args, pos)
       = (buf @ ''(1=0)'', args, pos)
   \<and> writeFragments '' AND '' ''('' '')'' (before @ whereEntry env (col, SliceV []) # after) first
         (buf, args, pos)
       = (case writeFragments '' AND '' ''('' '')'' before first (buf, args, pos) of
            (buf1, args1, pos1) \<Rightarrow>
              writeFragments '' AND '' ''('' '')'' after False
                (buf1 @ (if first \<and> before = [] then [] else '' AND '') @ ''(1=0)'', args1, pos1))
   \<and> writeFragments '' AND '' ''('' '')'' (before @ whereEntry env (col, NilSliceV) # after) first
         (buf, args, pos)
       = (case writeFragments '' AND '' ''('' '')'' before first (buf, args, pos) of
            (buf1, args1, pos1) \<Rightarrow>
              writeFragments '' AND '' ''('' '')'' after False
                (buf1 @ (if first \<and> before = [] then [] else '' AND '') @ ''(1=0)'', args1, pos1))
   \<and> (markers (writeIdentifier env col) = [] \<longrightarrow>
        remapPlaceholders (writeIdentifier env col) pos = writeIdentifier env col)"
proof (intro conjI impI)
  show "writeFragments '' AND '' ''('' '')'' (before @ whereEntry env (col, SliceV []) # after) first
         (buf, args, pos)
       = (case writeFragments '' AND '' ''('' '')'' before first (buf, args, pos) of
            (buf1, args1, pos1) \<Rightarrow>
              writeFragments '' AND '' ''('' '')'' after False
                (buf1 @ (if first \<and> before = [] then [] else '' AND '') @ ''(1=0)'', args1, pos1))"
    by (simp add: writeFragments_append writeFragment_def split: prod.splits)
next
  show "writeFragments '' AND '' ''('' '')'' (before @ whereEntry env (col, NilSliceV) # after) first
         (buf, args, pos)
       = (case writeFragments '' AND '' ''('' '')'' before first (buf, args, pos) of
            (buf1, args1, pos1) \<Rightarrow>
              writeFragments '' AND '' ''('' '')'' after False
                (buf1 @ (if first \<and> before = [] then [] else '' AND '') @ ''(1=0)'', args1, pos1))"
    by (simp add: writeFragments_append writeFragment_def split: prod.splits)
qed (simp_all add: writeFragment_def remap_ident_suffix remapPlaceholders_no_markers
       SelectBuilder_Where_def)

theorem where_map_slice_witness:
  "markers (writeIdentifier plainEnv ''a'') = []
   \<and> remapPlaceholders (writeIdentifier plainEnv ''a'') 1 = ''a''
   \<and> writeFragment ''('' '')'' (whereEntry plainEnv (''a'', SliceV [IntV 1, IntV 2, IntV 3]))
        (''WHERE '', [], 1)
       = (''WHERE ('' @ ''a'' @ '' IN $'' @ FormatInt 1 @ '')'', [SliceV [IntV 1, IntV 2, IntV 3]], 2)"
proof -
  have w: "writeIdentifier plainEnv ''a'' = ''a''"
    by (simp add: plainEnv_def)
  have m: "markers (writeIdentifier plainEnv ''a'') = []"
    by (simp add: w)
  note th = where_map_slice [where env = plainEnv and col = "''a''" and x = "IntV 1" and y = "IntV 2"
      and ys = "[IntV 3]" and buf = "''WHERE ''" and args = "[]" and pos = 1]
  from th m have r: "remapPlaceholders (writeIdentifier plainEnv ''a'') 1 = writeIdentifier plainEnv ''a''"
    by blast
  from th have "writeFragment ''('' '')'' (whereEntry plainEnv (''a'', SliceV [IntV 1, IntV 2, IntV 3]))
        (''WHERE '', [], 1)
       = (''WHERE '' @ ''('' @ remapPlaceholders (writeIdentifier plainEnv ''a'') 1 @ '' IN $'' @ FormatInt 1 @ '')'',
          [] @ [SliceV [IntV 1, IntV 2, IntV 3]], 1 + 1)"
    by blast
  with r m w show ?thesis by simp
qed

text \<open>The expectations of \<open>TestSelectWhereMapSql\<close> for slices that are not nil, with
  identifiers written as they are, and a nil slice beside another condition.\<close>

lemma TestSelectWhereMapSql_slices:
  "SelectBuilder_ToSQL plainEnv
     (SelectBuilder_Where plainEnv (SelectBuilder_From plainEnv (NewSelectBuilder [''a'']) ''b'' [])
        (MapV [(''a'', SliceV [IntV 1, IntV 2, IntV 3])]) [])
     = Inr (''SELECT a FROM b WHERE (a IN $1)'', [SliceV [IntV 1, IntV 2, IntV 3]])"
  "SelectBuilder_ToSQL plainEnv
     (SelectBuilder_Where plainEnv (SelectBuilder_From plainEnv (NewSelectBuilder [''a'']) ''b'' [])
        (MapV [(''a'', SliceV [IntV 1])]) [])
     = Inr (''SELECT a FROM b WHERE (a = $1)'', [IntV 1])"
  "SelectBuilder_ToSQL plainEnv
     (SelectBuilder_Where plainEnv (SelectBuilder_From plainEnv (NewSelectBuilder [''a'']) ''b'' [])
        (MapV [(''a'', SliceV [])]) [])
     = Inr (''SELECT a FROM b WHERE (1=0)'', [])"
  "SelectBuilder_ToSQL plainEnv
     (SelectBuilder_Where plainEnv
        (SelectBuilder_Where plainEnv (SelectBuilder_From plainEnv (NewSelectBuilder [''a'']) ''b'' [])
           (MapV [(''a'', NilSliceV)]) [])
        (MapV [(''b'', BoolV False)]) [])
     = Inr (''SELECT a FROM b WHERE (1=0) AND (b = $1)'', [BoolV False])"
  by code_simp+

section \<open>InsertBuilder: the DO UPDATE SET list\<close>

text \<open>
  Claim C8. In the \<open>DO UPDATE SET\<close> list every pair is written as its column, \<open>=\<close> and
  its value, the pairs separated by commas. An expression is written with its markers
  remapped at the cursor, its arguments are appended and the cursor advances by their
  number; otherwise a string equal to \<open>EXCLUDED.\<close> followed by the column of the pair is
  written as it is and binds nothing; any other value is written as the placeholder at
  the cursor, is appended to the arguments and advances the cursor by one. The list
  starts at the cursor that the VALUES rows have left.
\<close>

theorem set_pair_rendering:
  "writeSetClauses env (\<lparr>scColumn = col, scValue = ExprV esql eargs\<rparr> # cs) first (sql, args, pos)
     = writeSetClauses env cs False
         (sql @ (if first then [] else '', '') @ writeIdentifier env col @ '' = ''
              @ remapPlaceholders esql pos,
          args @ eargs, pos + int (length eargs))
   \<and> writeSetClauses env (\<lparr>scColumn = col, scValue = StrV (''EXCLUDED.'' @ col)\<rparr> # cs) first
         (sql, args, pos)
     = writeSetClauses env cs False
         (sql @ (if first then [] else '', '') @ writeIdentifier env col @ '' = ''
              @ ''EXCLUDED.'' @ col,
          args, pos)
   \<and> ((\<forall>s a. v \<noteq> ExprV s a) \<and> v \<noteq> StrV (''EXCLUDED.'' @ col) \<longrightarrow>
        writeSetClauses env (\<lparr>scColumn = col, scValue = v\<rparr> # cs) first (sql, args, pos)
          = writeSetClauses env cs False
              (sql @ (if first then [] else '', '') @ writeIdentifier env col @ '' = $''
                   @ FormatInt pos,
               args @ [v], pos + 1))
   \<and> (action act = updateAction \<longrightarrow>
        writeConflictAction env act (sql, args, pos)
          = (case writeSetClauses env (setClauses act) True (sql @ '' DO UPDATE SET '', args, pos) of
               (sql1, args1, pos1) \<Rightarrow>
                 if actionWhereFragments act = [] then (sql1, args1, pos1)
                 else writeAndFragmentsToSQL (actionWhereFragments act)
                        (sql1 @ '' WHERE '', args1, pos1)))"
proof (intro conjI impI)
  assume v: "(\<forall>s a. v \<noteq> ExprV s a) \<and> v \<noteq> StrV (''EXCLUDED.'' @ col)"
  have "writeSetValue env col v (buf, args, pos) = (buf @ '' = $'' @ FormatInt pos, args @ [v], pos + 1)"
    for buf
    using v by (cases v) (auto simp: bindValue_frame excludedColumn_def)
  then show "writeSetClauses env (\<lparr>scColumn = col, scValue = v\<rparr> # cs) first (sql, args, pos)
          = writeSetClauses env cs False
              (sql @ (if first then [] else '', '') @ writeIdentifier env col @ '' = $''
                   @ FormatInt pos,
               args @ [v], pos + 1)"
    by simp
next
  assume "action act = updateAction"
  then show "writeConflictAction env act (sql, args, pos)
          = (case writeSetClauses env (setClauses act) True (sql @ '' DO UPDATE SET '', args, pos) of
               (sql1, args1, pos1) \<Rightarrow>
                 if actionWhereFragments act = [] then (sql1, args1, pos1)
                 else writeAndFragmentsToSQL (actionWhereFragments act)
                        (sql1 @ '' WHERE '', args1, pos1))"
    by (simp add: writeConflictAction_def split: prod.splits)
qed (simp_all add: excludedColumn_def)

lemma exampleUpsert_ToSQL:
  "InsertBuilder_ToSQL plainEnv exampleUpsert =
     Inr (''INSERT INTO a (b,c) VALUES ($1,$2) ON CONFLICT (b) DO UPDATE SET b = EXCLUDED.b, c = $3, d = greatest($4, $5)'',
          [IntV 1, IntV 2, IntV 50, IntV 7, IntV 8])"
  by code_simp

theorem set_pair_rendering_witness:
  "(\<forall>s a. IntV 50 \<noteq> ExprV s a) \<and> IntV 50 \<noteq> StrV (''EXCLUDED.'' @ ''c'')
   \<and> writeSetClauses plainEnv [\<lparr>scColumn = ''c'', scValue = IntV 50\<rparr>] False (''b = EXCLUDED.b'', [IntV 1, IntV 2], 3)
       = (''b = EXCLUDED.b, c = $'' @ FormatInt 3, [IntV 1, IntV 2, IntV 50], 4)
   \<and> InsertBuilder_ToSQL plainEnv exampleUpsert =
       Inr (''INSERT INTO a (b,c) VALUES ($1,$2) ON CONFLICT (b) DO UPDATE SET b = EXCLUDED.b, c = $3, d = greatest($4, $5)'',
            [IntV 1, IntV 2, IntV 50, IntV 7, IntV 8])"
proof -
  have v: "(\<forall>s a. IntV 50 \<noteq> ExprV s a) \<and> IntV 50 \<noteq> StrV (''EXCLUDED.'' @ ''c'')" by simp
  from set_pair_rendering [of plainEnv "''c''" "[]" "[]" "[]" False "''b = EXCLUDED.b''" "[IntV 1, IntV 2]" 3 "IntV 50"] v
  have "writeSetClauses plainEnv [\<lparr>scColumn = ''c'', scValue = IntV 50\<rparr>] False (''b = EXCLUDED.b'', [IntV 1, IntV 2], 3)
       = writeSetClauses plainEnv [] False
              (''b = EXCLUDED.b'' @ (if False then [] else '', '') @ writeIdentifier plainEnv ''c'' @ '' = $''
                   @ FormatInt 3,
               [IntV 1, IntV 2] @ [IntV 50], 3 + 1)"
    by blast
  then have "writeSetClauses plainEnv [\<lparr>scColumn = ''c'', scValue = IntV 50\<rparr>] False (''b = EXCLUDED.b'', [IntV 1, IntV 2], 3)
       = (''b = EXCLUDED.b, c = $'' @ FormatInt 3, [IntV 1, IntV 2, IntV 50], 4)"
    by (simp add: plainEnv_def)
  with v exampleUpsert_ToSQL show ?thesis by blast
qed

section \<open>InsertBuilder: the rows of the VALUES clause\<close>

lemma markers_other: "c \<noteq> CHR ''$'' \<Longrightarrow> markers (c # s) = markers s"
  by simp

lemma markers_placeholder:
  "0 \<le> k \<Longrightarrow> r = [] \<or> \<not> isDigit (hd r) \<Longrightarrow>
     markers (CHR ''$'' # FormatInt k @ r) = nat k # markers r"
proof -
  assume k: "0 \<le> k" and r: "r = [] \<or> \<not> isDigit (hd r)"
  show ?thesis
    by (simp add: FormatInt_nonneg [OF k] takeWhile_itoa [OF r] dropWhile_itoa [OF r] atoi_itoa itoa_nonempty)
qed

lemma markers_joined_placeholders:
  "\<forall>k\<in>set ks. 0 \<le> k \<Longrightarrow>
     markers (joinWith '','' (map (\<lambda>k. CHR ''$'' # FormatInt k) ks) @ CHR '')'' # r)
       = map nat ks @ markers r"
proof (induction ks)
  case Nil
  show ?case by simp
next
  case (Cons k ks)
  show ?case
  proof (cases ks)
    case Nil
    have "markers (CHR ''$'' # FormatInt k @ CHR '')'' # r) = nat k # markers (CHR '')'' # r)"
      using Cons.prems by (intro markers_placeholder) (simp_all add: isDigit_def)
    then show ?thesis using Nil by simp
  next
    case (Cons k' ks')
    let ?rest = "joinWith '','' (map (\<lambda>k. CHR ''$'' # FormatInt k) ks) @ CHR '')'' # r"
    have "markers (CHR ''$'' # FormatInt k @ CHR '','' # ?rest) = nat k # markers (CHR '','' # ?rest)"
      using Cons.prems by (intro markers_placeholder) (simp_all add: isDigit_def)
    moreover have "markers ?rest = map nat ks @ markers r"
      using Cons.IH Cons.prems by simp
    ultimately show ?thesis using Cons by simp
  qed
qed

lemma markers_buildPlaceholders:
  "0 \<le> start \<Longrightarrow>
     markers (buildPlaceholders start n @ r) = map (\<lambda>i. nat start + i) [0..<n] @ markers r"
proof -
  assume s: "0 \<le> start"
  have "markers (buildPlaceholders start n @ r)
      = markers (joinWith '','' (map (\<lambda>k. CHR ''$'' # FormatInt k) (map (\<lambda>i. start + int i) [0..<n]))
                 @ CHR '')'' # r)"
    by (simp add: buildPlaceholders_def comp_def)
  also have "\<dots> = map nat (map (\<lambda>i. start + int i) [0..<n]) @ markers r"
    using s by (intro markers_joined_placeholders) auto
  also have "map nat (map (\<lambda>i. start + int i) [0..<n]) = map (\<lambda>i. nat start + i) [0..<n]"
    using s by (auto simp: nat_add_distrib)
  finally show ?thesis .
qed

lemma map_upt_split:
  "map f [0..<a + b] = map f [0..<a] @ map (\<lambda>i. f (a + i)) [0..<b]"
  by (induction b) simp_all

lemma markers_valuesText:
  "0 \<le> start \<Longrightarrow>
     markers (valuesText first start ws @ r) = map (\<lambda>i. nat start + i) [0..<sum_list ws] @ markers r"
proof (induction ws arbitrary: first start)
  case Nil
  show ?case by simp
next
  case (Cons w ws)
  have "markers (valuesText first start (w # ws) @ r)
      = markers (buildPlaceholders start w @ valuesText False (start + int w) ws @ r)"
    by simp
  also have "\<dots> = map (\<lambda>i. nat start + i) [0..<w] @ markers (valuesText False (start + int w) ws @ r)"
    using Cons.prems by (rule markers_buildPlaceholders)
  also have "markers (valuesText False (start + int w) ws @ r)
      = map (\<lambda>i. nat (start + int w) + i) [0..<sum_list ws] @ markers r"
    using Cons.prems by (intro Cons.IH) simp
  also have "map (\<lambda>i. nat start + i) [0..<w] @ map (\<lambda>i. nat (start + int w) + i) [0..<sum_list ws] @ markers r
      = map (\<lambda>i. nat start + i) [0..<sum_list (w # ws)] @ markers r"
    using Cons.prems by (simp add: map_upt_split nat_add_distrib add.assoc)
  finally show ?case .
qed

lemma valuesText_append:
  "valuesText first start (ws1 @ ws2)
     = valuesText first start ws1 @ valuesText (first \<and> ws1 = []) (start + int (sum_list ws1)) ws2"
  by (induction ws1 arbitrary: first start) (simp_all add: add.assoc)

lemma writeVals_frame:
  "writeVals rows first (sql, args, start)
     = (sql @ valuesText first start (map length rows), args @ concat rows,
        start + int (length (concat rows)))"
  by (induction rows arbitrary: first sql args start) (simp_all add: add.assoc)

lemma valuesFor_Inr: "valuesFor r cs = Inr vs \<Longrightarrow> vs = recordValues cs r"
  by (induction cs arbitrary: vs) (auto simp: recordValues_def split: option.splits sum.splits)

lemma length_recordValues [simp]: "length (recordValues cs r) = length cs"
  by (simp add: recordValues_def)

lemma writeRecords_frame:
  "writeRecords cs rs comma (sql, args, start) = Inr st \<Longrightarrow>
     st = (sql @ valuesText (\<not> comma) start (replicate (length rs) (length cs)),
           args @ concat (map (recordValues cs) rs),
           start + int (length (concat (map (recordValues cs) rs))))"
proof (induction rs arbitrary: comma sql args start)
  case Nil
  then show ?case by simp
next
  case (Cons r rs)
  from Cons.prems obtain vs where vs: "valuesFor r cs = Inr vs" 
    by (cases "valuesFor r cs") auto
  then have v: "vs = recordValues cs r" by (rule valuesFor_Inr)
  from Cons.prems vs have "writeRecords cs rs True
            ((if comma then sql @ '','' else sql) @ buildPlaceholders start (length vs),
             args @ vs, start + int (length vs)) = Inr st" by simp
  from Cons.IH [OF this] show ?case by (simp add: v add.assoc)
qed

lemma sum_list_replicate_nat [simp]: "sum_list (replicate n (w::nat)) = n * w"
  by (induction n) simp_all

lemma length_concat_uniform:
  "\<forall>row\<in>set rows. length row = w \<Longrightarrow> length (concat rows) = length rows * w"
  by (induction rows) simp_all

lemma map_length_uniform:
  "\<forall>row\<in>set rows. length row = w \<Longrightarrow> map length rows = replicate (length rows) w"
  by (induction rows) simp_all

lemma writeOnConflict_frame:
  "\<exists>t more. writeOnConflict env b (sql, args, pos) = (sql @ t, args @ more, pos + int (length more))
     \<and> (\<not> (hasOneConflictTarget (Some (onConflictTarget b))
            \<and> action (onConflictAction b) = updateAction) \<longrightarrow> more = [])"
proof (cases "hasOneConflictTarget (Some (onConflictTarget b))")
  case False
  then show ?thesis
    by (intro exI [of _ "[]"]) (simp add: writeOnConflict_def)
next
  case True
  let ?s = "sql @ '' ON CONFLICT '' @ writeConflictTarget (onConflictTarget b)"
  obtain t a where 1: "writeConflictAction env (onConflictAction b) (?s, args, pos)
        = (?s @ t, args @ a, pos + int (length a))"
     and 2: "action (onConflictAction b) \<noteq> updateAction \<longrightarrow> t = '' DO NOTHING'' \<and> a = []"
    using writeConflictAction_frame [of env "onConflictAction b" ?s args pos] by blast
  show ?thesis
    using True 1 2
    by (intro exI [of _ "'' ON CONFLICT '' @ writeConflictTarget (onConflictTarget b) @ t"] exI [of _ a])
       (simp add: writeOnConflict_def)
qed

lemma values_state:
  assumes wr: "writeRecords cs (records b) (0 < length (vals b))
                 (writeVals (vals b) True (head, [], 1)) = Inr st"
    and w: "\<forall>row\<in>set (vals b). length row = W"
  shows "st = (head @ valuesText True 1
                        (replicate (length (vals b)) W @ replicate (length (records b)) (length cs)),
               concat (vals b) @ concat (map (recordValues cs) (records b)),
               1 + int (length (vals b) * W)
                 + int (length (concat (map (recordValues cs) (records b)))))"
proof -
  let ?N = "length (vals b)" and ?R = "length (records b)"
  let ?recs = "concat (map (recordValues cs) (records b))"
  have widths: "map length (vals b) = replicate ?N W"
    using w by (rule map_length_uniform)
  have len: "length (concat (vals b)) = ?N * W"
    using w by (rule length_concat_uniform)
  have wv: "writeVals (vals b) True (head, [], 1)
      = (head @ valuesText True 1 (replicate ?N W), concat (vals b), 1 + int (?N * W))"
    by (simp add: writeVals_frame widths len)
  have st: "st = ((head @ valuesText True 1 (replicate ?N W))
                    @ valuesText (\<not> 0 < ?N) (1 + int (?N * W)) (replicate ?R (length cs)),
                  concat (vals b) @ ?recs,
                  (1 + int (?N * W)) + int (length ?recs))"
    using wr unfolding wv by (rule writeRecords_frame)
  have groups: "valuesText True 1 (replicate ?N W @ replicate ?R (length cs))
      = valuesText True 1 (replicate ?N W)
          @ valuesText (\<not> 0 < ?N) (1 + int (?N * W)) (replicate ?R (length cs))"
    by (simp add: valuesText_append)
  show ?thesis
    unfolding st groups by (simp only: append_assoc)
qed

lemma markers_values_groups:
  "markers (valuesText True 1 (replicate n w @ replicate r c)) = [1..<Suc (n * w + r * c)]"
proof -
  have "markers (valuesText True 1 (replicate n w @ replicate r c) @ [])
      = map (\<lambda>i. nat 1 + i) [0..<sum_list (replicate n w @ replicate r c)] @ markers []"
    by (rule markers_valuesText) simp
  also have "\<dots> = map Suc [0..<n * w + r * c]" by simp
  also have "\<dots> = [1..<Suc (n * w + r * c)]"
    by (simp only: map_Suc_upt One_nat_def)
  finally show ?thesis by simp
qed

text \<open>
  Claim C7, as the code has it. Of a statement that is rendered, the VALUES clause holds
  one parenthesized group of placeholders per row, the literal rows first and then the
  records in registration order, each record with the width of the resolved columns; with
  N literal rows of width W and R records over C resolved columns the placeholders of the
  clause are numbered from 1 to N * W + R * C from left to right, and the bound arguments
  start with the values of the literal rows, row by row (N * W of them), followed by the
  values of the records in the order of the resolved columns. Nothing else is bound
  unless a \<open>DO UPDATE\<close> action is rendered, whose values follow.
\<close>

theorem values_rows:
  assumes "InsertBuilder_ToSQL env b = Inr (sql, args)"
    and "\<forall>row\<in>set (vals b). length row = W"
  shows "\<exists>cs groups tail more.
      resolveColumns b = Inr cs
    \<and> groups = valuesText True 1
                 (replicate (length (vals b)) W @ replicate (length (records b)) (length cs))
    \<and> sql = (''INSERT INTO '' @ table b @ '' ('' @ joinWith '','' (map (writeIdentifier env) cs)
              @ '') VALUES '') @ groups @ tail
    \<and> markers groups = [1..<Suc (length (vals b) * W + length (records b) * length cs)]
    \<and> args = concat (vals b) @ concat (map (recordValues cs) (records b)) @ more
    \<and> length (concat (vals b)) = length (vals b) * W
    \<and> (\<not> (hasOneConflictTarget (Some (onConflictTarget b))
           \<and> action (onConflictAction b) = updateAction) \<longrightarrow> more = [])"
proof -
  let ?N = "length (vals b)" and ?R = "length (records b)"
  from InsertBuilder_ToSQL_Inr [OF assms(1)] obtain cs st where
    rc: "resolveColumns b = Inr cs"
    and wr: "writeRecords cs (records b) (length (vals b) > 0)
       (writeVals (vals b) True
          (''INSERT INTO '' @ table b @ '' ('' @ joinWith '','' (map (writeIdentifier env) cs) @ '') VALUES '', [], 1)) = Inr st"
    and sql: "sql = fst (writeOnConflict env b st) @ writeReturning env (returnings b)"
    and args: "args = fst (snd (writeOnConflict env b st))"
    by (elim exE conjE) (rule that)
  define head where "head = ''INSERT INTO '' @ table b @ '' ('' @ joinWith '','' (map (writeIdentifier env) cs) @ '') VALUES ''"
  define groups where "groups = valuesText True 1 (replicate ?N W @ replicate ?R (length cs))"
  define recs where "recs = concat (map (recordValues cs) (records b))"
  have st: "st = (head @ groups, concat (vals b) @ recs, 1 + int (?N * W) + int (length recs))"
    unfolding head_def groups_def recs_def using wr assms(2) by (rule values_state)
  obtain t more where
    oc: "writeOnConflict env b
             (head @ groups, concat (vals b) @ recs, 1 + int (?N * W) + int (length recs))
           = ((head @ groups) @ t, (concat (vals b) @ recs) @ more,
              1 + int (?N * W) + int (length recs) + int (length more))"
    and more: "\<not> (hasOneConflictTarget (Some (onConflictTarget b))
           \<and> action (onConflictAction b) = updateAction) \<longrightarrow> more = []"
    using writeOnConflict_frame [of env b "head @ groups" "concat (vals b) @ recs"
        "1 + int (?N * W) + int (length recs)"]
    by (elim exE conjE) (rule that)
  have m: "markers groups = [1..<Suc (?N * W + ?R * length cs)]"
    unfolding groups_def by (rule markers_values_groups)
  have len: "length (concat (vals b)) = ?N * W"
    using assms(2) by (rule length_concat_uniform)
  have s: "sql = head @ groups @ (t @ writeReturning env (returnings b))"
    using sql unfolding st oc by simp
  have a: "args = concat (vals b) @ recs @ more"
    using args unfolding st oc by simp
  show ?thesis
    using rc s m a len more
    unfolding head_def recs_def
    by (intro exI [of _ cs] exI [of _ groups] exI [of _ "t @ writeReturning env (returnings b)"]
          exI [of _ more] conjI groups_def)
qed

lemma exampleRows_eq:
  "exampleRows = \<lparr>table = ''a'', cols = [''b'', ''c''], isBlacklist = False,
        vals = [[IntV 1, IntV 2], [IntV 3, IntV 4]], records = [[(''c'', IntV 6), (''b'', IntV 5)]],
        onConflictTarget = \<lparr>column = [], constraint = [], indexPredicate = []\<rparr>,
        onConflictAction = \<lparr>action = [], setClauses = [], actionWhereFragments = []\<rparr>,
        returnings = [], ierr = None\<rparr>"
  by (simp add: exampleRows_def insertChain_def NewInsertBuilder_def
        InsertBuilder_Columns_def InsertBuilder_Whitelist_def InsertBuilder_Values_def
        InsertBuilder_Record_def)

lemma exampleRows_fields:
  "vals exampleRows = [[IntV 1, IntV 2], [IntV 3, IntV 4]]"
  "records exampleRows = [[(''c'', IntV 6), (''b'', IntV 5)]]"
  "resolveColumns exampleRows = Inr [''b'', ''c'']"
  by (simp_all add: exampleRows_eq resolveColumns_def)

lemma placeholders_1_6:
  "buildPlaceholders 1 (Suc (Suc 0)) = ''($1,$2)''"
  "buildPlaceholders 3 (Suc (Suc 0)) = ''($3,$4)''"
  "buildPlaceholders 5 (Suc (Suc 0)) = ''($5,$6)''"
  by code_simp+

lemma exampleRows_ToSQL:
  "InsertBuilder_ToSQL plainEnv exampleRows =
     Inr (''INSERT INTO a (b,c) VALUES ($1,$2),($3,$4),($5,$6)'',
          [IntV 1, IntV 2, IntV 3, IntV 4, IntV 5, IntV 6])"
  by (simp add: InsertBuilder_ToSQL_def exampleRows_eq resolveColumns_def placeholders_1_6
        writeOnConflict_def hasOneConflictTarget_def writeReturning_def plainEnv_def)

theorem values_rows_witness:
  "InsertBuilder_ToSQL plainEnv exampleRows =
     Inr (''INSERT INTO a (b,c) VALUES ($1,$2),($3,$4),($5,$6)'',
          [IntV 1, IntV 2, IntV 3, IntV 4, IntV 5, IntV 6])
   \<and> vals exampleRows = [[IntV 1, IntV 2], [IntV 3, IntV 4]]
   \<and> markers (valuesText True 1 (replicate 2 2 @ replicate 1 2)) = [1..<Suc (2 * 2 + 1 * 2)]
   \<and> (\<exists>more. [IntV 1, IntV 2, IntV 3, IntV 4, IntV 5, IntV 6]
         = concat (vals exampleRows)
           @ concat (map (recordValues [''b'', ''c'']) (records exampleRows)) @ more)"
proof -
  have w: "\<forall>row\<in>set (vals exampleRows). length row = 2"
    by (simp add: exampleRows_fields)
  from values_rows [OF exampleRows_ToSQL w] obtain cs more where
    rc: "resolveColumns exampleRows = Inr cs"
    and m: "markers (valuesText True 1
              (replicate (length (vals exampleRows)) 2 @ replicate (length (records exampleRows)) (length cs)))
            = [1..<Suc (length (vals exampleRows) * 2 + length (records exampleRows) * length cs)]"
    and a: "[IntV 1, IntV 2, IntV 3, IntV 4, IntV 5, IntV 6]
         = concat (vals exampleRows) @ concat (map (recordValues cs) (records exampleRows)) @ more"
    by blast
  from rc have cs: "cs = [''b'', ''c'']" by (simp add: exampleRows_fields)
  have l: "length (vals exampleRows) = 2" "length (records exampleRows) = 1" "length cs = 2"
    by (simp_all add: cs exampleRows_fields)
  from m have "markers (valuesText True 1 (replicate 2 2 @ replicate 1 2)) = [1..<Suc (2 * 2 + 1 * 2)]"
    by (simp only: l)
  moreover from a have "\<exists>more. [IntV 1, IntV 2, IntV 3, IntV 4, IntV 5, IntV 6]
         = concat (vals exampleRows)
           @ concat (map (recordValues [''b'', ''c'']) (records exampleRows)) @ more"
    unfolding cs by (rule exI)
  ultimately show ?thesis using exampleRows_ToSQL exampleRows_fields(1) by (intro conjI)
qed

text \<open>
  The insert of the test \<open>TestInsertOnConflictSet\<close> has one literal row of width 2 and no
  record; its statement has three placeholders and binds three arguments.
\<close>

theorem values_rows_counterexample:
  "vals exampleRowAndSet = [[IntV 1, IntV 2]] \<and> records exampleRowAndSet = []
   \<and> InsertBuilder_ToSQL plainEnv exampleRowAndSet =
       Inr (''INSERT INTO a (b,c) VALUES ($1,$2) ON CONFLICT (b) DO UPDATE SET b = $3'',
            [IntV 1, IntV 2, IntV 50])
   \<and> markers ''INSERT INTO a (b,c) VALUES ($1,$2) ON CONFLICT (b) DO UPDATE SET b = $3'' = [1, 2, 3]
   \<and> length [IntV 1, IntV 2, IntV 50] \<noteq> 1 * 2"
  by code_simp

section \<open>Embedding a fragment at the cursor\<close>
















section \<open>Recorded errors\<close>

lemma ierr_Set:
  "ierr b = Some e \<Longrightarrow> ierr (InsertBuilder_Set b c v) = Some e"
  by (simp add: InsertBuilder_Set_def)

lemma ierr_SetMap:
  "ierr b = Some e \<Longrightarrow> ierr (InsertBuilder_SetMap b m) = Some e"
  by (induction b m rule: InsertBuilder_SetMap.induct) (simp_all add: ierr_Set)

lemma ierr_applyInsertCall:
  "ierr b = Some e \<Longrightarrow> \<not> assignsError env c \<Longrightarrow> ierr (applyInsertCall env b c) = Some e"
  by (cases c)
     (auto simp: InsertBuilder_Columns_def InsertBuilder_Whitelist_def InsertBuilder_Blacklist_def
        InsertBuilder_Values_def InsertBuilder_Record_def InsertBuilder_OnConflictColumn_def
        InsertBuilder_OnConflictConstraint_def InsertBuilder_OnConflictWhere_def
        InsertBuilder_Where_def InsertBuilder_Returning_def ierr_Set ierr_SetMap
        split: sum.splits)

lemma ierr_insertChain:
  "ierr b = Some e \<Longrightarrow> \<forall>c\<in>set calls. \<not> assignsError env c \<Longrightarrow>
     ierr (insertChain env b calls) = Some e"
  unfolding insertChain_def
  by (induction calls arbitrary: b) (auto simp: ierr_applyInsertCall)

text \<open>
  Where the sources keep the first error. Each \<open>ToSQL\<close> returns the error in the
  \<open>err\<close> field it tests before it renders anything. \<open>InsertBuilder.Set\<close> without a
  conflict target and \<open>InsertBuilder.Where\<close> without the UPDATE action record their error
  only when none is recorded, change nothing else and return the receiver; a chain of
  calls without \<open>Pair\<close> and without a \<open>Where\<close> whose predicate does not compile keeps a
  recorded error. \<open>SelectDocBuilder.With\<close>, for an argument that is neither nil nor a
  slice, does nothing when an error is recorded.
\<close>

lemma first_error_guards:
  "(ierr b = Some e \<longrightarrow> InsertBuilder_ToSQL env b = Inl e)
   \<and> (serr sb = Some e \<longrightarrow> SelectBuilder_ToSQL env sb = Inl e)
   \<and> (derr db = Some e \<longrightarrow> SelectDocBuilder_ToSQL env db = Inl e)
   \<and> (\<not> hasOneConflictTarget (Some (onConflictTarget b)) \<longrightarrow>
        InsertBuilder_Set b c v
          = (if ierr b = None
             then b\<lparr>ierr := Some (NewError ''A conflict_target must be provided for ON CONFLICT DO UPDATE'')\<rparr>
             else b))
   \<and> (action (onConflictAction b) \<noteq> updateAction \<longrightarrow>
        InsertBuilder_Where env b w a
          = (if ierr b = None
             then b\<lparr>ierr := Some (NewError ''conflict_action must be equal to UPDATE'')\<rparr>
             else b))
   \<and> (ierr b = Some e \<and> (\<forall>call\<in>set calls. \<not> assignsError env call) \<longrightarrow>
        ierr (insertChain env b calls) = Some e)
   \<and> (derr db = Some e \<and> arg \<noteq> ArgNil \<and> (\<forall>sl. arg \<noteq> ArgSlice sl) \<longrightarrow>
        SelectDocBuilder_With env db col arg a = Inr (db, arg))"
proof (intro conjI impI)
  assume "derr db = Some e \<and> arg \<noteq> ArgNil \<and> (\<forall>sl. arg \<noteq> ArgSlice sl)"
  then show "SelectDocBuilder_With env db col arg a = Inr (db, arg)"
    by (cases arg) (simp_all add: SelectDocBuilder_With_def)
next
  assume "ierr b = Some e \<and> (\<forall>call\<in>set calls. \<not> assignsError env call)"
  then show "ierr (insertChain env b calls) = Some e"
    by (simp add: ierr_insertChain)
qed (simp_all add: InsertBuilder_ToSQL_def SelectBuilder_ToSQL_def SelectDocBuilder_ToSQL_def
       InsertBuilder_Set_def InsertBuilder_Where_def)

lemma exampleFailed_eq:
  "exampleFailed = \<lparr>table = ''a'', cols = [''b''], isBlacklist = False,
        vals = [[IntV 1], [IntV 2]], records = [],
        onConflictTarget = \<lparr>column = [], constraint = [], indexPredicate = []\<rparr>,
        onConflictAction = \<lparr>action = [], setClauses = [], actionWhereFragments = []\<rparr>,
        returnings = [],
        ierr = Some (NewError ''A conflict_target must be provided for ON CONFLICT DO UPDATE'')\<rparr>"
  by (simp add: exampleFailed_def insertChain_def NewInsertBuilder_def
        InsertBuilder_Columns_def InsertBuilder_Whitelist_def InsertBuilder_Values_def
        InsertBuilder_Set_def hasOneConflictTarget_def)

lemma exampleSwallowed_ToSQL:
  "SelectDocBuilder_ToSQL plainEnv
     (fst (SelectDocBuilder_Many plainEnv
             (fst (SelectDocBuilder_Many plainEnv (NewSelectDocBuilder [''a'']) ''m'' ArgOther []))
             ''n'' (ArgString ''SELECT 1'') []))
     = Inr (''SELECT row_to_json(dat__item.*) FROM ( SELECT a, (SELECT array_agg(dat__n.*) FROM (SELECT 1) AS dat__n) AS n) as dat__item'', [])"
  by code_simp

lemma exampleBindingsOnly_ToSQL:
  "SelectDocBuilder_ToSQL plainEnv exampleBindingsOnly
     = Inr (''SELECT row_to_json(dat__item.*) FROM ( SELECT , (SELECT array_agg(dat__x.*) FROM (SELECT 1) AS dat__x) AS x) as dat__item'', [])"
  by code_simp

text \<open>
  Claim C3 does not hold of the code. The calls that embed a sub-query assign what
  \<open>storeExpr\<close> returns, nil included: after a \<open>Many\<close> that records an error, a second
  \<open>Many\<close> clears it, and \<open>ToSQL\<close> returns a statement and no error (\<open>With\<close> has the guard
  that \<open>Many\<close>, \<open>Vector\<close>, \<open>One\<close>, \<open>Scalar\<close>, \<open>Union\<close> and \<open>UnionAll\<close> lack).
  \<open>InsertBuilder.Pair\<close> on a builder with two literal rows puts its own error in the place
  of the one that \<open>Set\<close> had recorded, and \<open>ToSQL\<close> returns the later error (\<open>Set\<close> has
  the guard that \<open>Pair\<close> lacks). \<open>SelectBuilder.Columns\<close> without a column records its error
  and returns nil, where every other call returns the receiver. The error that \<open>Columns\<close>
  records on the embedded \<open>SelectBuilder\<close> of a document builder is not in the \<open>err\<close> field
  that \<open>SelectDocBuilder.ToSQL\<close> tests, and the document renders.
\<close>

theorem error_policy_divergence:
  "derr (fst (SelectDocBuilder_Many plainEnv (NewSelectDocBuilder [''a'']) ''m'' ArgOther []))
     = Some (NewError ''SelectDocBuilder.Many: sqlOrbuilder accepts only {string, Builder, *SelectDocBuilder} type'')
   \<and> derr (fst (SelectDocBuilder_Many plainEnv
              (fst (SelectDocBuilder_Many plainEnv (NewSelectDocBuilder [''a'']) ''m'' ArgOther []))
              ''n'' (ArgString ''SELECT 1'') [])) = None
   \<and> SelectDocBuilder_ToSQL plainEnv
        (fst (SelectDocBuilder_Many plainEnv
                (fst (SelectDocBuilder_Many plainEnv (NewSelectDocBuilder [''a'']) ''m'' ArgOther []))
                ''n'' (ArgString ''SELECT 1'') []))
       = Inr (''SELECT row_to_json(dat__item.*) FROM ( SELECT a, (SELECT array_agg(dat__n.*) FROM (SELECT 1) AS dat__n) AS n) as dat__item'', [])
   \<and> ierr exampleFailed = Some (NewError ''A conflict_target must be provided for ON CONFLICT DO UPDATE'')
   \<and> InsertBuilder_ToSQL plainEnv (InsertBuilder_Pair exampleFailed ''c'' (IntV 4))
       = Inl (Error ''pair only allows you to specify 1 record to insert'')
   \<and> NewError ''A conflict_target must be provided for ON CONFLICT DO UPDATE''
       \<noteq> Error ''pair only allows you to specify 1 record to insert''
   \<and> SelectBuilder_Columns (NewSelectBuilder [''a'']) []
       = ((NewSelectBuilder [''a''])\<lparr>serr := Some (Error ''Select requires 1 or more columns'')\<rparr>, None)
   \<and> serr (selectBuilder exampleBindingsOnly) = Some (Error ''Select requires 1 or more columns'')
   \<and> SelectDocBuilder_ToSQL plainEnv exampleBindingsOnly
       = Inr (''SELECT row_to_json(dat__item.*) FROM ( SELECT , (SELECT array_agg(dat__x.*) FROM (SELECT 1) AS dat__x) AS x) as dat__item'', [])"
proof -
  have 1: "derr (fst (SelectDocBuilder_Many plainEnv (NewSelectDocBuilder [''a'']) ''m'' ArgOther []))
     = Some (NewError ''SelectDocBuilder.Many: sqlOrbuilder accepts only {string, Builder, *SelectDocBuilder} type'')"
    by (simp add: SelectDocBuilder_Many_def)
  have 2: "derr (fst (SelectDocBuilder_Many plainEnv
              (fst (SelectDocBuilder_Many plainEnv (NewSelectDocBuilder [''a'']) ''m'' ArgOther []))
              ''n'' (ArgString ''SELECT 1'') [])) = None"
    by (simp add: SelectDocBuilder_Many_def)
  have 3: "InsertBuilder_ToSQL plainEnv (InsertBuilder_Pair exampleFailed ''c'' (IntV 4))
       = Inl (Error ''pair only allows you to specify 1 record to insert'')"
    by (simp add: InsertBuilder_ToSQL_def exampleFailed_eq InsertBuilder_Pair_def)
  have 4: "SelectBuilder_Columns (NewSelectBuilder [''a'']) []
       = ((NewSelectBuilder [''a''])\<lparr>serr := Some (Error ''Select requires 1 or more columns'')\<rparr>, None)"
    by (simp add: SelectBuilder_Columns_def)
  have 5: "serr (selectBuilder exampleBindingsOnly) = Some (Error ''Select requires 1 or more columns'')"
    by (simp add: exampleBindingsOnly_def SelectDocBuilder_Many_def NewSelectDocBuilder_def
          NewSelectBuilder_def SelectBuilder_Columns_def)
  have 6: "ierr exampleFailed = Some (NewError ''A conflict_target must be provided for ON CONFLICT DO UPDATE'')"
    by (simp add: exampleFailed_eq)
  have 7: "NewError ''A conflict_target must be provided for ON CONFLICT DO UPDATE''
       \<noteq> Error ''pair only allows you to specify 1 record to insert''"
    by (simp add: NewError_def)
  show ?thesis
    using 1 2 3 4 5 6 7 exampleSwallowed_ToSQL exampleBindingsOnly_ToSQL by (intro conjI)
qed

section \<open>ToSQL is repeatable\<close>

lemma goAppend_elems:
  assumes "len s \<le> length (arrays h (arr s))" and "goAppend h s x = (h', s')"
  shows "sliceElems h' s' = sliceElems h s @ [x]"
proof (cases "len s < length (arrays h (arr s))")
  case True
  with assms(2) have h': "h' = h\<lparr>arrays := (arrays h)(arr s := (arrays h (arr s))[len s := x])\<rparr>"
    and s': "s' = s\<lparr>len := len s + 1\<rparr>"
    by (simp_all add: goAppend_def)
  have "take (Suc (len s)) ((arrays h (arr s))[len s := x]) = take (len s) (arrays h (arr s)) @ [x]"
    using True by (simp add: take_Suc_conv_app_nth)
  then show ?thesis by (simp add: sliceElems_def h' s')
next
  case False
  with assms(2) have h': "h' = h\<lparr>arrays := (arrays h)(fresh h := take (len s) (arrays h (arr s)) @ [x]),
              fresh := fresh h + 1\<rparr>"
    and s': "s' = \<lparr>arr = fresh h, len = len s + 1\<rparr>"
    by (simp_all add: goAppend_def)
  from False assms(1) have "len s = length (arrays h (arr s))" by simp
  then show ?thesis by (simp add: sliceElems_def h' s')
qed

lemma goAppend_frame:
  assumes "wfMem h fs s" and "goAppend h s x = (h', s')"
  shows "wfMem h' fs s"
proof (cases "len s < length (arrays h (arr s))")
  case True
  with assms(2) have h': "h' = h\<lparr>arrays := (arrays h)(arr s := (arrays h (arr s))[len s := x])\<rparr>"
    by (simp add: goAppend_def)
  show ?thesis using assms(1) by (simp add: wfMem_def sliceElems_def h')
next
  case False
  with assms(2) have h': "h' = h\<lparr>arrays := (arrays h)(fresh h := take (len s) (arrays h (arr s)) @ [x]),
              fresh := fresh h + 1\<rparr>"
    by (simp add: goAppend_def)
  show ?thesis using assms(1) by (auto simp: wfMem_def sliceElems_def h')
qed

text \<open>On a well-formed memory the scope on the heap gives what \<open>writeScope\<close> gives, and
  leaves the memory well formed for the same builder.\<close>

lemma scopeRun_writeScope:
  assumes wf: "wfMem h (whereFragments b) s"
  shows "(case scopeRun env h b s from st of
            Inl e \<Rightarrow> writeScope env b from st = Inl e
          | Inr (h', st2, fs) \<Rightarrow>
              writeScope env b from st = Inr (st2, fs) \<and> wfMem h' (whereFragments b) s)"
proof (cases "scope b")
  case None
  then show ?thesis using wf by (simp add: scopeRun_def writeScope_def wfMem_def)
next
  case (Some sc)
  obtain sql args2 where sc: "sc from = (sql, args2)" by (cases "sc from")
  obtain sql1 wh where sp: "splitWhere env sql = (sql1, wh)" by (cases "splitWhere env sql")
  show ?thesis
  proof (cases "wh \<noteq> []")
    case False
    then show ?thesis using wf Some sc sp by (simp add: scopeRun_def writeScope_def wfMem_def)
  next
    case True
    show ?thesis
    proof (cases "newWhereFragment env (StrV wh) args2")
      case (Inl e)
      then show ?thesis using Some sc sp True by (simp add: scopeRun_def writeScope_def)
    next
      case (Inr fragment)
      obtain h' s' where ap: "goAppend h s fragment = (h', s')" by (cases "goAppend h s fragment")
      have el: "sliceElems h' s' = whereFragments b @ [fragment]"
        using goAppend_elems [OF _ ap] wf by (simp add: wfMem_def)
      have fr: "wfMem h' (whereFragments b) s" using wf ap by (rule goAppend_frame)
      show ?thesis using Some sc sp True Inr ap el fr
        by (simp add: scopeRun_def writeScope_def)
    qed
  qed
qed

lemma SelectBuilder_ToSQL_run_sound:
  assumes wf: "wfMem h (whereFragments b) s"
    and run: "SelectBuilder_ToSQL_run env h (b, s) = (r, h')"
  shows "r = SelectBuilder_ToSQL env b \<and> wfMem h' (whereFragments b) s"
proof (cases "serr b = None \<and> length (columns b) \<noteq> 0
              \<and> \<not> (length (tableFragments b) = 0 \<and> length (joinFragments b) > 0)")
  case False
  then show ?thesis using run wf
    by (auto simp: SelectBuilder_ToSQL_run_def SelectBuilder_ToSQL_def split: option.splits)
next
  case True
  obtain frm st1 where f: "writeFromClause False b (''SELECT '' @ writeDistinctColumns b, [], 1) = (frm, st1)"
    by (cases "writeFromClause False b (''SELECT '' @ writeDistinctColumns b, [], 1)")
  note sc = scopeRun_writeScope [OF wf, of env frm st1]
  show ?thesis
  proof (cases "scopeRun env h b s frm st1")
    case (Inl e)
    with sc have "writeScope env b frm st1 = Inl e" by simp
    with True f Inl run wf show ?thesis
      by (auto simp: SelectBuilder_ToSQL_run_def SelectBuilder_ToSQL_def)
  next
    case (Inr x)
    obtain h1 st2 fs where x: "x = (h1, st2, fs)" by (cases x)
    with sc Inr have w: "writeScope env b frm st1 = Inr (st2, fs)" and wf1: "wfMem h1 (whereFragments b) s"
      by simp_all
    from True f Inr x w run wf1 show ?thesis
      by (auto simp: SelectBuilder_ToSQL_run_def SelectBuilder_ToSQL_def split: prod.splits)
  qed
qed

lemma SelectDocBuilder_ToSQL_run_sound:
  assumes wf: "wfMem h (whereFragments (selectBuilder b)) s"
    and run: "SelectDocBuilder_ToSQL_run env h (b, s) = (r, h')"
  shows "r = SelectDocBuilder_ToSQL env b \<and> wfMem h' (whereFragments (selectBuilder b)) s"
proof (cases "derr b = None \<and> length (columns (selectBuilder b)) + length (subQueriesMany b)
                  + length (subQueriesOne b) + length (subQueriesScalar b)
                  + length (subQueriesVector b) \<noteq> 0
              \<and> \<not> (length (tableFragments (selectBuilder b)) = 0
                     \<and> length (joinFragments (selectBuilder b)) > 0)")
  case False
  then show ?thesis using run wf
    by (auto simp: SelectDocBuilder_ToSQL_run_def SelectDocBuilder_ToSQL_def split: option.splits)
next
  case True
  show ?thesis
  proof (cases "innerSQL b")
    case (Some e)
    with True run wf show ?thesis
      by (auto simp: SelectDocBuilder_ToSQL_run_def SelectDocBuilder_ToSQL_def split: prod.splits)
  next
    case None
    obtain frm st1 where f: "writeFromClause True (selectBuilder b) (writeDocHead env b) = (frm, st1)"
      by (cases "writeFromClause True (selectBuilder b) (writeDocHead env b)")
    note sc = scopeRun_writeScope [OF wf, of env frm st1]
    show ?thesis
    proof (cases "scopeRun env h (selectBuilder b) s frm st1")
      case (Inl e)
      with sc have "writeScope env (selectBuilder b) frm st1 = Inl e" by simp
      with True None f Inl run wf show ?thesis
        by (auto simp: SelectDocBuilder_ToSQL_run_def SelectDocBuilder_ToSQL_def writeDocBody_def)
    next
      case (Inr x)
      obtain h1 st2 fs where x: "x = (h1, st2, fs)" by (cases x)
      with sc Inr have w: "writeScope env (selectBuilder b) frm st1 = Inr (st2, fs)"
        and wf1: "wfMem h1 (whereFragments (selectBuilder b)) s"
        by simp_all
      from True None f Inr x w run wf1 show ?thesis
        by (auto simp: SelectDocBuilder_ToSQL_run_def SelectDocBuilder_ToSQL_def writeDocBody_def
              split: prod.splits)
    qed
  qed
qed

text \<open>The arrays in use that the header does not point to are left as they are.\<close>

lemma goAppend_others:
  assumes "goAppend h s x = (h', s')" and "a < fresh h" and "a \<noteq> arr s"
  shows "arrays h' a = arrays h a"
  using assms by (auto simp: goAppend_def split: if_splits)

lemma scopeRun_others:
  assumes "scopeRun env h b s from st = Inr (h', st2, fs)" and "a < fresh h" and "a \<noteq> arr s"
  shows "arrays h' a = arrays h a"
proof (cases "scope b")
  case None
  with assms(1) show ?thesis by (simp add: scopeRun_def)
next
  case (Some sc)
  obtain sql args2 where sc: "sc from = (sql, args2)" by (cases "sc from")
  obtain sql1 wh where sp: "splitWhere env sql = (sql1, wh)" by (cases "splitWhere env sql")
  show ?thesis
  proof (cases "wh \<noteq> []")
    case False
    with assms(1) Some sc sp show ?thesis by (simp add: scopeRun_def)
  next
    case True
    show ?thesis
    proof (cases "newWhereFragment env (StrV wh) args2")
      case (Inl e)
      with assms(1) Some sc sp True show ?thesis by (simp add: scopeRun_def)
    next
      case (Inr fragment)
      obtain h1 s1 where ap: "goAppend h s fragment = (h1, s1)" by (cases "goAppend h s fragment")
      with assms(1) Some sc sp True Inr have "h' = h1" by (simp add: scopeRun_def)
      with goAppend_others [OF ap assms(2,3)] show ?thesis by simp
    qed
  qed
qed

lemma SelectBuilder_ToSQL_run_others:
  assumes run: "SelectBuilder_ToSQL_run env h (b, s) = (r, h')" and "a < fresh h" and "a \<noteq> arr s"
  shows "arrays h' a = arrays h a"
proof (cases "h' = h")
  case True
  then show ?thesis by simp
next
  case False
  obtain frm st1 where f: "writeFromClause False b (''SELECT '' @ writeDistinctColumns b, [], 1) = (frm, st1)"
    by (cases "writeFromClause False b (''SELECT '' @ writeDistinctColumns b, [], 1)")
  from run False f obtain st2 fs where "scopeRun env h b s frm st1 = Inr (h', st2, fs)"
    by (auto simp: SelectBuilder_ToSQL_run_def split: option.splits if_splits sum.splits prod.splits)
  from scopeRun_others [OF this assms(2,3)] show ?thesis .
qed

lemma SelectDocBuilder_ToSQL_run_others:
  assumes run: "SelectDocBuilder_ToSQL_run env h (b, s) = (r, h')" and "a < fresh h" and "a \<noteq> arr s"
  shows "arrays h' a = arrays h a"
proof (cases "h' = h")
  case True
  then show ?thesis by simp
next
  case False
  obtain frm st1 where f: "writeFromClause True (selectBuilder b) (writeDocHead env b) = (frm, st1)"
    by (cases "writeFromClause True (selectBuilder b) (writeDocHead env b)")
  from run False f obtain st2 fs where "scopeRun env h (selectBuilder b) s frm st1 = Inr (h', st2, fs)"
    by (auto simp: SelectDocBuilder_ToSQL_run_def split: option.splits if_splits sum.splits prod.splits)
  from scopeRun_others [OF this assms(2,3)] show ?thesis .
qed

text \<open>
  Claim C9. On a well-formed memory, \<open>SelectBuilder.ToSQL\<close> and
  \<open>SelectDocBuilder.ToSQL\<close> return what the functions of the builder's fields give; the
  heap they leave is well formed for the same struct and header, so that the builder
  reads the same \<open>whereFragments\<close> through its header, whatever cell behind them the
  \<open>append\<close> has written; every other array in use is as it was; and a second call, on
  the heap that the first has left, returns what the first returned.
\<close>

theorem tosql_repeatable:
  "(wfMem h (whereFragments sb) s \<and> SelectBuilder_ToSQL_run env h (sb, s) = (r, h') \<longrightarrow>
       r = SelectBuilder_ToSQL env sb
     \<and> wfMem h' (whereFragments sb) s
     \<and> sliceElems h' s = sliceElems h s
     \<and> (\<forall>a. a < fresh h \<and> a \<noteq> arr s \<longrightarrow> arrays h' a = arrays h a)
     \<and> fst (SelectBuilder_ToSQL_run env h' (sb, s)) = r)
   \<and> (wfMem h (whereFragments (selectBuilder db)) s
        \<and> SelectDocBuilder_ToSQL_run env h (db, s) = (dr, dh) \<longrightarrow>
       dr = SelectDocBuilder_ToSQL env db
     \<and> wfMem dh (whereFragments (selectBuilder db)) s
     \<and> sliceElems dh s = sliceElems h s
     \<and> (\<forall>a. a < fresh h \<and> a \<noteq> arr s \<longrightarrow> arrays dh a = arrays h a)
     \<and> fst (SelectDocBuilder_ToSQL_run env dh (db, s)) = dr)"
proof (intro conjI impI allI)
  assume a: "wfMem h (whereFragments sb) s \<and> SelectBuilder_ToSQL_run env h (sb, s) = (r, h')"
  then have wf: "wfMem h (whereFragments sb) s"
    and run: "SelectBuilder_ToSQL_run env h (sb, s) = (r, h')" by simp_all
  from SelectBuilder_ToSQL_run_sound [OF wf run]
  show r: "r = SelectBuilder_ToSQL env sb" and wf': "wfMem h' (whereFragments sb) s" by simp_all
  show "sliceElems h' s = sliceElems h s" using wf wf' by (simp add: wfMem_def)
  obtain r2 h2 where run2: "SelectBuilder_ToSQL_run env h' (sb, s) = (r2, h2)"
    by (cases "SelectBuilder_ToSQL_run env h' (sb, s)")
  from SelectBuilder_ToSQL_run_sound [OF wf' run2] r
  show "fst (SelectBuilder_ToSQL_run env h' (sb, s)) = r" by (simp add: run2)
  fix a
  assume "a < fresh h \<and> a \<noteq> arr s"
  then show "arrays h' a = arrays h a"
    using SelectBuilder_ToSQL_run_others [OF run] by blast
next
  assume a: "wfMem h (whereFragments (selectBuilder db)) s
        \<and> SelectDocBuilder_ToSQL_run env h (db, s) = (dr, dh)"
  then have wf: "wfMem h (whereFragments (selectBuilder db)) s"
    and run: "SelectDocBuilder_ToSQL_run env h (db, s) = (dr, dh)" by simp_all
  from SelectDocBuilder_ToSQL_run_sound [OF wf run]
  show r: "dr = SelectDocBuilder_ToSQL env db"
    and wf': "wfMem dh (whereFragments (selectBuilder db)) s" by simp_all
  show "sliceElems dh s = sliceElems h s" using wf wf' by (simp add: wfMem_def)
  obtain r2 h2 where run2: "SelectDocBuilder_ToSQL_run env dh (db, s) = (r2, h2)"
    by (cases "SelectDocBuilder_ToSQL_run env dh (db, s)")
  from SelectDocBuilder_ToSQL_run_sound [OF wf' run2] r
  show "fst (SelectDocBuilder_ToSQL_run env dh (db, s)) = dr" by (simp add: run2)
  fix a
  assume "a < fresh h \<and> a \<noteq> arr s"
  then show "arrays dh a = arrays h a"
    using SelectDocBuilder_ToSQL_run_others [OF run] by blast
qed

lemma exampleScoped_eq:
  "exampleScoped = emptySelectBuilder
      \<lparr>columns := [''a''], tableFragments := [[\<lparr>fragText = ''t'', fragArgs = []\<rparr>]],
       whereFragments := [[\<lparr>fragText = ''x = $1'', fragArgs = [IntV 1]\<rparr>]],
       scope := Some (\<lambda>table. (''y = $1'', [IntV 2]))\<rparr>"
  by (simp add: exampleScoped_def NewSelectBuilder_def SelectBuilder_Columns_def
        SelectBuilder_From_def SelectBuilder_Where_def SelectBuilder_Scope_def
        emptySelectBuilder_def)

lemma exampleScoped_ToSQL:
  "SelectBuilder_ToSQL scopeEnv exampleScoped
     = Inr (''SELECT a FROM t WHERE (x = $1) AND (y = $2)'', [IntV 1, IntV 2])"
  by code_simp

lemma exampleScoped_wf: "wfMem exampleHeap (whereFragments exampleScoped) exampleSlice"
  by (simp add: wfMem_def sliceElems_def exampleHeap_def exampleSlice_def exampleScoped_eq
        emptySelectBuilder_def)

text \<open>The call writes the spare cell of the array.\<close>

lemma exampleScoped_heap:
  "arrays (snd (SelectBuilder_ToSQL_run scopeEnv exampleHeap (exampleScoped, exampleSlice))) 0
     = [[\<lparr>fragText = ''x = $1'', fragArgs = [IntV 1]\<rparr>], [\<lparr>fragText = ''y = $1'', fragArgs = [IntV 2]\<rparr>]]"
  by code_simp

theorem tosql_repeatable_witness:
  "wfMem exampleHeap (whereFragments exampleScoped) exampleSlice
   \<and> fst (SelectBuilder_ToSQL_run scopeEnv exampleHeap (exampleScoped, exampleSlice))
       = Inr (''SELECT a FROM t WHERE (x = $1) AND (y = $2)'', [IntV 1, IntV 2])
   \<and> arrays exampleHeap 0
       = [[\<lparr>fragText = ''x = $1'', fragArgs = [IntV 1]\<rparr>], [\<lparr>fragText = ''stale'', fragArgs = []\<rparr>]]
   \<and> arrays (snd (SelectBuilder_ToSQL_run scopeEnv exampleHeap (exampleScoped, exampleSlice))) 0
       = [[\<lparr>fragText = ''x = $1'', fragArgs = [IntV 1]\<rparr>], [\<lparr>fragText = ''y = $1'', fragArgs = [IntV 2]\<rparr>]]
   \<and> sliceElems (snd (SelectBuilder_ToSQL_run scopeEnv exampleHeap (exampleScoped, exampleSlice)))
         exampleSlice
       = [[\<lparr>fragText = ''x = $1'', fragArgs = [IntV 1]\<rparr>]]
   \<and> fst (SelectBuilder_ToSQL_run scopeEnv
             (snd (SelectBuilder_ToSQL_run scopeEnv exampleHeap (exampleScoped, exampleSlice)))
             (exampleScoped, exampleSlice))
       = Inr (''SELECT a FROM t WHERE (x = $1) AND (y = $2)'', [IntV 1, IntV 2])"
proof -
  obtain r h' where run: "SelectBuilder_ToSQL_run scopeEnv exampleHeap (exampleScoped, exampleSlice) = (r, h')"
    by (cases "SelectBuilder_ToSQL_run scopeEnv exampleHeap (exampleScoped, exampleSlice)")
  note th = tosql_repeatable [where env = scopeEnv and h = exampleHeap and sb = exampleScoped
      and s = exampleSlice and r = r and h' = h', THEN conjunct1, rule_format,
      OF conjI [OF exampleScoped_wf run]]
  have r: "r = Inr (''SELECT a FROM t WHERE (x = $1) AND (y = $2)'', [IntV 1, IntV 2])"
    using th exampleScoped_ToSQL by simp
  have e: "sliceElems h' exampleSlice = [[\<lparr>fragText = ''x = $1'', fragArgs = [IntV 1]\<rparr>]]"
    using th by (simp add: sliceElems_def exampleHeap_def exampleSlice_def)
  have two: "fst (SelectBuilder_ToSQL_run scopeEnv h' (exampleScoped, exampleSlice)) = r"
    using th by simp
  have a0: "arrays exampleHeap 0
       = [[\<lparr>fragText = ''x = $1'', fragArgs = [IntV 1]\<rparr>], [\<lparr>fragText = ''stale'', fragArgs = []\<rparr>]]"
    by (simp add: exampleHeap_def)
  show ?thesis
    using exampleScoped_wf r e two a0 exampleScoped_heap by (simp add: run)
qed

end
